(* ===== verification/Hmp_Prelude.thy ===== *)
theory Hmp_Prelude
  imports Main "HOL-Library.Word" "HOL-Library.Monad_Syntax"
begin

text \<open>
  What every component of the development shares: 64-bit pointers, typed heaps with
  checked reads and writes (a dereference of NULL or of an address that holds no object of
  the type is \<open>None\<close>), the loop combinator that models the \<open>while\<close> and \<open>for\<close> loops of the
  code, and the collections of facts that carry the component proofs.

  Each C struct type has a heap of its own (a map from addresses to records), so two
  objects of different types never alias. The code keeps that discipline but for the byte
  buffers it registers with the RDMA device, which are modelled as bytes.
\<close>

unbundle bit_operations_syntax

named_theorems heap_simps \<open>evaluation of heap reads and writes\<close>

section \<open>Pointers and typed heaps\<close>

type_synonym ptr = "64 word"

abbreviation NULL :: ptr where
  "NULL \<equiv> 0"

type_synonym 'a heap = "ptr \<rightharpoonup> 'a"

definition load :: "'a heap \<Rightarrow> ptr \<Rightarrow> 'a option" where
  "load h p = (if p = NULL then None else h p)"

definition modify :: "('a \<Rightarrow> 'a) \<Rightarrow> ptr \<Rightarrow> 'a heap \<Rightarrow> 'a heap option" where
  "modify f p h = do { v \<leftarrow> load h p; Some (h(p \<mapsto> f v)) }"

lemma load_NULL [simp]: "load h NULL = None"
  by (simp add: load_def)

lemma load_Some [simp]: "p \<noteq> NULL \<Longrightarrow> load h p = h p"
  by (simp add: load_def)

lemma load_eq_Some_iff: "load h p = Some v \<longleftrightarrow> p \<noteq> NULL \<and> h p = Some v"
  by (simp add: load_def)

lemma modify_NULL [simp]: "modify f NULL h = None"
  by (simp add: modify_def)

lemma modify_Some [simp]:
  "p \<noteq> NULL \<Longrightarrow> h p = Some v \<Longrightarrow> modify f p h = Some (h(p \<mapsto> f v))"
  by (simp add: modify_def)

lemma modify_eq_Some_iff:
  "modify f p h = Some h' \<longleftrightarrow> (\<exists>v. p \<noteq> NULL \<and> h p = Some v \<and> h' = h(p \<mapsto> f v))"
  by (auto simp: modify_def load_def Option.bind_eq_Some_conv split: if_splits)

lemma modify_dom: "modify f p h = Some h' \<Longrightarrow> dom h' = dom h"
  by (auto simp: modify_eq_Some_iff split: if_splits)

text \<open>Two heaps agree on a set of addresses: the frame of every heap predicate.\<close>

definition agree_on :: "ptr set \<Rightarrow> 'a heap \<Rightarrow> 'a heap \<Rightarrow> bool" where
  "agree_on A h h' \<longleftrightarrow> (\<forall>a\<in>A. h' a = h a)"

lemma agree_on_refl [simp, intro]: "agree_on A h h"
  by (simp add: agree_on_def)

lemma agree_on_upd: "a \<notin> A \<Longrightarrow> agree_on A h (h(a \<mapsto> v))"
  by (auto simp: agree_on_def)

lemma agree_on_trans: "agree_on A h h' \<Longrightarrow> agree_on A h' h'' \<Longrightarrow> agree_on A h h''"
  by (simp add: agree_on_def)

lemma agree_on_mono: "agree_on A h h' \<Longrightarrow> B \<subseteq> A \<Longrightarrow> agree_on B h h'"
  by (auto simp: agree_on_def)

section \<open>Loops\<close>

text \<open>
  A C loop is \<open>loop body x\<close>: the body maps the loop's variables to \<open>Inl\<close> of their next
  values (go round again) or to \<open>Inr\<close> of the result (the condition failed, or a
  \<open>break\<close> or \<open>return\<close> was reached); \<open>None\<close> is a fault inside the body. A loop that never
  ends has the value \<open>None\<close> as well.
\<close>

partial_function (option) loop :: "('x \<Rightarrow> ('x + 'y) option) \<Rightarrow> 'x \<Rightarrow> 'y option" where
  "loop body x =
     Option.bind (body x) (\<lambda>r. case r of Inl x' \<Rightarrow> loop body x' | Inr y \<Rightarrow> Some y)"

lemma loop_exit [simp]: "body x = Some (Inr y) \<Longrightarrow> loop body x = Some y"
  by (subst loop.simps) simp

lemma loop_again [simp]: "body x = Some (Inl x') \<Longrightarrow> loop body x = loop body x'"
  by (subst loop.simps) simp

lemma loop_fault [simp]: "body x = None \<Longrightarrow> loop body x = None"
  by (subst loop.simps) simp

text \<open>Total correctness: an invariant, a well-founded relation, and the exit condition.\<close>

lemma loop_total:
  assumes wf: "wf R"
    and inv: "I x"
    and step: "\<And>x. I x \<Longrightarrow>
      (\<exists>x'. body x = Some (Inl x') \<and> I x' \<and> (x', x) \<in> R) \<or>
      (\<exists>y. body x = Some (Inr y) \<and> Q y)"
  shows "\<exists>y. loop body x = Some y \<and> Q y"
  using wf inv
proof (induction x rule: wf_induct_rule)
  case (less x)
  from step [OF less.prems] show ?case
  proof (elim disjE exE conjE)
    fix x' assume "body x = Some (Inl x')" and "I x'" and "(x', x) \<in> R"
    with less.IH [of x'] show ?thesis by simp
  next
    fix y assume "body x = Some (Inr y)" and "Q y"
    then show ?thesis by auto
  qed
qed

text \<open>The same with a natural number that every further round makes smaller.\<close>

lemma loop_ranked:
  fixes m :: nat
  assumes inv: "I x m"
    and step: "\<And>x m. I x m \<Longrightarrow>
      (\<exists>x' m'. body x = Some (Inl x') \<and> I x' m' \<and> m' < m) \<or>
      (\<exists>y. body x = Some (Inr y) \<and> Q y)"
  shows "\<exists>y. loop body x = Some y \<and> Q y"
  using inv
proof (induction m arbitrary: x rule: less_induct)
  case (less m)
  from step [OF less.prems] show ?case
  proof (elim disjE exE conjE)
    fix x' m' assume "body x = Some (Inl x')" and "I x' m'" and "m' < m"
    with less.IH [of m' x'] show ?thesis by simp
  next
    fix y assume "body x = Some (Inr y)" and "Q y"
    then show ?thesis by auto
  qed
qed

text \<open>Partial correctness, where the end of the loop is not in the code's hands.\<close>

lemma loop_partial:
  assumes res: "loop body x = Some y"
    and inv: "I x"
    and again: "\<And>x x'. I x \<Longrightarrow> body x = Some (Inl x') \<Longrightarrow> I x'"
    and exit: "\<And>x y. I x \<Longrightarrow> body x = Some (Inr y) \<Longrightarrow> Q y"
  shows "Q y"
proof -
  have step: "b = body \<longrightarrow> I x \<longrightarrow> Q y"
    if IH: "\<And>b x y. lp b x = Some y \<Longrightarrow> b = body \<longrightarrow> I x \<longrightarrow> Q y"
      and eq: "Option.bind (b x) (\<lambda>r. case r of Inl x' \<Rightarrow> lp b x' | Inr y \<Rightarrow> Some y) = Some y"
    for lp b x y
    using eq IH again exit by (cases "b x") (auto split: sum.splits)
  have "(case (body, x) of (b, x) \<Rightarrow> \<lambda>y. b = body \<longrightarrow> I x \<longrightarrow> Q y) y"
    by (rule loop.raw_induct [OF step]) (use res in auto)
  with inv show ?thesis by simp
qed

section \<open>Bits of a pointer\<close>

text \<open>The red-black tree keeps its colour in the low bits of an aligned pointer.\<close>

definition aligned4 :: "ptr \<Rightarrow> bool" where
  "aligned4 p \<longleftrightarrow> p AND 3 = 0"

end
