(* ===== verification/Rb_Model.thy ===== *)
theory Rb_Model
  imports Hmp_Prelude
begin

text \<open>
  The red-black tree of \<open>src/hmp_rbtree.h\<close> and \<open>src/hmp_rbtree.c\<close>, function by function.
  A node is the C struct: two child pointers and one word that packs the parent pointer
  with the colour in its low bits. The state is the heap of nodes and the pointer held by
  the \<open>struct rb_root\<close> the functions receive. Every function is in the option monad: \<open>None\<close>
  is a NULL (or wild) dereference or a loop that does not end.
\<close>

section \<open>Data\<close>

record rb_node =
  rb_parent_color :: "64 word"
  rb_right :: ptr
  rb_left :: ptr

record rb_state =
  rb_nodes :: "rb_node heap"
  rb_root_node :: ptr

definition RB_RED :: "64 word" where
  "RB_RED = 0"

definition RB_BLACK :: "64 word" where
  "RB_BLACK = 1"

definition rb_parent :: "rb_node \<Rightarrow> ptr" where
  "rb_parent r = rb_parent_color r AND NOT 3"

definition rb_color :: "rb_node \<Rightarrow> 64 word" where
  "rb_color r = rb_parent_color r AND 1"

definition rb_is_red :: "rb_node \<Rightarrow> bool" where
  "rb_is_red r \<longleftrightarrow> rb_color r = 0"

definition rb_is_black :: "rb_node \<Rightarrow> bool" where
  "rb_is_black r \<longleftrightarrow> rb_color r \<noteq> 0"

section \<open>Field reads and writes\<close>

definition get_node :: "ptr \<Rightarrow> rb_state \<Rightarrow> rb_node option" where
  "get_node p s = load (rb_nodes s) p"

definition set_node :: "(rb_node \<Rightarrow> rb_node) \<Rightarrow> ptr \<Rightarrow> rb_state \<Rightarrow> rb_state option" where
  "set_node f p s = do { h \<leftarrow> modify f p (rb_nodes s); Some (s\<lparr>rb_nodes := h\<rparr>) }"

definition left_of :: "ptr \<Rightarrow> rb_state \<Rightarrow> ptr option" where
  "left_of p s = do { n \<leftarrow> get_node p s; Some (rb_left n) }"

definition right_of :: "ptr \<Rightarrow> rb_state \<Rightarrow> ptr option" where
  "right_of p s = do { n \<leftarrow> get_node p s; Some (rb_right n) }"

definition parent_of :: "ptr \<Rightarrow> rb_state \<Rightarrow> ptr option" where
  "parent_of p s = do { n \<leftarrow> get_node p s; Some (rb_parent n) }"

definition color_of :: "ptr \<Rightarrow> rb_state \<Rightarrow> 64 word option" where
  "color_of p s = do { n \<leftarrow> get_node p s; Some (rb_color n) }"

definition is_red :: "ptr \<Rightarrow> rb_state \<Rightarrow> bool option" where
  "is_red p s = do { n \<leftarrow> get_node p s; Some (rb_is_red n) }"

definition is_black :: "ptr \<Rightarrow> rb_state \<Rightarrow> bool option" where
  "is_black p s = do { n \<leftarrow> get_node p s; Some (rb_is_black n) }"

text \<open>The guard \<open>p && rb_is_red(p)\<close>, which does not read through a NULL pointer.\<close>

definition ptr_and_red :: "ptr \<Rightarrow> rb_state \<Rightarrow> bool option" where
  "ptr_and_red p s = (if p = NULL then Some False else is_red p s)"

text \<open>The guard \<open>!p || rb_is_black(p)\<close>.\<close>

definition null_or_black :: "ptr \<Rightarrow> rb_state \<Rightarrow> bool option" where
  "null_or_black p s = (if p = NULL then Some True else is_black p s)"

definition set_left :: "ptr \<Rightarrow> ptr \<Rightarrow> rb_state \<Rightarrow> rb_state option" where
  "set_left p q = set_node (\<lambda>n. n\<lparr>rb_left := q\<rparr>) p"

definition set_right :: "ptr \<Rightarrow> ptr \<Rightarrow> rb_state \<Rightarrow> rb_state option" where
  "set_right p q = set_node (\<lambda>n. n\<lparr>rb_right := q\<rparr>) p"

definition rb_set_red :: "ptr \<Rightarrow> rb_state \<Rightarrow> rb_state option" where
  "rb_set_red = set_node (\<lambda>r. r\<lparr>rb_parent_color := rb_parent_color r AND NOT 1\<rparr>)"

definition rb_set_black :: "ptr \<Rightarrow> rb_state \<Rightarrow> rb_state option" where
  "rb_set_black = set_node (\<lambda>r. r\<lparr>rb_parent_color := rb_parent_color r OR 1\<rparr>)"

definition rb_set_parent :: "ptr \<Rightarrow> ptr \<Rightarrow> rb_state \<Rightarrow> rb_state option" where
  "rb_set_parent rb p =
     set_node (\<lambda>r. r\<lparr>rb_parent_color := (rb_parent_color r AND 3) OR p\<rparr>) rb"

definition rb_set_color :: "ptr \<Rightarrow> 64 word \<Rightarrow> rb_state \<Rightarrow> rb_state option" where
  "rb_set_color rb color =
     set_node (\<lambda>r. r\<lparr>rb_parent_color := (rb_parent_color r AND NOT 1) OR color\<rparr>) rb"

definition RB_ROOT :: ptr where
  "RB_ROOT = NULL"

definition RB_EMPTY_ROOT :: "rb_state \<Rightarrow> bool" where
  "RB_EMPTY_ROOT s \<longleftrightarrow> rb_root_node s = NULL"

definition RB_EMPTY_NODE :: "ptr \<Rightarrow> rb_state \<Rightarrow> bool option" where
  "RB_EMPTY_NODE node s = do { p \<leftarrow> parent_of node s; Some (p = node) }"

definition RB_CLEAR_NODE :: "ptr \<Rightarrow> rb_state \<Rightarrow> rb_state option" where
  "RB_CLEAR_NODE node s = rb_set_parent node node s"

text \<open>
  \<open>rb_link\<close> is the address of the pointer the new node is stored in: the root's, or a child
  field of a node.
\<close>

datatype rb_slot = Root_slot | Left_slot ptr | Right_slot ptr

definition store_slot :: "rb_slot \<Rightarrow> ptr \<Rightarrow> rb_state \<Rightarrow> rb_state option" where
  "store_slot l p s = (case l of
       Root_slot \<Rightarrow> Some (s\<lparr>rb_root_node := p\<rparr>)
     | Left_slot q \<Rightarrow> set_left q p s
     | Right_slot q \<Rightarrow> set_right q p s)"

definition rb_link_node :: "ptr \<Rightarrow> ptr \<Rightarrow> rb_slot \<Rightarrow> rb_state \<Rightarrow> rb_state option" where
  "rb_link_node node parent rb_link s = do {
     s \<leftarrow> set_node (\<lambda>n. n\<lparr>rb_parent_color := parent\<rparr>) node s;
     s \<leftarrow> set_right node NULL s;
     s \<leftarrow> set_left node NULL s;
     store_slot rb_link node s }"

section \<open>Rotations\<close>

definition rb_rotate_left :: "ptr \<Rightarrow> rb_state \<Rightarrow> rb_state option" where
  "rb_rotate_left node s = do {
     right \<leftarrow> right_of node s;
     parent \<leftarrow> parent_of node s;
     rl \<leftarrow> left_of right s;
     s \<leftarrow> set_right node rl s;
     s \<leftarrow> (if rl \<noteq> NULL
          then do { rl' \<leftarrow> left_of right s; rb_set_parent rl' node s }
          else Some s);
     s \<leftarrow> set_left right node s;
     s \<leftarrow> rb_set_parent right parent s;
     s \<leftarrow> (if parent \<noteq> NULL
          then do {
            pl \<leftarrow> left_of parent s;
            if node = pl then set_left parent right s else set_right parent right s }
          else Some (s\<lparr>rb_root_node := right\<rparr>));
     rb_set_parent node right s }"

definition rb_rotate_right :: "ptr \<Rightarrow> rb_state \<Rightarrow> rb_state option" where
  "rb_rotate_right node s = do {
     left \<leftarrow> left_of node s;
     parent \<leftarrow> parent_of node s;
     lr \<leftarrow> right_of left s;
     s \<leftarrow> set_left node lr s;
     s \<leftarrow> (if lr \<noteq> NULL
          then do { lr' \<leftarrow> right_of left s; rb_set_parent lr' node s }
          else Some s);
     s \<leftarrow> set_right left node s;
     s \<leftarrow> rb_set_parent left parent s;
     s \<leftarrow> (if parent \<noteq> NULL
          then do {
            pr \<leftarrow> right_of parent s;
            if node = pr then set_right parent left s else set_left parent left s }
          else Some (s\<lparr>rb_root_node := left\<rparr>));
     rb_set_parent node left s }"

section \<open>Rebalancing after an insertion\<close>

text \<open>One round of the loop of \<open>rb_insert_color\<close>; the loop's variable is \<open>node\<close>.\<close>

definition insert_round :: "ptr \<times> rb_state \<Rightarrow> (ptr \<times> rb_state + rb_state) option" where
  "insert_round = (\<lambda>(node, s). do {
     parent \<leftarrow> parent_of node s;
     go \<leftarrow> ptr_and_red parent s;
     if \<not> go then Some (Inr s)
     else do {
       gparent \<leftarrow> parent_of parent s;
       gl \<leftarrow> left_of gparent s;
       if parent = gl then do {
         uncle \<leftarrow> right_of gparent s;
         ured \<leftarrow> ptr_and_red uncle s;
         if ured then do {
           s \<leftarrow> rb_set_black uncle s;
           s \<leftarrow> rb_set_black parent s;
           s \<leftarrow> rb_set_red gparent s;
           Some (Inl (gparent, s)) }
         else do {
           pr \<leftarrow> right_of parent s;
           (parent, node, s) \<leftarrow>
             (if pr = node
              then do { s \<leftarrow> rb_rotate_left parent s; Some (node, parent, s) }
              else Some (parent, node, s));
           s \<leftarrow> rb_set_black parent s;
           s \<leftarrow> rb_set_red gparent s;
           s \<leftarrow> rb_rotate_right gparent s;
           Some (Inl (node, s)) } }
       else do {
         uncle \<leftarrow> left_of gparent s;
         ured \<leftarrow> ptr_and_red uncle s;
         if ured then do {
           s \<leftarrow> rb_set_black uncle s;
           s \<leftarrow> rb_set_black parent s;
           s \<leftarrow> rb_set_red gparent s;
           Some (Inl (gparent, s)) }
         else do {
           pl \<leftarrow> left_of parent s;
           (parent, node, s) \<leftarrow>
             (if pl = node
              then do { s \<leftarrow> rb_rotate_right parent s; Some (node, parent, s) }
              else Some (parent, node, s));
           s \<leftarrow> rb_set_black parent s;
           s \<leftarrow> rb_set_red gparent s;
           s \<leftarrow> rb_rotate_left gparent s;
           Some (Inl (node, s)) } } } })"

definition rb_insert_color :: "ptr \<Rightarrow> rb_state \<Rightarrow> rb_state option" where
  "rb_insert_color node s = do {
     s \<leftarrow> loop insert_round (node, s);
     rb_set_black (rb_root_node s) s }"

section \<open>Rebalancing after a removal\<close>

text \<open>
  The two blocks of the loop body, for a node that is a left child: a red sibling is
  rotated away (the result is the new sibling), and a sibling with a red child ends the
  loop by one or two rotations.
\<close>

definition red_sibling_left :: "ptr \<Rightarrow> ptr \<Rightarrow> rb_state \<Rightarrow> (ptr \<times> rb_state) option" where
  "red_sibling_left parent other s = do {
     ored \<leftarrow> is_red other s;
     if ored then do {
       s \<leftarrow> rb_set_black other s;
       s \<leftarrow> rb_set_red parent s;
       s \<leftarrow> rb_rotate_left parent s;
       other \<leftarrow> right_of parent s;
       Some (other, s) }
     else Some (other, s) }"

definition restore_left :: "ptr \<Rightarrow> ptr \<Rightarrow> rb_state \<Rightarrow> rb_state option" where
  "restore_left parent other s = do {
     or \<leftarrow> right_of other s;
     rb \<leftarrow> null_or_black or s;
     (other, s) \<leftarrow>
       (if rb then do {
          o_left \<leftarrow> left_of other s;
          s \<leftarrow> (if o_left \<noteq> NULL then rb_set_black o_left s else Some s);
          s \<leftarrow> rb_set_red other s;
          s \<leftarrow> rb_rotate_right other s;
          other \<leftarrow> right_of parent s;
          Some (other, s) }
        else Some (other, s));
     c \<leftarrow> color_of parent s;
     s \<leftarrow> rb_set_color other c s;
     s \<leftarrow> rb_set_black parent s;
     or \<leftarrow> right_of other s;
     s \<leftarrow> (if or \<noteq> NULL then rb_set_black or s else Some s);
     rb_rotate_left parent s }"

text \<open>The same for a node that is a right child.\<close>

definition red_sibling_right :: "ptr \<Rightarrow> ptr \<Rightarrow> rb_state \<Rightarrow> (ptr \<times> rb_state) option" where
  "red_sibling_right parent other s = do {
     ored \<leftarrow> is_red other s;
     if ored then do {
       s \<leftarrow> rb_set_black other s;
       s \<leftarrow> rb_set_red parent s;
       s \<leftarrow> rb_rotate_right parent s;
       other \<leftarrow> left_of parent s;
       Some (other, s) }
     else Some (other, s) }"

definition restore_right :: "ptr \<Rightarrow> ptr \<Rightarrow> rb_state \<Rightarrow> rb_state option" where
  "restore_right parent other s = do {
     ol \<leftarrow> left_of other s;
     lb \<leftarrow> null_or_black ol s;
     (other, s) \<leftarrow>
       (if lb then do {
          o_right \<leftarrow> right_of other s;
          s \<leftarrow> (if o_right \<noteq> NULL then rb_set_black o_right s else Some s);
          s \<leftarrow> rb_set_red other s;
          s \<leftarrow> rb_rotate_left other s;
          other \<leftarrow> left_of parent s;
          Some (other, s) }
        else Some (other, s));
     c \<leftarrow> color_of parent s;
     s \<leftarrow> rb_set_color other c s;
     s \<leftarrow> rb_set_black parent s;
     ol \<leftarrow> left_of other s;
     s \<leftarrow> (if ol \<noteq> NULL then rb_set_black ol s else Some s);
     rb_rotate_right parent s }"

text \<open>
  The guard of both branches: \<open>!left || black(left)\<close> and then \<open>!right || black(right)\<close>, the
  second read only when the first holds.
\<close>

definition children_black :: "ptr \<Rightarrow> rb_state \<Rightarrow> bool option" where
  "children_black other s = do {
     ol \<leftarrow> left_of other s;
     lb \<leftarrow> null_or_black ol s;
     if lb then do { or \<leftarrow> right_of other s; null_or_black or s } else Some False }"

text \<open>
  One round of the loop of \<open>__rb_erase_color\<close>; the loop's variables are \<open>node\<close> (which may
  be NULL) and \<open>parent\<close>. The result is the node the loop leaves with.
\<close>

definition erase_round ::
  "ptr \<times> ptr \<times> rb_state \<Rightarrow> (ptr \<times> ptr \<times> rb_state + ptr \<times> rb_state) option" where
  "erase_round = (\<lambda>(node, parent, s). do {
     nb \<leftarrow> null_or_black node s;
     if \<not> (nb \<and> node \<noteq> rb_root_node s) then Some (Inr (node, s))
     else do {
       pl \<leftarrow> left_of parent s;
       if pl = node then do {
         other \<leftarrow> right_of parent s;
         (other, s) \<leftarrow> red_sibling_left parent other s;
         both \<leftarrow> children_black other s;
         if both then do {
           s \<leftarrow> rb_set_red other s;
           p \<leftarrow> parent_of parent s;
           Some (Inl (parent, p, s)) }
         else do {
           s \<leftarrow> restore_left parent other s;
           Some (Inr (rb_root_node s, s)) } }
       else do {
         other \<leftarrow> left_of parent s;
         (other, s) \<leftarrow> red_sibling_right parent other s;
         both \<leftarrow> children_black other s;
         if both then do {
           s \<leftarrow> rb_set_red other s;
           p \<leftarrow> parent_of parent s;
           Some (Inl (parent, p, s)) }
         else do {
           s \<leftarrow> restore_right parent other s;
           Some (Inr (rb_root_node s, s)) } } } })"

definition rb_erase_color :: "ptr \<Rightarrow> ptr \<Rightarrow> rb_state \<Rightarrow> rb_state option" where
  "rb_erase_color node parent s = do {
     (node, s) \<leftarrow> loop erase_round (node, parent, s);
     if node \<noteq> NULL then rb_set_black node s else Some s }"

text \<open>\<open>while ((left = node->rb_left) != NULL) node = left;\<close>, also used by \<open>rb_first\<close>.\<close>

definition leftmost_round :: "rb_state \<Rightarrow> ptr \<Rightarrow> (ptr + ptr) option" where
  "leftmost_round s n = do {
     l \<leftarrow> left_of n s;
     Some (if l \<noteq> NULL then Inl l else Inr n) }"

definition rightmost_round :: "rb_state \<Rightarrow> ptr \<Rightarrow> (ptr + ptr) option" where
  "rightmost_round s n = do {
     r \<leftarrow> right_of n s;
     Some (if r \<noteq> NULL then Inl r else Inr n) }"

text \<open>
  The block that stores \<open>new\<close> where \<open>old\<close> hangs: in a child field of \<open>parent\<close>, or in the
  root. It stands twice in \<open>rb_erase\<close> and once in \<open>rb_replace_node\<close>.
\<close>

definition change_child :: "ptr \<Rightarrow> ptr \<Rightarrow> ptr \<Rightarrow> rb_state \<Rightarrow> rb_state option" where
  "change_child parent old new s =
     (if parent \<noteq> NULL
      then do {
        pl \<leftarrow> left_of parent s;
        if pl = old then set_left parent new s else set_right parent new s }
      else Some (s\<lparr>rb_root_node := new\<rparr>))"

text \<open>
  The second half of \<open>rb_erase\<close> for a node with at most one child: \<open>child\<close> takes its place.
  It is also what \<open>color:\<close> receives: the child, the child's parent and the lost colour.
\<close>

definition erase_splice ::
  "ptr \<Rightarrow> ptr \<Rightarrow> rb_state \<Rightarrow> (ptr \<times> ptr \<times> 64 word \<times> rb_state) option" where
  "erase_splice node child s = do {
     parent \<leftarrow> parent_of node s;
     color \<leftarrow> color_of node s;
     s \<leftarrow> (if child \<noteq> NULL then rb_set_parent child parent s else Some s);
     s \<leftarrow> change_child parent node child s;
     Some (child, parent, color, s) }"

text \<open>
  The branch for a node with two children. Its successor \<open>node\<close> is cut out (the result is
  the parent the rebalancing starts from) and then put in the place of \<open>old\<close>.
\<close>

definition unlink_successor ::
  "ptr \<Rightarrow> ptr \<Rightarrow> ptr \<Rightarrow> ptr \<Rightarrow> rb_state \<Rightarrow> (ptr \<times> rb_state) option" where
  "unlink_successor old node child parent s = do {
     s \<leftarrow> (if child \<noteq> NULL then rb_set_parent child parent s else Some s);
     if parent = old then do { s \<leftarrow> set_right parent child s; Some (node, s) }
     else do { s \<leftarrow> set_left parent child s; Some (parent, s) } }"

definition copy_fields :: "ptr \<Rightarrow> ptr \<Rightarrow> rb_state \<Rightarrow> rb_state option" where
  "copy_fields old node s = do {
     o_node \<leftarrow> get_node old s;
     s \<leftarrow> set_node (\<lambda>n. n\<lparr>rb_parent_color := rb_parent_color o_node\<rparr>) node s;
     o_node \<leftarrow> get_node old s;
     s \<leftarrow> set_right node (rb_right o_node) s;
     o_node \<leftarrow> get_node old s;
     set_left node (rb_left o_node) s }"

definition take_place :: "ptr \<Rightarrow> ptr \<Rightarrow> rb_state \<Rightarrow> rb_state option" where
  "take_place old node s = do {
     s \<leftarrow> copy_fields old node s;
     op \<leftarrow> parent_of old s;
     s \<leftarrow> change_child op old node s;
     ol \<leftarrow> left_of old s;
     s \<leftarrow> rb_set_parent ol node s;
     o_r \<leftarrow> right_of old s;
     if o_r \<noteq> NULL then do { o_r' \<leftarrow> right_of old s; rb_set_parent o_r' node s } else Some s }"

definition erase_successor ::
  "ptr \<Rightarrow> rb_state \<Rightarrow> (ptr \<times> ptr \<times> 64 word \<times> rb_state) option" where
  "erase_successor old s = do {
     r \<leftarrow> right_of old s;
     node \<leftarrow> loop (leftmost_round s) r;
     child \<leftarrow> right_of node s;
     parent \<leftarrow> parent_of node s;
     color \<leftarrow> color_of node s;
     (parent, s) \<leftarrow> unlink_successor old node child parent s;
     s \<leftarrow> take_place old node s;
     Some (child, parent, color, s) }"

definition rb_erase :: "ptr \<Rightarrow> rb_state \<Rightarrow> rb_state option" where
  "rb_erase node s = do {
     l \<leftarrow> left_of node s;
     r \<leftarrow> right_of node s;
     (child, parent, color, s) \<leftarrow>
       (if l = NULL then erase_splice node r s
        else if r = NULL then erase_splice node l s
        else erase_successor node s);
     if color = RB_BLACK then rb_erase_color child parent s else Some s }"

section \<open>Traversal and replacement\<close>

definition rb_first :: "rb_state \<Rightarrow> ptr option" where
  "rb_first s =
     (let n = rb_root_node s
      in if n = NULL then Some NULL else loop (leftmost_round s) n)"

definition rb_last :: "rb_state \<Rightarrow> ptr option" where
  "rb_last s =
     (let n = rb_root_node s
      in if n = NULL then Some NULL else loop (rightmost_round s) n)"

definition next_up_round :: "rb_state \<Rightarrow> ptr \<Rightarrow> (ptr + ptr) option" where
  "next_up_round s node = do {
     parent \<leftarrow> parent_of node s;
     if parent = NULL then Some (Inr parent)
     else do {
       pr \<leftarrow> right_of parent s;
       Some (if node = pr then Inl parent else Inr parent) } }"

definition rb_next :: "ptr \<Rightarrow> rb_state \<Rightarrow> ptr option" where
  "rb_next node s = do {
     p \<leftarrow> parent_of node s;
     if p = node then Some NULL
     else do {
       r \<leftarrow> right_of node s;
       if r \<noteq> NULL then loop (leftmost_round s) r
       else loop (next_up_round s) node } }"

definition prev_up_round :: "rb_state \<Rightarrow> ptr \<Rightarrow> (ptr + ptr) option" where
  "prev_up_round s node = do {
     parent \<leftarrow> parent_of node s;
     if parent = NULL then Some (Inr parent)
     else do {
       pl \<leftarrow> left_of parent s;
       Some (if node = pl then Inl parent else Inr parent) } }"

definition rb_prev :: "ptr \<Rightarrow> rb_state \<Rightarrow> ptr option" where
  "rb_prev node s = do {
     p \<leftarrow> parent_of node s;
     if p = node then Some NULL
     else do {
       l \<leftarrow> left_of node s;
       if l \<noteq> NULL then loop (rightmost_round s) l
       else loop (prev_up_round s) node } }"

definition rb_replace_node :: "ptr \<Rightarrow> ptr \<Rightarrow> rb_state \<Rightarrow> rb_state option" where
  "rb_replace_node victim new s = do {
     parent \<leftarrow> parent_of victim s;
     s \<leftarrow> change_child parent victim new s;
     l \<leftarrow> left_of victim s;
     s \<leftarrow> (if l \<noteq> NULL then do { l' \<leftarrow> left_of victim s; rb_set_parent l' new s }
          else Some s);
     r \<leftarrow> right_of victim s;
     s \<leftarrow> (if r \<noteq> NULL then do { r' \<leftarrow> right_of victim s; rb_set_parent r' new s }
          else Some s);
     v \<leftarrow> get_node victim s;
     set_node (\<lambda>_. v) new s }"

end
