(* ===== verification/Rb_Rep.thy ===== *)
theory Rb_Rep
  imports Rb_Model
begin

text \<open>
  The abstraction of the red-black heap: a coloured binary tree of node addresses, a zipper
  (the path from a node up to the root) and the predicate \<open>rep s t\<close> that the pointers of
  \<open>s\<close> spell the tree \<open>t\<close>. Each primitive of the C code (a colour write, a rotation, a link)
  has one lemma here that says what it does to the tree at the focus of the zipper; the
  rebalancing loops are then verified over trees alone.
\<close>

section \<open>Trees and zippers\<close>

datatype rcolor = Red | Black

datatype rbt = Leaf | Node rbt ptr rcolor rbt

fun rootp :: "rbt \<Rightarrow> ptr" where
  "rootp Leaf = NULL"
| "rootp (Node l a c r) = a"

fun rbcol :: "rbt \<Rightarrow> rcolor" where
  "rbcol Leaf = Black"
| "rbcol (Node l a c r) = c"

fun addrs :: "rbt \<Rightarrow> ptr list" where
  "addrs Leaf = []"
| "addrs (Node l a c r) = addrs l @ a # addrs r"

fun paint :: "rcolor \<Rightarrow> rbt \<Rightarrow> rbt" where
  "paint c Leaf = Leaf"
| "paint c (Node l a _ r) = Node l a c r"

datatype frame = LF ptr rcolor rbt | RF rbt ptr rcolor

fun fill :: "frame \<Rightarrow> rbt \<Rightarrow> rbt" where
  "fill (LF a c r) t = Node t a c r"
| "fill (RF l a c) t = Node l a c t"

fun plug :: "frame list \<Rightarrow> rbt \<Rightarrow> rbt" where
  "plug [] t = t"
| "plug (f # k) t = plug k (fill f t)"

fun fptr :: "frame \<Rightarrow> ptr" where
  "fptr (LF a c r) = a"
| "fptr (RF l a c) = a"

fun fcol :: "frame \<Rightarrow> rcolor" where
  "fcol (LF a c r) = c"
| "fcol (RF l a c) = c"

fun kptr :: "frame list \<Rightarrow> ptr" where
  "kptr [] = NULL"
| "kptr (f # k) = fptr f"

fun kcol :: "frame list \<Rightarrow> rcolor" where
  "kcol [] = Black"
| "kcol (f # k) = fcol f"

text \<open>The addresses before and after the hole, in tree order.\<close>

fun pre :: "frame list \<Rightarrow> ptr list" where
  "pre [] = []"
| "pre (LF a c r # k) = pre k"
| "pre (RF l a c # k) = pre k @ addrs l @ [a]"

fun post :: "frame list \<Rightarrow> ptr list" where
  "post [] = []"
| "post (LF a c r # k) = a # addrs r @ post k"
| "post (RF l a c # k) = post k"

lemma addrs_plug: "addrs (plug k t) = pre k @ addrs t @ post k"
  by (induction k arbitrary: t rule: pre.induct) auto

lemma plug_append: "plug (k @ k') t = plug k' (plug k t)"
  by (induction k arbitrary: t) auto

lemma rootp_Leaf_iff: "0 \<notin> set (addrs t) \<Longrightarrow> rootp t = NULL \<longleftrightarrow> t = Leaf"
  by (cases t) auto

lemma rootp_in_addrs: "t \<noteq> Leaf \<Longrightarrow> rootp t \<in> set (addrs t)"
  by (cases t) auto

lemma addrs_eq_Nil [simp]: "addrs t = [] \<longleftrightarrow> t = Leaf"
  by (cases t) auto

lemma addrs_paint [simp]: "addrs (paint c t) = addrs t"
  by (cases t) auto

lemma rootp_paint [simp]: "rootp (paint c t) = rootp t"
  by (cases t) auto

lemma kptr_in: "k \<noteq> [] \<Longrightarrow> kptr k \<in> set (pre k @ post k)"
  by (cases k rule: pre.cases) auto

text \<open>Every node of a tree is the focus of some zipper.\<close>

lemma focus_exists:
  "a \<in> set (addrs t) \<Longrightarrow> \<exists>k l c r. t = plug k (Node l a c r)"
proof (induction t)
  case Leaf
  then show ?case by simp
next
  case (Node l b c r)
  consider "a \<in> set (addrs l)" | "a = b" | "a \<in> set (addrs r)"
    using Node.prems by auto
  then show ?case
  proof cases
    case 1
    with Node.IH(1) obtain k l' c' r' where "l = plug k (Node l' a c' r')" by blast
    then have "Node l b c r = plug (k @ [LF b c r]) (Node l' a c' r')"
      by (simp add: plug_append)
    then show ?thesis by blast
  next
    case 2
    then have "Node l b c r = plug [] (Node l a c r)" by simp
    then show ?thesis by blast
  next
    case 3
    with Node.IH(2) obtain k l' c' r' where "r = plug k (Node l' a c' r')" by blast
    then have "Node l b c r = plug (k @ [RF l b c]) (Node l' a c' r')"
      by (simp add: plug_append)
    then show ?thesis by blast
  qed
qed

section \<open>The packed parent-and-colour word\<close>

fun colw :: "rcolor \<Rightarrow> 64 word" where
  "colw Red = RB_RED"
| "colw Black = RB_BLACK"

definition mk :: "ptr \<Rightarrow> rcolor \<Rightarrow> ptr \<Rightarrow> ptr \<Rightarrow> rb_node" where
  "mk par c l r = \<lparr>rb_parent_color = par OR colw c, rb_right = r, rb_left = l\<rparr>"

lemma mk_sel [simp]:
  "rb_right (mk par c l r) = r" "rb_left (mk par c l r) = l"
  "rb_parent_color (mk par c l r) = par OR colw c"
  by (simp_all add: mk_def)

lemma mk_upd [simp]:
  "mk par c l r\<lparr>rb_right := r'\<rparr> = mk par c l r'"
  "mk par c l r\<lparr>rb_left := l'\<rparr> = mk par c l' r"
  by (simp_all add: mk_def)

lemma aligned4_NULL [simp]: "aligned4 0"
  by (simp add: aligned4_def)

lemma and_not_absorb:
  fixes p :: ptr
  assumes "p AND m = 0"
  shows "p AND NOT m = p"
proof -
  have "p AND NOT m = (p AND m) OR (p AND NOT m)"
    using assms by simp
  also have "\<dots> = p AND (m OR NOT m)"
    by (simp only: bit.conj_disj_distrib)
  finally show ?thesis by simp
qed

lemma aligned4_masks:
  assumes "aligned4 p"
  shows "p AND 3 = 0" "p AND 1 = 0" "p AND - 4 = p" "p AND - 2 = p"
proof -
  show 3: "p AND 3 = 0"
    using assms by (simp add: aligned4_def)
  have "p AND 1 = (p AND 3) AND 1"
    by (simp add: and.assoc)
  then show 1: "p AND 1 = 0"
    using 3 by simp
  show "p AND - 4 = p" "p AND - 2 = p"
    using and_not_absorb [OF 3] and_not_absorb [OF 1] by simp_all
qed

lemmas colw_bits = RB_RED_def RB_BLACK_def bit.conj_disj_distrib2

lemma aligned4_parent: "aligned4 p \<Longrightarrow> (p OR colw c) AND - 4 = p"
  by (cases c) (simp_all add: colw_bits aligned4_masks)

lemma aligned4_color: "aligned4 p \<Longrightarrow> (p OR colw c) AND 1 = colw c"
  by (cases c) (simp_all add: colw_bits aligned4_masks)

lemma colw_reparent: "aligned4 p \<Longrightarrow> (p OR colw c) AND 3 = colw c"
  by (cases c) (simp_all add: colw_bits aligned4_masks)

lemma colw_clear: "aligned4 p \<Longrightarrow> (p OR colw c) AND - 2 = p"
  by (cases c) (simp_all add: colw_bits aligned4_masks)

lemma colw_set: "(p OR colw c) OR 1 = p OR colw Black"
  by (cases c) (simp_all add: RB_RED_def RB_BLACK_def or.assoc)

lemma colw_eq_0 [simp]: "colw c = 0 \<longleftrightarrow> c = Red"
  by (cases c) (simp_all add: RB_RED_def RB_BLACK_def)

lemma colw_eq_iff [simp]: "colw c = colw d \<longleftrightarrow> c = d"
  by (cases c; cases d) (simp_all add: RB_RED_def RB_BLACK_def)

lemma mk_parent [simp]: "aligned4 p \<Longrightarrow> rb_parent (mk p c l r) = p"
  by (simp add: rb_parent_def aligned4_parent)

lemma mk_color [simp]: "aligned4 p \<Longrightarrow> rb_color (mk p c l r) = colw c"
  by (simp add: rb_color_def aligned4_color)

lemma mk_is_red [simp]: "aligned4 p \<Longrightarrow> rb_is_red (mk p c l r) \<longleftrightarrow> c = Red"
  by (simp add: rb_is_red_def)

lemma mk_is_black [simp]: "aligned4 p \<Longrightarrow> rb_is_black (mk p c l r) \<longleftrightarrow> c = Black"
  by (cases c) (simp_all add: rb_is_black_def RB_RED_def RB_BLACK_def)

lemma mk_set_red [simp]:
  "aligned4 p \<Longrightarrow> mk p c l r\<lparr>rb_parent_color := (p OR colw c) AND - 2\<rparr> = mk p Red l r"
  by (simp add: mk_def colw_clear RB_RED_def)

lemma mk_set_black [simp]:
  "mk p c l r\<lparr>rb_parent_color := (p OR colw c) OR 1\<rparr> = mk p Black l r"
  by (simp add: mk_def colw_set)

lemma mk_set_parent [simp]:
  "aligned4 p \<Longrightarrow>
   mk p c l r\<lparr>rb_parent_color := ((p OR colw c) AND 3) OR q\<rparr> = mk q c l r"
  by (simp add: mk_def colw_reparent or.commute)

lemma mk_set_color [simp]:
  "aligned4 p \<Longrightarrow>
   mk p c l r\<lparr>rb_parent_color := ((p OR colw c) AND - 2) OR colw d\<rparr> = mk p d l r"
  by (simp add: mk_def colw_clear)

text \<open>The same for a NULL parent, whose word is simplified away.\<close>

lemma mk_NULL_upd [simp]:
  "mk NULL c l r\<lparr>rb_parent_color := (colw c AND 3) OR q\<rparr> = mk q c l r"
  "aligned4 p \<Longrightarrow> mk p c l r\<lparr>rb_parent_color := (p OR colw c) AND 3\<rparr> = mk NULL c l r"
  "mk NULL c l r\<lparr>rb_parent_color := colw c AND 3\<rparr> = mk NULL c l r"
  using colw_reparent [of NULL c] colw_reparent [of p c]
  by (simp_all add: mk_def or.commute)

section \<open>The pointers spell a tree\<close>

fun rbrep :: "rb_node heap \<Rightarrow> ptr \<Rightarrow> rbt \<Rightarrow> bool" where
  "rbrep h par Leaf \<longleftrightarrow> True"
| "rbrep h par (Node l a c r) \<longleftrightarrow>
     h a = Some (mk par c (rootp l) (rootp r)) \<and> rbrep h a l \<and> rbrep h a r"

fun krep :: "rb_node heap \<Rightarrow> ptr \<Rightarrow> frame list \<Rightarrow> bool" where
  "krep h p [] \<longleftrightarrow> True"
| "krep h p (LF a c r # k) \<longleftrightarrow>
     h a = Some (mk (kptr k) c p (rootp r)) \<and> rbrep h a r \<and> krep h a k"
| "krep h p (RF l a c # k) \<longleftrightarrow>
     h a = Some (mk (kptr k) c (rootp l) p) \<and> rbrep h a l \<and> krep h a k"

definition good :: "ptr list \<Rightarrow> bool" where
  "good xs \<longleftrightarrow> distinct xs \<and> (\<forall>a\<in>set xs. a \<noteq> NULL \<and> aligned4 a)"

definition rep :: "rb_state \<Rightarrow> rbt \<Rightarrow> bool" where
  "rep s t \<longleftrightarrow>
     good (addrs t) \<and> rb_root_node s = rootp t \<and> rbrep (rb_nodes s) NULL t"

text \<open>\<open>repf h0 s t\<close> adds the frame: outside the tree the nodes are those of \<open>h0\<close>.\<close>

definition repf :: "rb_node heap \<Rightarrow> rb_state \<Rightarrow> rbt \<Rightarrow> bool" where
  "repf h0 s t \<longleftrightarrow> rep s t \<and> agree_on (- set (addrs t)) h0 (rb_nodes s)"

lemma repf_start: "rep s t \<Longrightarrow> repf (rb_nodes s) s t"
  by (simp add: repf_def)

lemma rbrep_plug: "rbrep h NULL (plug k t) \<longleftrightarrow> rbrep h (kptr k) t \<and> krep h (rootp t) k"
  by (induction k arbitrary: t rule: pre.induct) auto

lemma rbrep_upd [simp]: "a \<notin> set (addrs t) \<Longrightarrow> rbrep (h(a \<mapsto> v)) p t = rbrep h p t"
  by (induction t arbitrary: p) auto

lemma krep_upd [simp]:
  "a \<notin> set (pre k) \<Longrightarrow> a \<notin> set (post k) \<Longrightarrow> krep (h(a \<mapsto> v)) p k = krep h p k"
  by (induction k arbitrary: p rule: pre.induct) auto

lemma rootp_neq [simp]: "a \<notin> set (addrs t) \<Longrightarrow> a \<noteq> 0 \<Longrightarrow> rootp t \<noteq> a"
  by (cases t) auto

lemma rootp_neq' [simp]: "a \<notin> set (addrs t) \<Longrightarrow> a \<noteq> 0 \<Longrightarrow> a \<noteq> rootp t"
  by (cases t) auto

lemma rootp_plug: "k \<noteq> [] \<Longrightarrow> rootp (plug k t) = rootp (plug k t')"
  by (induction k arbitrary: t t' rule: pre.induct) (metis fill.simps plug.simps rootp.simps(2))+

lemma rootp_plug_same: "rootp t = rootp t' \<Longrightarrow> rootp (plug k t) = rootp (plug k t')"
  by (cases "k = []") (auto intro: rootp_plug)

lemma good_kptr: "good (pre k @ xs @ post k) \<Longrightarrow> aligned4 (kptr k)"
  by (cases k rule: pre.cases) (auto simp: good_def)

lemma good_kptr_NULL: "good (pre k @ xs @ post k) \<Longrightarrow> kptr k = NULL \<longleftrightarrow> k = []"
  by (cases k rule: pre.cases) (auto simp: good_def)

lemma good_aligned: "good xs \<Longrightarrow> a \<in> set xs \<Longrightarrow> a \<noteq> NULL \<and> aligned4 a"
  by (simp add: good_def)

text \<open>The representation, opened at a focus.\<close>

lemma rep_plug:
  "rep s (plug k t) \<longleftrightarrow>
     good (pre k @ addrs t @ post k) \<and> rb_root_node s = rootp (plug k t) \<and>
     rbrep (rb_nodes s) (kptr k) t \<and> krep (rb_nodes s) (rootp t) k"
  by (simp add: rep_def addrs_plug rbrep_plug)

lemma repf_plug:
  "repf h0 s (plug k t) \<longleftrightarrow>
     good (pre k @ addrs t @ post k) \<and> rb_root_node s = rootp (plug k t) \<and>
     rbrep (rb_nodes s) (kptr k) t \<and> krep (rb_nodes s) (rootp t) k \<and>
     agree_on (- set (pre k @ addrs t @ post k)) h0 (rb_nodes s)"
  by (simp add: repf_def rep_plug addrs_plug conj_assoc)

lemma rep_node:
  assumes "rep s (plug k (Node l a c r))"
  shows "get_node a s = Some (mk (kptr k) c (rootp l) (rootp r))" "a \<noteq> NULL" "aligned4 a"
    "aligned4 (kptr k)" "kptr k = NULL \<longleftrightarrow> k = []"
  using assms good_kptr [of k "addrs (Node l a c r)"] good_kptr_NULL [of k "addrs (Node l a c r)"]
  by (auto simp: rep_plug get_node_def good_def)

lemma rep_reads:
  assumes "rep s (plug k (Node l a c r))"
  shows "left_of a s = Some (rootp l)" "right_of a s = Some (rootp r)"
    "parent_of a s = Some (kptr k)" "color_of a s = Some (colw c)"
    "is_red a s = Some (c = Red)" "is_black a s = Some (c = Black)"
    "ptr_and_red a s = Some (c = Red)" "null_or_black a s = Some (c = Black)"
  using rep_node [OF assms]
  by (simp_all add: left_of_def right_of_def parent_of_def color_of_def is_red_def is_black_def
      ptr_and_red_def null_or_black_def)

lemma ptr_and_red_kptr:
  assumes "rep s (plug k t)"
  shows "ptr_and_red (kptr k) s = Some (kcol k = Red)"
proof (cases k)
  case Nil
  then show ?thesis by (simp add: ptr_and_red_def)
next
  case (Cons f k')
  show ?thesis
  proof (cases f)
    case (LF a c r)
    with assms Cons have "rep s (plug k' (Node t a c r))" by simp
    from rep_reads(7) [OF this] LF Cons show ?thesis by simp
  next
    case (RF l a c)
    with assms Cons have "rep s (plug k' (Node l a c t))" by simp
    from rep_reads(7) [OF this] RF Cons show ?thesis by simp
  qed
qed

lemma rep_rootp_reads:
  assumes "rep s (plug k t)"
  shows "ptr_and_red (rootp t) s = Some (rbcol t = Red)"
    "null_or_black (rootp t) s = Some (rbcol t = Black)"
proof -
  have "ptr_and_red (rootp t) s = Some (rbcol t = Red) \<and>
      null_or_black (rootp t) s = Some (rbcol t = Black)"
  proof (cases t)
    case Leaf
    then show ?thesis by (simp add: ptr_and_red_def null_or_black_def)
  next
    case (Node l a c r)
    with assms rep_reads [of s k l a c r] show ?thesis by simp
  qed
  then show "ptr_and_red (rootp t) s = Some (rbcol t = Red)"
    "null_or_black (rootp t) s = Some (rbcol t = Black)" by simp_all
qed

section \<open>Colour writes\<close>

lemma recolor_rep:
  assumes rep: "repf h0 s (plug k (Node l a c r))"
    and f: "f (mk (kptr k) c (rootp l) (rootp r)) = mk (kptr k) d (rootp l) (rootp r)"
  shows "\<exists>s'. set_node f a s = Some s' \<and> repf h0 s' (plug k (Node l a d r))"
proof -
  have "repf h0 (s\<lparr>rb_nodes := (rb_nodes s)(a \<mapsto> mk (kptr k) d (rootp l) (rootp r))\<rparr>)
      (plug k (Node l a d r))"
    using rep rootp_plug_same [of "Node l a c r" "Node l a d r" k]
    by (auto simp: repf_plug good_def agree_on_def)
  moreover have "set_node f a s =
      Some (s\<lparr>rb_nodes := (rb_nodes s)(a \<mapsto> mk (kptr k) d (rootp l) (rootp r))\<rparr>)"
    using rep f by (auto simp: repf_plug good_def set_node_def)
  ultimately show ?thesis by blast
qed

lemma repf_rep: "repf h0 s t \<Longrightarrow> rep s t"
  by (simp add: repf_def)

lemma repf_kptr: "repf h0 s (plug k t) \<Longrightarrow> aligned4 (kptr k)"
  by (auto simp: repf_plug intro: good_kptr)

lemma set_red_rep:
  "repf h0 s (plug k (Node l a c r)) \<Longrightarrow>
   \<exists>s'. rb_set_red a s = Some s' \<and> repf h0 s' (plug k (Node l a Red r))"
  unfolding rb_set_red_def by (rule recolor_rep) (auto dest!: repf_kptr)

lemma set_black_rep:
  "repf h0 s (plug k (Node l a c r)) \<Longrightarrow>
   \<exists>s'. rb_set_black a s = Some s' \<and> repf h0 s' (plug k (Node l a Black r))"
  unfolding rb_set_black_def by (rule recolor_rep) (auto dest!: repf_kptr)

lemma set_color_rep:
  "repf h0 s (plug k (Node l a c r)) \<Longrightarrow>
   \<exists>s'. rb_set_color a (colw d) s = Some s' \<and> repf h0 s' (plug k (Node l a d r))"
  unfolding rb_set_color_def by (rule recolor_rep) (auto dest!: repf_kptr)

text \<open>\<open>if (p) rb_set_black(p)\<close>: the tree at \<open>p\<close>, or nothing.\<close>

lemma paint_black_rep:
  assumes "repf h0 s (plug k t)"
  shows "\<exists>s'. (if rootp t \<noteq> NULL then rb_set_black (rootp t) s else Some s) = Some s' \<and>
    repf h0 s' (plug k (paint Black t))"
proof (cases t)
  case Leaf
  with assms show ?thesis by simp
next
  case (Node l a c r)
  with assms have "a \<noteq> NULL" by (auto simp: repf_plug good_def)
  with Node assms set_black_rep [of h0 s k l a c r] show ?thesis by simp
qed

section \<open>Rotations\<close>

lemmas rb_ops = get_node_def set_node_def left_of_def right_of_def parent_of_def color_of_def
  set_left_def set_right_def rb_set_parent_def

lemma rotate_left_rep:
  assumes rep: "repf h0 s (plug k (Node A x c (Node B y d C)))"
  shows "\<exists>s'. rb_rotate_left x s = Some s' \<and>
    repf h0 s' (plug k (Node (Node A x c B) y d C))"
proof (cases k)
  case Nil
  with rep show ?thesis
    by (cases B) (auto simp: repf_def rep_def rb_rotate_left_def rb_ops good_def agree_on_def)
next
  case (Cons f k')
  have root: "rootp (plug k (Node A x c (Node B y d C))) =
      rootp (plug k (Node (Node A x c B) y d C))"
    by (rule rootp_plug) (simp add: Cons)
  have al: "aligned4 (kptr k')"
    using rep Cons by (auto dest: repf_kptr [of h0 s "k'"])
  show ?thesis
  proof (cases f)
    case (LF p e u)
    with rep Cons root al show ?thesis
      by (cases B) (auto simp: repf_plug rb_rotate_left_def rb_ops good_def agree_on_def)
  next
    case (RF u p e)
    with rep Cons root al show ?thesis
      by (cases B) (auto simp: repf_plug rb_rotate_left_def rb_ops good_def agree_on_def)
  qed
qed

lemma rotate_right_rep:
  assumes rep: "repf h0 s (plug k (Node (Node A y d B) x c C))"
  shows "\<exists>s'. rb_rotate_right x s = Some s' \<and>
    repf h0 s' (plug k (Node A y d (Node B x c C)))"
proof (cases k)
  case Nil
  with rep show ?thesis
    by (cases B) (auto simp: repf_def rep_def rb_rotate_right_def rb_ops good_def agree_on_def)
next
  case (Cons f k')
  have root: "rootp (plug k (Node (Node A y d B) x c C)) =
      rootp (plug k (Node A y d (Node B x c C)))"
    by (rule rootp_plug) (simp add: Cons)
  have al: "aligned4 (kptr k')"
    using rep Cons by (auto dest: repf_kptr [of h0 s "k'"])
  show ?thesis
  proof (cases f)
    case (LF p e u)
    with rep Cons root al show ?thesis
      by (cases B) (auto simp: repf_plug rb_rotate_right_def rb_ops good_def agree_on_def)
  next
    case (RF u p e)
    with rep Cons root al show ?thesis
      by (cases B) (auto simp: repf_plug rb_rotate_right_def rb_ops good_def agree_on_def)
  qed
qed

end
