(* ===== verification/Rb_Insert.thy ===== *)
theory Rb_Insert
  imports Rb_Rep
begin

text \<open>
  The red-black invariants on trees and zippers, and the proof that \<open>rb_insert_color\<close>
  restores them after a red leaf has been linked: one lemma per branch of the loop, each a
  short chain of the primitives of \<open>Rb_Rep\<close>, then the loop rule.
\<close>

section \<open>Balance\<close>

text \<open>
  \<open>bal t n\<close>: no red node has a red child and every path from the root of \<open>t\<close> to a leaf
  has \<open>n\<close> black nodes. \<open>kbal k n\<close>: the zipper is fit for a hole of black height \<open>n\<close>.
\<close>

fun bh :: "rbt \<Rightarrow> nat" where
  "bh Leaf = 0"
| "bh (Node l a c r) = (if c = Black then Suc (bh l) else bh l)"

fun bal :: "rbt \<Rightarrow> nat \<Rightarrow> bool" where
  "bal Leaf n \<longleftrightarrow> n = 0"
| "bal (Node l a Red r) n \<longleftrightarrow> rbcol l = Black \<and> rbcol r = Black \<and> bal l n \<and> bal r n"
| "bal (Node l a Black r) n \<longleftrightarrow> n \<noteq> 0 \<and> bal l (n - 1) \<and> bal r (n - 1)"

definition rbt_ok :: "rbt \<Rightarrow> bool" where
  "rbt_ok t \<longleftrightarrow> rbcol t = Black \<and> bal t (bh t)"

fun kbal :: "frame list \<Rightarrow> nat \<Rightarrow> bool" where
  "kbal [] n \<longleftrightarrow> True"
| "kbal (LF a Black r # k) n \<longleftrightarrow> bal r n \<and> kbal k (Suc n)"
| "kbal (RF l a Black # k) n \<longleftrightarrow> bal l n \<and> kbal k (Suc n)"
| "kbal (LF a Red r # k) n \<longleftrightarrow>
     bal r n \<and> rbcol r = Black \<and> kcol k = Black \<and> k \<noteq> [] \<and> kbal k n"
| "kbal (RF l a Red # k) n \<longleftrightarrow>
     bal l n \<and> rbcol l = Black \<and> kcol k = Black \<and> k \<noteq> [] \<and> kbal k n"

lemma bal_bh: "bal t n \<Longrightarrow> n = bh t"
  by (induction t n rule: bal.induct) auto

lemma bal_Suc [simp]: "bal (Node l a Black r) (Suc n) \<longleftrightarrow> bal l n \<and> bal r n"
  by simp

lemma rbt_okI: "rbcol t = Black \<Longrightarrow> bal t n \<Longrightarrow> rbt_ok t"
  using bal_bh by (auto simp: rbt_ok_def)

lemma neq_color [simp]: "c \<noteq> Red \<longleftrightarrow> c = Black" "c \<noteq> Black \<longleftrightarrow> c = Red"
  by (cases c; simp)+

lemma rbcol_Red: "rbcol t = Red \<Longrightarrow> \<exists>l a r. t = Node l a Red r"
  by (cases t) auto

lemma paint_bal: "bal t n \<Longrightarrow> \<exists>m. bal (paint Black t) m"
proof (cases t)
  case (Node l a c r)
  assume "bal t n"
  with Node have "bal (paint Black t) (if c = Red then Suc n else n)"
    by (cases c) auto
  then show ?thesis ..
qed auto

lemma bal_plugI:
  "bal t n \<Longrightarrow> kbal k n \<Longrightarrow> (kcol k = Red \<Longrightarrow> rbcol t = Black) \<Longrightarrow> \<exists>m. bal (plug k t) m"
proof (induction k n arbitrary: t rule: kbal.induct)
  case (2 a r k n)
  from "2.prems" have "bal (Node t a Black r) (Suc n)" by simp
  with "2.IH" [of "Node t a Black r"] "2.prems" show ?case by simp
next
  case (3 l a k n)
  from "3.prems" have "bal (Node l a Black t) (Suc n)" by simp
  with "3.IH" [of "Node l a Black t"] "3.prems" show ?case by simp
next
  case (4 a r k n)
  with "4.IH" [of "Node t a Red r"] show ?case by simp
next
  case (5 l a k n)
  with "5.IH" [of "Node l a Red t"] show ?case by simp
qed auto

lemma bal_plugD:
  "bal (plug k t) m \<Longrightarrow> rbcol (plug k t) = Black \<Longrightarrow>
   \<exists>n. bal t n \<and> kbal k n \<and> (kcol k = Red \<longrightarrow> rbcol t = Black)"
proof (induction k arbitrary: t)
  case (Cons f k)
  then obtain n where n: "bal (fill f t) n" "kbal k n"
      "kcol k = Red \<longrightarrow> rbcol (fill f t) = Black"
    by fastforce
  have root: "k = [] \<Longrightarrow> rbcol (fill f t) = Black"
    using Cons.prems by simp
  show ?case
  proof (cases f)
    case (LF a c r)
    with n root show ?thesis
      by (cases c; cases n) (auto intro: exI [of _ n])
  next
    case (RF l a c)
    with n root show ?thesis
      by (cases c; cases n) (auto intro: exI [of _ n])
  qed
qed auto

section \<open>The branches of \<open>rb_insert_color\<close>\<close>

fun fpaint :: "rcolor \<Rightarrow> frame \<Rightarrow> frame" where
  "fpaint c (LF a _ r) = LF a c r"
| "fpaint c (RF l a _) = RF l a c"

lemma fill_Node: "\<exists>a b. \<forall>c. fill (fpaint c f) t = Node a (fptr f) c b"
  by (cases f) auto

lemma fpaint_fcol [simp]: "fpaint (fcol f) f = f"
  by (cases f) auto

lemma fptr_fpaint [simp]: "fptr (fpaint c f) = fptr f"
  by (cases f) auto

lemma addrs_fpaint [simp]: "addrs (fill (fpaint c f) t) = addrs (fill f t)"
  by (cases f) auto

text \<open>The loop stops at a node whose parent is black or missing.\<close>

lemma insert_stop:
  assumes rep: "rep s (plug k (Node l x Red r))" and k: "kcol k = Black"
  shows "insert_round (x, s) = Some (Inr s)"
  using rep_reads(3) [OF rep] ptr_and_red_kptr [OF rep] k
  by (simp add: insert_round_def)

lemma insert_uncle_red_L:
  assumes f: "fcol f = Red"
    and rep: "repf h0 s (plug (f # LF g Black (Node ul u Red ur) # k) (Node l x Red r))"
  shows "\<exists>s'. insert_round (x, s) = Some (Inl (g, s')) \<and> repf h0 s'
    (plug k (Node (fill (fpaint Black f) (Node l x Red r)) g Red (Node ul u Black ur)))"
proof -
  let ?t = "Node l x Red r"
  obtain a b where ab: "\<And>c. fill (fpaint c f) ?t = Node a (fptr f) c b"
    using fill_Node by blast
  have T: "fill f ?t = Node a (fptr f) Red b"
    using ab [of Red] fpaint_fcol [of f] f by simp
  have r0: "rep s (plug (f # LF g Black (Node ul u Red ur) # k) ?t)"
    using rep by (rule repf_rep)
  note reads = rep_reads [OF r0] rep_reads [of s "LF g Black (Node ul u Red ur) # k" a "fptr f" Red b]
    rep_reads [of s k "fill f ?t" g Black "Node ul u Red ur"]
    rep_reads [of s "RF (fill f ?t) g Black # k" ul u Red ur]
  obtain s1 where s1: "rb_set_black u s = Some s1"
      "repf h0 s1 (plug k (Node (fill f ?t) g Black (Node ul u Black ur)))"
    using set_black_rep [of h0 s "RF (fill f ?t) g Black # k" ul u Red ur] rep by auto
  obtain s2 where s2: "rb_set_black (fptr f) s1 = Some s2"
      "repf h0 s2 (plug k (Node (Node a (fptr f) Black b) g Black (Node ul u Black ur)))"
    using set_black_rep [of h0 s1 "LF g Black (Node ul u Black ur) # k" a "fptr f" Red b] s1 T
    by auto
  obtain s3 where s3: "rb_set_red g s2 = Some s3"
      "repf h0 s3 (plug k (Node (Node a (fptr f) Black b) g Red (Node ul u Black ur)))"
    using set_red_rep [OF s2(2)] by auto
  show ?thesis
    using reads r0 T s1(1) s2(1) s3 ab [of Black] by (simp add: insert_round_def)
qed

lemma insert_uncle_red_R:
  assumes f: "fcol f = Red"
    and rep: "repf h0 s (plug (f # RF (Node ul u Red ur) g Black # k) (Node l x Red r))"
  shows "\<exists>s'. insert_round (x, s) = Some (Inl (g, s')) \<and> repf h0 s'
    (plug k (Node (Node ul u Black ur) g Red (fill (fpaint Black f) (Node l x Red r))))"
proof -
  let ?t = "Node l x Red r"
  obtain a b where ab: "\<And>c. fill (fpaint c f) ?t = Node a (fptr f) c b"
    using fill_Node by blast
  have T: "fill f ?t = Node a (fptr f) Red b"
    using ab [of Red] fpaint_fcol [of f] f by simp
  have r0: "rep s (plug (f # RF (Node ul u Red ur) g Black # k) ?t)"
    using rep by (rule repf_rep)
  have "fptr f \<noteq> u"
    using r0 T by (auto simp: rep_def good_def addrs_plug)
  note reads = this rep_reads [OF r0]
    rep_reads [of s "RF (Node ul u Red ur) g Black # k" a "fptr f" Red b]
    rep_reads [of s k "Node ul u Red ur" g Black "fill f ?t"]
    rep_reads [of s "LF g Black (fill f ?t) # k" ul u Red ur]
  obtain s1 where s1: "rb_set_black u s = Some s1"
      "repf h0 s1 (plug k (Node (Node ul u Black ur) g Black (fill f ?t)))"
    using set_black_rep [of h0 s "LF g Black (fill f ?t) # k" ul u Red ur] rep by auto
  obtain s2 where s2: "rb_set_black (fptr f) s1 = Some s2"
      "repf h0 s2 (plug k (Node (Node ul u Black ur) g Black (Node a (fptr f) Black b)))"
    using set_black_rep [of h0 s1 "RF (Node ul u Black ur) g Black # k" a "fptr f" Red b] s1 T
    by auto
  obtain s3 where s3: "rb_set_red g s2 = Some s3"
      "repf h0 s3 (plug k (Node (Node ul u Black ur) g Red (Node a (fptr f) Black b)))"
    using set_red_rep [OF s2(2)] by auto
  show ?thesis
    using reads r0 T s1(1) s2(1) s3 ab [of Black] by (simp add: insert_round_def)
qed

text \<open>The uncle is black: the node is an outer grandchild (one rotation).\<close>

lemma insert_outer_tail_L:
  assumes rep: "repf h0 s (plug k (Node (Node X p Red B) g Black U))"
  shows "\<exists>s1 s2 s3. rb_set_black p s = Some s1 \<and> rb_set_red g s1 = Some s2 \<and>
    rb_rotate_right g s2 = Some s3 \<and> repf h0 s3 (plug k (Node X p Black (Node B g Red U)))"
proof -
  obtain s1 where s1: "rb_set_black p s = Some s1"
      "repf h0 s1 (plug k (Node (Node X p Black B) g Black U))"
    using set_black_rep [of h0 s "LF g Black U # k" X p Red B] rep by auto
  obtain s2 where s2: "rb_set_red g s1 = Some s2"
      "repf h0 s2 (plug k (Node (Node X p Black B) g Red U))"
    using set_red_rep [OF s1(2)] by auto
  show ?thesis
    using s1(1) s2(1) rotate_right_rep [OF s2(2)] by auto
qed

lemma insert_outer_tail_R:
  assumes rep: "repf h0 s (plug k (Node U g Black (Node B p Red X)))"
  shows "\<exists>s1 s2 s3. rb_set_black p s = Some s1 \<and> rb_set_red g s1 = Some s2 \<and>
    rb_rotate_left g s2 = Some s3 \<and> repf h0 s3 (plug k (Node (Node U g Red B) p Black X))"
proof -
  obtain s1 where s1: "rb_set_black p s = Some s1"
      "repf h0 s1 (plug k (Node U g Black (Node B p Black X)))"
    using set_black_rep [of h0 s "RF U g Black # k" B p Red X] rep by auto
  obtain s2 where s2: "rb_set_red g s1 = Some s2"
      "repf h0 s2 (plug k (Node U g Red (Node B p Black X)))"
    using set_red_rep [OF s1(2)] by auto
  show ?thesis
    using s1(1) s2(1) rotate_left_rep [OF s2(2)] by auto
qed

lemma insert_outer_L:
  assumes U: "rbcol U = Black"
    and rep: "repf h0 s (plug (LF p Red B # LF g Black U # k) (Node l x Red r))"
  shows "\<exists>s'. insert_round (x, s) = Some (Inl (x, s')) \<and>
    repf h0 s' (plug (LF p Black (Node B g Red U) # k) (Node l x Red r))"
proof -
  let ?x = "Node l x Red r"
  have r0: "rep s (plug (LF p Red B # LF g Black U # k) ?x)"
    using rep by (rule repf_rep)
  have "rootp B \<noteq> x"
    using r0 by (auto simp: rep_def good_def addrs_plug)
  note reads = this rep_reads [OF r0]
    rep_reads [of s "LF g Black U # k" ?x p Red B] rep_reads [of s k "Node ?x p Red B" g Black U]
    rep_rootp_reads [of s "RF (Node ?x p Red B) g Black # k" U]
  show ?thesis
    using reads r0 U insert_outer_tail_L [of h0 s k ?x p B g U] rep
    by (auto simp: insert_round_def)
qed

lemma insert_outer_R:
  assumes U: "rbcol U = Black"
    and rep: "repf h0 s (plug (RF B p Red # RF U g Black # k) (Node l x Red r))"
  shows "\<exists>s'. insert_round (x, s) = Some (Inl (x, s')) \<and>
    repf h0 s' (plug (RF (Node U g Red B) p Black # k) (Node l x Red r))"
proof -
  let ?x = "Node l x Red r"
  have r0: "rep s (plug (RF B p Red # RF U g Black # k) ?x)"
    using rep by (rule repf_rep)
  have "rootp B \<noteq> x" "rootp U \<noteq> p"
    using r0 by (auto simp: rep_def good_def addrs_plug)
  note reads = this rep_reads [OF r0]
    rep_reads [of s "RF U g Black # k" B p Red ?x] rep_reads [of s k U g Black "Node B p Red ?x"]
    rep_rootp_reads [of s "LF g Black (Node B p Red ?x) # k" U]
  show ?thesis
    using reads r0 U insert_outer_tail_R [of h0 s k U g B p ?x] rep
    by (auto simp: insert_round_def)
qed

text \<open>The node is an inner grandchild: a rotation at the parent makes it an outer one.\<close>

lemma insert_inner_L:
  assumes U: "rbcol U = Black"
    and rep: "repf h0 s (plug (RF B p Red # LF g Black U # k) (Node l x Red r))"
  shows "\<exists>s'. insert_round (x, s) = Some (Inl (p, s')) \<and>
    repf h0 s' (plug (LF x Black (Node r g Red U) # k) (Node B p Red l))"
proof -
  let ?x = "Node l x Red r"
  have r0: "rep s (plug (RF B p Red # LF g Black U # k) ?x)"
    using rep by (rule repf_rep)
  note reads = rep_reads [OF r0]
    rep_reads [of s "LF g Black U # k" B p Red ?x] rep_reads [of s k "Node B p Red ?x" g Black U]
    rep_rootp_reads [of s "RF (Node B p Red ?x) g Black # k" U]
  obtain s0 where s0: "rb_rotate_left p s = Some s0"
      "repf h0 s0 (plug k (Node (Node (Node B p Red l) x Red r) g Black U))"
    using rotate_left_rep [of h0 s "LF g Black U # k" B p Red l x Red r] rep by auto
  show ?thesis
    using reads r0 U s0(1) insert_outer_tail_L [OF s0(2)]
    by (auto simp: insert_round_def)
qed

lemma insert_inner_R:
  assumes U: "rbcol U = Black"
    and rep: "repf h0 s (plug (LF p Red B # RF U g Black # k) (Node l x Red r))"
  shows "\<exists>s'. insert_round (x, s) = Some (Inl (p, s')) \<and>
    repf h0 s' (plug (RF (Node U g Red l) x Black # k) (Node r p Red B))"
proof -
  let ?x = "Node l x Red r"
  have r0: "rep s (plug (LF p Red B # RF U g Black # k) ?x)"
    using rep by (rule repf_rep)
  have "rootp U \<noteq> p"
    using r0 by (auto simp: rep_def good_def addrs_plug)
  note reads = this rep_reads [OF r0]
    rep_reads [of s "RF U g Black # k" ?x p Red B] rep_reads [of s k U g Black "Node ?x p Red B"]
    rep_rootp_reads [of s "LF g Black (Node ?x p Red B) # k" U]
  obtain s0 where s0: "rb_rotate_right p s = Some s0"
      "repf h0 s0 (plug k (Node U g Black (Node l x Red (Node r p Red B))))"
    using rotate_right_rep [of h0 s "RF U g Black # k" l x Red r p Red B] rep by auto
  show ?thesis
    using reads r0 U s0(1) insert_outer_tail_R [OF s0(2)]
    by (auto simp: insert_round_def)
qed

section \<open>The loop\<close>

text \<open>
  The invariant: the pointers spell a tree with the addresses \<open>xs\<close> in order whose only
  possible defect is a red parent above the red node \<open>x\<close>.
\<close>

definition ins_inv ::
  "rb_node heap \<Rightarrow> ptr list \<Rightarrow> ptr \<times> rb_state \<Rightarrow> nat \<Rightarrow> bool" where
  "ins_inv h0 xs = (\<lambda>(x, s) m. \<exists>k l r n. m = length k \<and>
     repf h0 s (plug k (Node l x Red r)) \<and> pre k @ addrs (Node l x Red r) @ post k = xs \<and>
     bal (Node l x Red r) n \<and> kbal k n)"

lemma ins_invI:
  "repf h0 s (plug k (Node l x Red r)) \<Longrightarrow> addrs (plug k (Node l x Red r)) = xs \<Longrightarrow>
   bal (Node l x Red r) n \<Longrightarrow> kbal k n \<Longrightarrow> m = length k \<Longrightarrow> ins_inv h0 xs (x, s) m"
  by (auto simp: ins_inv_def addrs_plug)

definition ins_done :: "rb_node heap \<Rightarrow> ptr list \<Rightarrow> rb_state \<Rightarrow> bool" where
  "ins_done h0 xs s \<longleftrightarrow> (\<exists>t m. repf h0 s t \<and> addrs t = xs \<and> bal t m)"

lemma insert_red_parent_L:
  assumes rep: "repf h0 s (plug (f # LF g Black U # k) (Node l x Red r))"
    and xs: "addrs (plug (f # LF g Black U # k) (Node l x Red r)) = xs"
    and t: "bal (Node l x Red r) n" and k: "kbal (f # LF g Black U # k) n" and f: "fcol f = Red"
  shows "\<exists>y m. insert_round (x, s) = Some (Inl y) \<and> ins_inv h0 xs y m \<and> m < Suc (Suc (length k))"
proof (cases "rbcol U = Red")
  case True
  then obtain ul u ur where U: "U = Node ul u Red ur" by (auto dest: rbcol_Red)
  let ?t = "Node (fill (fpaint Black f) (Node l x Red r)) g Red (Node ul u Black ur)"
  have "addrs (plug k ?t) = xs" "bal ?t (Suc n)" "kbal k (Suc n)"
    using xs t k f U by (cases f; auto simp: addrs_plug)+
  with insert_uncle_red_L [of f h0 s g ul u ur k l x r] f rep U show ?thesis
    by (auto intro!: exI [of _ "length k"] ins_invI [where k = k and n = "Suc n"]
        simp del: bal.simps addrs.simps)
next
  case False
  then have U: "rbcol U = Black" by simp
  show ?thesis
  proof (cases f)
    case f': (LF p d B)
    have "kbal (LF p Black (Node B g Red U) # k) n"
      using k f U f' by auto
    with insert_outer_L [of U h0 s p B g k l x r] U rep f f' t xs show ?thesis
      by (auto intro!: exI [of _ "Suc (length k)"]
          ins_invI [where k = "LF p Black (Node B g Red U) # k" and n = n] simp: addrs_plug)
  next
    case f': (RF B p d)
    have "kbal (LF x Black (Node r g Red U) # k) n" "bal (Node B p Red l) n"
      using k f U f' t by auto
    with insert_inner_L [of U h0 s B p g k l x r] U rep f f' xs show ?thesis
      by (auto intro!: exI [of _ "Suc (length k)"]
          ins_invI [where k = "LF x Black (Node r g Red U) # k" and n = n] simp: addrs_plug)
  qed
qed

lemma insert_red_parent_R:
  assumes rep: "repf h0 s (plug (f # RF U g Black # k) (Node l x Red r))"
    and xs: "addrs (plug (f # RF U g Black # k) (Node l x Red r)) = xs"
    and t: "bal (Node l x Red r) n" and k: "kbal (f # RF U g Black # k) n" and f: "fcol f = Red"
  shows "\<exists>y m. insert_round (x, s) = Some (Inl y) \<and> ins_inv h0 xs y m \<and> m < Suc (Suc (length k))"
proof (cases "rbcol U = Red")
  case True
  then obtain ul u ur where U: "U = Node ul u Red ur" by (auto dest: rbcol_Red)
  let ?t = "Node (Node ul u Black ur) g Red (fill (fpaint Black f) (Node l x Red r))"
  have "addrs (plug k ?t) = xs" "bal ?t (Suc n)" "kbal k (Suc n)"
    using xs t k f U by (cases f; auto simp: addrs_plug)+
  with insert_uncle_red_R [of f h0 s ul u ur g k l x r] f rep U show ?thesis
    by (auto intro!: exI [of _ "length k"] ins_invI [where k = k and n = "Suc n"]
        simp del: bal.simps addrs.simps)
next
  case False
  then have U: "rbcol U = Black" by simp
  show ?thesis
  proof (cases f)
    case f': (RF B p d)
    have "kbal (RF (Node U g Red B) p Black # k) n"
      using k f U f' by auto
    with insert_outer_R [of U h0 s B p g k l x r] U rep f f' t xs show ?thesis
      by (auto intro!: exI [of _ "Suc (length k)"]
          ins_invI [where k = "RF (Node U g Red B) p Black # k" and n = n] simp: addrs_plug)
  next
    case f': (LF p d B)
    have "kbal (RF (Node U g Red l) x Black # k) n" "bal (Node r p Red B) n"
      using k f U f' t by auto
    with insert_inner_R [of U h0 s p B g k l x r] U rep f f' xs show ?thesis
      by (auto intro!: exI [of _ "Suc (length k)"]
          ins_invI [where k = "RF (Node U g Red l) x Black # k" and n = n] simp: addrs_plug)
  qed
qed

lemma insert_loop_total:
  assumes "ins_inv h0 xs (x, s) m"
  shows "\<exists>s'. loop insert_round (x, s) = Some s' \<and> ins_done h0 xs s'"
proof (rule loop_ranked [where I = "ins_inv h0 xs", OF assms])
  fix y m
  assume inv: "ins_inv h0 xs y m"
  obtain x s where y: "y = (x, s)" by (cases y)
  from inv y obtain k l r n where rep: "repf h0 s (plug k (Node l x Red r))"
    and xs: "addrs (plug k (Node l x Red r)) = xs"
    and b: "bal (Node l x Red r) n" "kbal k n" and m: "m = length k"
    by (auto simp: ins_inv_def addrs_plug)
  show "(\<exists>x' m'. insert_round y = Some (Inl x') \<and> ins_inv h0 xs x' m' \<and> m' < m) \<or>
    (\<exists>s'. insert_round y = Some (Inr s') \<and> ins_done h0 xs s')"
  proof (cases "kcol k = Red")
    case True
    then obtain f k1 where k1: "k = f # k1" "fcol f = Red" by (cases k) auto
    with b(2) have "k1 \<noteq> []" "kcol k1 = Black" by (cases f; auto)+
    then obtain F k2 where F: "k1 = F # k2" "fcol F = Black" by (cases k1) auto
    show ?thesis
    proof (cases F)
      case (LF g c U)
      with insert_red_parent_L [of h0 s f g U k2 l x r xs n] rep xs b k1 F m y
      show ?thesis by auto
    next
      case (RF U g c)
      with insert_red_parent_R [of h0 s f U g k2 l x r xs n] rep xs b k1 F m y
      show ?thesis by auto
    qed
  next
    case False
    with insert_stop [OF repf_rep [OF rep]] rep xs b y bal_plugI [OF b] show ?thesis
      by (auto simp: ins_done_def)
  qed
qed

text \<open>The red leaf that \<open>rb_link_node\<close> left, rebalanced.\<close>

lemma insert_color_rep:
  assumes rep: "rep s (plug k (Node Leaf x Red Leaf))"
    and ok: "rbt_ok (plug k Leaf)"
  shows "\<exists>s' t. rb_insert_color x s = Some s' \<and> repf (rb_nodes s) s' t \<and>
    addrs t = pre k @ x # post k \<and> rbt_ok t"
proof -
  have "kbal k 0"
    using ok bal_plugD [of k Leaf] by (auto simp: rbt_ok_def)
  then have "ins_inv (rb_nodes s) (pre k @ x # post k) (x, s) (length k)"
    using rep by (auto intro!: ins_invI [where n = 0 and k = k] repf_start simp: addrs_plug)
  then obtain s1 t m where s1: "loop insert_round (x, s) = Some s1"
      "repf (rb_nodes s) s1 t" "addrs t = pre k @ x # post k" "bal t m"
    using insert_loop_total by (fastforce simp: ins_done_def)
  then obtain l a c r where t: "t = Node l a c r" by (cases t) auto
  obtain s2 where "rb_set_black a s1 = Some s2" "repf (rb_nodes s) s2 (Node l a Black r)"
    using set_black_rep [of "rb_nodes s" s1 "[]" l a c r] s1 t by auto
  moreover have "rb_root_node s1 = a"
    using s1(2) t by (auto simp: repf_def rep_def)
  moreover have "rbt_ok (Node l a Black r)"
    using paint_bal [OF s1(4)] t by (auto intro: rbt_okI)
  ultimately show ?thesis
    using s1 t by (auto simp: rb_insert_color_def)
qed

end
