(* ===== verification/Rb_Erase.thy ===== *)
theory Rb_Erase
  imports Rb_Insert
begin

text \<open>
  \<open>rb_erase\<close>: the node is unlinked (directly, or by moving its successor into its place),
  and \<open>__rb_erase_color\<close> repairs the black height along the path to the root.
\<close>

section \<open>The branches of \<open>__rb_erase_color\<close>\<close>

text \<open>
  \<open>short t n\<close>: the tree at the focus lacks one black node; its root may be red with any
  children, since the loop then ends by painting it black.
\<close>

definition short :: "rbt \<Rightarrow> nat \<Rightarrow> bool" where
  "short t n \<longleftrightarrow> (if rbcol t = Red then bal (paint Black t) (Suc n) else bal t n)"

lemma short_paint: "short t n \<Longrightarrow> rbcol t = Red \<Longrightarrow> bal (paint Black t) (Suc n)"
  by (simp add: short_def)

lemma kbal_root_black: "kbal k n \<Longrightarrow> k \<noteq> [] \<Longrightarrow> rbcol (plug k t) = Black"
proof (induction k n arbitrary: t rule: kbal.induct)
  case (2 a r k n)
  then show ?case by (cases "k = []") auto
next
  case (3 l a k n)
  then show ?case by (cases "k = []") auto
qed auto

lemma bal_SucE:
  assumes "bal t (Suc n)" "rbcol t = Black"
  obtains l a r where "t = Node l a Black r" "bal l n" "bal r n"
  using assms by (cases t) auto

lemma children_black_rep:
  assumes "rep s (plug k (Node l a c r))"
  shows "children_black a s = Some (rbcol l = Black \<and> rbcol r = Black)"
  using rep_reads [OF assms] rep_rootp_reads [of s "LF a c r # k" l]
    rep_rootp_reads [of s "RF l a c # k" r] assms
  by (auto simp: children_black_def)

lemma red_sibling_left_rep:
  assumes rep: "repf h0 s (plug (LF p c S # k) t)" and S: "bal S (Suc n)"
    and k: "kbal (LF p c S # k) (Suc n)"
  shows "\<exists>s' c' ol w od k'. red_sibling_left p (rootp S) s = Some (w, s') \<and>
    repf h0 s' (plug (LF p c' (Node ol w Black od) # k') t) \<and>
    addrs (plug (LF p c' (Node ol w Black od) # k') t) = addrs (plug (LF p c S # k) t) \<and>
    bal ol n \<and> bal od n \<and> kbal (LF p c' (Node ol w Black od) # k') (Suc n) \<and>
    (k' = k \<or> c' = Red \<and> length k' = Suc (length k))"
proof (cases "rbcol S = Red")
  case False
  then have "rbcol S = Black" by simp
  with S obtain ol w od where S': "S = Node ol w Black od" "bal ol n" "bal od n"
    by (rule bal_SucE)
  have "is_red w s = Some False"
    using rep_reads(5) [of s "RF t p c # k" ol w Black od] repf_rep [OF rep] S' by simp
  with S' have "red_sibling_left p (rootp S) s = Some (w, s)"
    by (simp add: red_sibling_left_def)
  with S' rep k show ?thesis by blast
next
  case True
  then obtain sl w sr where S': "S = Node sl w Red sr" by (auto dest: rbcol_Red)
  with S k have c: "c = Black" and sr: "bal sr (Suc n)" and sl: "bal sl (Suc n)" "rbcol sl = Black"
    by (cases c; auto)+
  obtain ol v od where sl': "sl = Node ol v Black od" "bal ol n" "bal od n"
    using sl by (rule bal_SucE)
  obtain s1 where s1: "rb_set_black w s = Some s1"
      "repf h0 s1 (plug k (Node t p c (Node sl w Black sr)))"
    using set_black_rep [of h0 s "RF t p c # k" sl w Red sr] rep S' by auto
  obtain s2 where s2: "rb_set_red p s1 = Some s2"
      "repf h0 s2 (plug k (Node t p Red (Node sl w Black sr)))"
    using set_red_rep [OF s1(2)] by auto
  obtain s3 where s3: "rb_rotate_left p s2 = Some s3"
      "repf h0 s3 (plug k (Node (Node t p Red sl) w Black sr))"
    using rotate_left_rep [OF s2(2)] by auto
  have "is_red w s = Some True"
    using rep_reads(5) [of s "RF t p c # k" sl w Red sr] repf_rep [OF rep] S' by simp
  moreover have "right_of p s3 = Some v"
    using rep_reads(2) [of s3 "LF w Black sr # k" t p Red sl] repf_rep [OF s3(2)] sl' by simp
  ultimately have "red_sibling_left p (rootp S) s = Some (v, s3)"
    using s1(1) s2(1) s3(1) S' by (simp add: red_sibling_left_def)
  moreover have "repf h0 s3 (plug (LF p Red (Node ol v Black od) # LF w Black sr # k) t)"
    using s3(2) sl' by simp
  moreover have "kbal (LF p Red (Node ol v Black od) # LF w Black sr # k) (Suc n)"
    using k S' c sl' sr by simp
  ultimately show ?thesis
    using sl' S' c by (intro exI conjI) (assumption | simp add: addrs_plug)+
qed

lemma recolor_inner_left:
  assumes rep: "repf h0 s (plug (LF p c (Node ol w Black od) # k) t)"
    and red: "rbcol ol = Red \<or> rbcol od = Red"
    and b: "bal ol n" "bal od n"
  shows "\<exists>s3 od' ol' w'.
    (if rbcol od = Black then do {
       o_left \<leftarrow> left_of w s;
       s \<leftarrow> (if o_left \<noteq> NULL then rb_set_black o_left s else Some s);
       s \<leftarrow> rb_set_red w s;
       s \<leftarrow> rb_rotate_right w s;
       other \<leftarrow> right_of p s;
       Some (other, s) } else Some (w, s)) = Some (w', s3) \<and>
    repf h0 s3 (plug (LF p c (Node ol' w' Black od') # k) t) \<and> rbcol od' = Red \<and>
    bal ol' n \<and> bal od' n \<and> addrs ol' @ w' # addrs od' = addrs ol @ w # addrs od"
proof (cases "rbcol od = Black")
  case False
  then show ?thesis using rep b by auto
next
  case True
  with red obtain a v b' where ol: "ol = Node a v Red b'" by (auto dest: rbcol_Red)
  have r0: "rep s (plug (RF t p c # k) (Node ol w Black od))"
    using repf_rep [OF rep] by simp
  obtain s1 where s1: "rb_set_black v s = Some s1"
      "repf h0 s1 (plug (RF t p c # k) (Node (Node a v Black b') w Black od))"
    using set_black_rep [of h0 s "LF w Black od # RF t p c # k" a v Red b'] rep ol by auto
  obtain s2 where s2: "rb_set_red w s1 = Some s2"
      "repf h0 s2 (plug (RF t p c # k) (Node (Node a v Black b') w Red od))"
    using set_red_rep [OF s1(2)] by auto
  obtain s3 where s3: "rb_rotate_right w s2 = Some s3"
      "repf h0 s3 (plug (RF t p c # k) (Node a v Black (Node b' w Red od)))"
    using rotate_right_rep [OF s2(2)] by auto
  have "left_of w s = Some v" "v \<noteq> NULL"
    using rep_reads(1) [OF r0] ol r0 by (auto simp: rep_plug good_def)
  moreover have "right_of p s3 = Some v"
    using rep_reads(2) [of s3 k t p c "Node a v Black (Node b' w Red od)"] repf_rep [OF s3(2)]
    by simp
  ultimately have "(if rbcol od = Black then do {
       o_left \<leftarrow> left_of w s;
       s \<leftarrow> (if o_left \<noteq> NULL then rb_set_black o_left s else Some s);
       s \<leftarrow> rb_set_red w s;
       s \<leftarrow> rb_rotate_right w s;
       other \<leftarrow> right_of p s;
       Some (other, s) } else Some (w, s)) = Some (v, s3)"
    using True s1(1) s2(1) s3(1) by simp
  moreover have "repf h0 s3 (plug (LF p c (Node a v Black (Node b' w Red od)) # k) t)"
    using s3(2) by simp
  ultimately show ?thesis
    using True b ol by (intro exI conjI) (assumption | simp)+
qed

lemma restore_left_rep:
  assumes rep: "repf h0 s (plug (LF p c (Node ol w Black od) # k) t)"
    and red: "\<not> (rbcol ol = Black \<and> rbcol od = Black)"
    and b: "bal ol n" "bal od n" "bal t n"
    and k: "kbal (LF p c (Node ol w Black od) # k) (Suc n)"
  shows "\<exists>s' T m. restore_left p w s = Some s' \<and> repf h0 s' (plug k T) \<and>
    addrs (plug k T) = addrs (plug (LF p c (Node ol w Black od) # k) t) \<and>
    rbcol T = c \<and> bal T m \<and> kbal k m"
proof -
  have r0: "rep s (plug (RF t p c # k) (Node ol w Black od))"
    using repf_rep [OF rep] by simp
  obtain s1 ol' od' v where s1:
      "(if rbcol od = Black then do {
         o_left \<leftarrow> left_of w s;
         s \<leftarrow> (if o_left \<noteq> NULL then rb_set_black o_left s else Some s);
         s \<leftarrow> rb_set_red w s;
         s \<leftarrow> rb_rotate_right w s;
         other \<leftarrow> right_of p s;
         Some (other, s) } else Some (w, s)) = Some (v, s1)"
      "repf h0 s1 (plug k (Node t p c (Node ol' v Black od')))" "rbcol od' = Red"
      "bal ol' n" "bal od' n" "addrs ol' @ v # addrs od' = addrs ol @ w # addrs od"
    using recolor_inner_left [OF rep _ b(1,2)] red by (fastforce simp: neq_color)
  obtain x xv y where od': "od' = Node x xv Red y"
    using s1(3) by (auto dest: rbcol_Red)
  obtain s2 where s2: "rb_set_color v (colw c) s1 = Some s2"
      "repf h0 s2 (plug k (Node t p c (Node ol' v c od')))"
    using set_color_rep [of h0 s1 "RF t p c # k" ol' v Black od' c] s1(2) by auto
  obtain s3 where s3: "rb_set_black p s2 = Some s3"
      "repf h0 s3 (plug k (Node t p Black (Node ol' v c od')))"
    using set_black_rep [OF s2(2)] by auto
  obtain s4 where s4: "(if rootp od' \<noteq> NULL then rb_set_black (rootp od') s3 else Some s3) = Some s4"
      "repf h0 s4 (plug k (Node t p Black (Node ol' v c (paint Black od'))))"
    using paint_black_rep [of h0 s3 "RF ol' v c # RF t p Black # k" od'] s3(2) by auto
  obtain s5 where s5: "rb_rotate_left p s4 = Some s5"
      "repf h0 s5 (plug k (Node (Node t p Black ol') v c (paint Black od')))"
    using rotate_left_rep [OF s4(2)] by auto
  have reads: "right_of w s = Some (rootp od)" "null_or_black (rootp od) s = Some (rbcol od = Black)"
    "color_of p s1 = Some (colw c)" "right_of v s3 = Some (rootp od')"
    using rep_reads(2) [OF r0] rep_rootp_reads(2) [of s "RF ol w Black # RF t p c # k" od] r0
      rep_reads(4) [OF repf_rep [OF s1(2)]]
      rep_reads(2) [of s3 "RF t p Black # k" ol' v c od'] repf_rep [OF s3(2)] by simp_all
  have "restore_left p w s = Some s5"
    using reads s1(1) s2(1) s3(1) s4(1) s5(1) by (simp add: restore_left_def)
  moreover have "bal (Node (Node t p Black ol') v c (paint Black od')) (if c = Red then Suc n else Suc (Suc n))"
    using s1(4,5) b(3) od' by (cases c) auto
  moreover have "kbal k (if c = Red then Suc n else Suc (Suc n))"
    using k by (cases c) auto
  ultimately show ?thesis
    using s5(2) s1(6) by (intro exI conjI) (assumption | simp add: addrs_plug)+
qed

text \<open>The mirror images, for a node that is a right child.\<close>

lemma red_sibling_right_rep:
  assumes rep: "repf h0 s (plug (RF S p c # k) t)" and S: "bal S (Suc n)"
    and k: "kbal (RF S p c # k) (Suc n)"
  shows "\<exists>s' c' ol w od k'. red_sibling_right p (rootp S) s = Some (w, s') \<and>
    repf h0 s' (plug (RF (Node od w Black ol) p c' # k') t) \<and>
    addrs (plug (RF (Node od w Black ol) p c' # k') t) = addrs (plug (RF S p c # k) t) \<and>
    bal ol n \<and> bal od n \<and> kbal (RF (Node od w Black ol) p c' # k') (Suc n) \<and>
    (k' = k \<or> c' = Red \<and> length k' = Suc (length k))"
proof (cases "rbcol S = Red")
  case False
  then have "rbcol S = Black" by simp
  with S obtain ol w od where S': "S = Node od w Black ol" "bal od n" "bal ol n"
    by (rule bal_SucE)
  have "is_red w s = Some False"
    using rep_reads(5) [of s "LF p c t # k" od w Black ol] repf_rep [OF rep] S' by simp
  with S' have "red_sibling_right p (rootp S) s = Some (w, s)"
    by (simp add: red_sibling_right_def)
  with S' rep k show ?thesis by blast
next
  case True
  then obtain sl w sr where S': "S = Node sr w Red sl" by (auto dest: rbcol_Red)
  with S k have c: "c = Black" and sr: "bal sr (Suc n)" and sl: "bal sl (Suc n)" "rbcol sl = Black"
    by (cases c; auto)+
  obtain ol v od where sl': "sl = Node od v Black ol" "bal od n" "bal ol n"
    using sl by (rule bal_SucE)
  obtain s1 where s1: "rb_set_black w s = Some s1"
      "repf h0 s1 (plug k (Node (Node sr w Black sl) p c t))"
    using set_black_rep [of h0 s "LF p c t # k" sr w Red sl] rep S' by auto
  obtain s2 where s2: "rb_set_red p s1 = Some s2"
      "repf h0 s2 (plug k (Node (Node sr w Black sl) p Red t))"
    using set_red_rep [OF s1(2)] by auto
  obtain s3 where s3: "rb_rotate_right p s2 = Some s3"
      "repf h0 s3 (plug k (Node sr w Black (Node sl p Red t)))"
    using rotate_right_rep [OF s2(2)] by auto
  have "is_red w s = Some True"
    using rep_reads(5) [of s "LF p c t # k" sr w Red sl] repf_rep [OF rep] S' by simp
  moreover have "left_of p s3 = Some v"
    using rep_reads(1) [of s3 "RF sr w Black # k" sl p Red t] repf_rep [OF s3(2)] sl' by simp
  ultimately have "red_sibling_right p (rootp S) s = Some (v, s3)"
    using s1(1) s2(1) s3(1) S' by (simp add: red_sibling_right_def)
  moreover have "repf h0 s3 (plug (RF (Node od v Black ol) p Red # RF sr w Black # k) t)"
    using s3(2) sl' by simp
  moreover have "kbal (RF (Node od v Black ol) p Red # RF sr w Black # k) (Suc n)"
    using k S' c sl' sr by simp
  ultimately show ?thesis
    using sl' S' c by (intro exI conjI) (assumption | simp add: addrs_plug)+
qed

lemma recolor_inner_right:
  assumes rep: "repf h0 s (plug (RF (Node od w Black ol) p c # k) t)"
    and red: "rbcol ol = Red \<or> rbcol od = Red"
    and b: "bal ol n" "bal od n"
  shows "\<exists>s3 od' ol' w'.
    (if rbcol od = Black then do {
       o_right \<leftarrow> right_of w s;
       s \<leftarrow> (if o_right \<noteq> NULL then rb_set_black o_right s else Some s);
       s \<leftarrow> rb_set_red w s;
       s \<leftarrow> rb_rotate_left w s;
       other \<leftarrow> left_of p s;
       Some (other, s) } else Some (w, s)) = Some (w', s3) \<and>
    repf h0 s3 (plug (RF (Node od' w' Black ol') p c # k) t) \<and> rbcol od' = Red \<and>
    bal ol' n \<and> bal od' n \<and> addrs od' @ w' # addrs ol' = addrs od @ w # addrs ol"
proof (cases "rbcol od = Black")
  case False
  then show ?thesis using rep b by auto
next
  case True
  with red obtain a v b' where ol: "ol = Node b' v Red a" by (auto dest: rbcol_Red)
  have r0: "rep s (plug (LF p c t # k) (Node od w Black ol))"
    using repf_rep [OF rep] by simp
  obtain s1 where s1: "rb_set_black v s = Some s1"
      "repf h0 s1 (plug (LF p c t # k) (Node od w Black (Node b' v Black a)))"
    using set_black_rep [of h0 s "RF od w Black # LF p c t # k" b' v Red a] rep ol by auto
  obtain s2 where s2: "rb_set_red w s1 = Some s2"
      "repf h0 s2 (plug (LF p c t # k) (Node od w Red (Node b' v Black a)))"
    using set_red_rep [OF s1(2)] by auto
  obtain s3 where s3: "rb_rotate_left w s2 = Some s3"
      "repf h0 s3 (plug (LF p c t # k) (Node (Node od w Red b') v Black a))"
    using rotate_left_rep [OF s2(2)] by auto
  have "right_of w s = Some v" "v \<noteq> NULL"
    using rep_reads(2) [OF r0] ol r0 by (auto simp: rep_plug good_def)
  moreover have "left_of p s3 = Some v"
    using rep_reads(1) [of s3 k "Node (Node od w Red b') v Black a" p c t] repf_rep [OF s3(2)]
    by simp
  ultimately have "(if rbcol od = Black then do {
       o_right \<leftarrow> right_of w s;
       s \<leftarrow> (if o_right \<noteq> NULL then rb_set_black o_right s else Some s);
       s \<leftarrow> rb_set_red w s;
       s \<leftarrow> rb_rotate_left w s;
       other \<leftarrow> left_of p s;
       Some (other, s) } else Some (w, s)) = Some (v, s3)"
    using True s1(1) s2(1) s3(1) by simp
  moreover have "repf h0 s3 (plug (RF (Node (Node od w Red b') v Black a) p c # k) t)"
    using s3(2) by simp
  ultimately show ?thesis
    using True b ol by (intro exI conjI) (assumption | simp)+
qed

lemma restore_right_rep:
  assumes rep: "repf h0 s (plug (RF (Node od w Black ol) p c # k) t)"
    and red: "\<not> (rbcol ol = Black \<and> rbcol od = Black)"
    and b: "bal ol n" "bal od n" "bal t n"
    and k: "kbal (RF (Node od w Black ol) p c # k) (Suc n)"
  shows "\<exists>s' T m. restore_right p w s = Some s' \<and> repf h0 s' (plug k T) \<and>
    addrs (plug k T) = addrs (plug (RF (Node od w Black ol) p c # k) t) \<and>
    rbcol T = c \<and> bal T m \<and> kbal k m"
proof -
  have r0: "rep s (plug (LF p c t # k) (Node od w Black ol))"
    using repf_rep [OF rep] by simp
  obtain s1 ol' od' v where s1:
      "(if rbcol od = Black then do {
         o_right \<leftarrow> right_of w s;
         s \<leftarrow> (if o_right \<noteq> NULL then rb_set_black o_right s else Some s);
         s \<leftarrow> rb_set_red w s;
         s \<leftarrow> rb_rotate_left w s;
         other \<leftarrow> left_of p s;
         Some (other, s) } else Some (w, s)) = Some (v, s1)"
      "repf h0 s1 (plug k (Node (Node od' v Black ol') p c t))" "rbcol od' = Red"
      "bal ol' n" "bal od' n" "addrs od' @ v # addrs ol' = addrs od @ w # addrs ol"
    using recolor_inner_right [OF rep _ b(1,2)] red by (fastforce simp: neq_color)
  obtain x xv y where od': "od' = Node y xv Red x"
    using s1(3) by (auto dest: rbcol_Red)
  obtain s2 where s2: "rb_set_color v (colw c) s1 = Some s2"
      "repf h0 s2 (plug k (Node (Node od' v c ol') p c t))"
    using set_color_rep [of h0 s1 "LF p c t # k" od' v Black ol' c] s1(2) by auto
  obtain s3 where s3: "rb_set_black p s2 = Some s3"
      "repf h0 s3 (plug k (Node (Node od' v c ol') p Black t))"
    using set_black_rep [OF s2(2)] by auto
  obtain s4 where s4: "(if rootp od' \<noteq> NULL then rb_set_black (rootp od') s3 else Some s3) = Some s4"
      "repf h0 s4 (plug k (Node (Node (paint Black od') v c ol') p Black t))"
    using paint_black_rep [of h0 s3 "LF v c ol' # LF p Black t # k" od'] s3(2) by auto
  obtain s5 where s5: "rb_rotate_right p s4 = Some s5"
      "repf h0 s5 (plug k (Node (paint Black od') v c (Node ol' p Black t)))"
    using rotate_right_rep [OF s4(2)] by auto
  have reads: "left_of w s = Some (rootp od)" "null_or_black (rootp od) s = Some (rbcol od = Black)"
    "color_of p s1 = Some (colw c)" "left_of v s3 = Some (rootp od')"
    using rep_reads(1) [OF r0] rep_rootp_reads(2) [of s "LF w Black ol # LF p c t # k" od] r0
      rep_reads(4) [OF repf_rep [OF s1(2)]]
      rep_reads(1) [of s3 "LF p Black t # k" od' v c ol'] repf_rep [OF s3(2)] by simp_all
  have "restore_right p w s = Some s5"
    using reads s1(1) s2(1) s3(1) s4(1) s5(1) by (simp add: restore_right_def)
  moreover have "bal (Node (paint Black od') v c (Node ol' p Black t)) (if c = Red then Suc n else Suc (Suc n))"
    using s1(4,5) b(3) od' by (cases c) auto
  moreover have "kbal k (if c = Red then Suc n else Suc (Suc n))"
    using k by (cases c) auto
  ultimately show ?thesis
    using s5(2) s1(6) by (intro exI conjI) (assumption | simp add: addrs_plug)+
qed

section \<open>The loop\<close>

definition er_inv ::
  "rb_node heap \<Rightarrow> ptr list \<Rightarrow> ptr \<times> ptr \<times> rb_state \<Rightarrow> nat \<Rightarrow> bool" where
  "er_inv h0 xs = (\<lambda>(node, parent, s) m. \<exists>k t n. node = rootp t \<and> parent = kptr k \<and>
     repf h0 s (plug k t) \<and> addrs (plug k t) = xs \<and> short t n \<and> kbal k (Suc n) \<and>
     m = 2 * length k + (if rbcol t = Red then 0 else 1))"

lemma er_invI:
  "node = rootp t \<Longrightarrow> parent = kptr k \<Longrightarrow> repf h0 s (plug k t) \<Longrightarrow> addrs (plug k t) = xs \<Longrightarrow>
   short t n \<Longrightarrow> kbal k (Suc n) \<Longrightarrow> m = 2 * length k + (if rbcol t = Red then 0 else 1) \<Longrightarrow>
   er_inv h0 xs (node, parent, s) m"
  unfolding er_inv_def prod.case by blast

definition er_done :: "rb_node heap \<Rightarrow> ptr list \<Rightarrow> rb_state \<Rightarrow> bool" where
  "er_done h0 xs s \<longleftrightarrow> (\<exists>t. repf h0 s t \<and> addrs t = xs \<and> rbt_ok t)"

text \<open>What the loop leaves for the final \<open>if (node) rb_set_black(node)\<close>.\<close>

definition er_exit :: "rb_node heap \<Rightarrow> ptr list \<Rightarrow> ptr \<times> rb_state \<Rightarrow> bool" where
  "er_exit h0 xs = (\<lambda>(node, s). \<exists>s'.
     (if node \<noteq> NULL then rb_set_black node s else Some s) = Some s' \<and> er_done h0 xs s')"

lemma root_in_context: "k \<noteq> [] \<Longrightarrow> rootp (plug k t) \<in> set (pre k) \<union> set (post k)"
proof (induction k arbitrary: t)
  case (Cons f k)
  then show ?case by (cases f; cases "k = []"; fastforce)
qed simp

lemma focus_not_root:
  assumes "rep s (plug k t)" "k \<noteq> []"
  shows "rootp t \<noteq> rb_root_node s"
  using assms root_in_context [of k t]
  by (cases t) (auto simp: rep_plug good_def)

lemma er_exit_paint:
  assumes rep: "repf h0 s (plug k t)" and xs: "addrs (plug k t) = xs"
    and b: "bal (paint Black t) m" "kbal k m"
  shows "er_exit h0 xs (rootp t, s)"
proof -
  obtain s' where s': "(if rootp t \<noteq> NULL then rb_set_black (rootp t) s else Some s) = Some s'"
      "repf h0 s' (plug k (paint Black t))"
    using paint_black_rep [OF rep] by blast
  have black: "rbcol (paint Black t) = Black"
    by (cases t) auto
  then have "\<exists>m. bal (plug k (paint Black t)) m"
    using b by (intro bal_plugI) auto
  moreover have "rbcol (plug k (paint Black t)) = Black"
    using black kbal_root_black [OF b(2)] by (cases "k = []") auto
  ultimately have "rbt_ok (plug k (paint Black t))"
    by (auto intro: rbt_okI)
  with s' xs show ?thesis
    by (auto simp: er_exit_def er_done_def addrs_plug)
qed

lemma er_exit_root:
  assumes rep: "repf h0 s t" and xs: "addrs t = xs" and ok: "rbt_ok t"
  shows "er_exit h0 xs (rb_root_node s, s)"
proof -
  have "paint Black t = t"
    using ok by (cases t) (auto simp: rbt_ok_def)
  moreover have "rb_root_node s = rootp t"
    using rep by (simp add: repf_def rep_def)
  ultimately show ?thesis
    using er_exit_paint [of h0 s "[]" t xs "bh t"] rep xs ok by (simp add: rbt_ok_def)
qed

lemma erase_round_left:
  assumes rep: "repf h0 s (plug (LF p c S # k) t)"
    and xs: "addrs (plug (LF p c S # k) t) = xs"
    and t: "bal t n" "rbcol t = Black" and k: "kbal (LF p c S # k) (Suc n)"
  shows "(\<exists>y m. erase_round (rootp t, p, s) = Some (Inl y) \<and> er_inv h0 xs y m \<and>
      m < Suc (2 * Suc (length k))) \<or>
    (\<exists>y. erase_round (rootp t, p, s) = Some (Inr y) \<and> er_exit h0 xs y)"
proof -
  have r0: "rep s (plug k (Node t p c S))"
    using repf_rep [OF rep] by simp
  have S: "bal S (Suc n)"
    using k by (cases c) auto
  obtain s1 c1 ol w od k1 where s1: "red_sibling_left p (rootp S) s = Some (w, s1)"
      "repf h0 s1 (plug (LF p c1 (Node ol w Black od) # k1) t)"
      "addrs (plug (LF p c1 (Node ol w Black od) # k1) t) = xs"
      "bal ol n" "bal od n" "kbal (LF p c1 (Node ol w Black od) # k1) (Suc n)"
      "k1 = k \<or> c1 = Red \<and> length k1 = Suc (length k)"
    using red_sibling_left_rep [OF rep S k] xs by auto
  have r1: "rep s1 (plug (RF t p c1 # k1) (Node ol w Black od))"
    using repf_rep [OF s1(2)] by simp
  note reads = rep_reads [OF r0] focus_not_root [OF repf_rep [OF rep]]
    rep_rootp_reads(2) [OF repf_rep [OF rep]] children_black_rep [OF r1]
  show ?thesis
  proof (cases "rbcol ol = Black \<and> rbcol od = Black")
    case True
    obtain s2 where s2: "rb_set_red w s1 = Some s2"
        "repf h0 s2 (plug k1 (Node t p c1 (Node ol w Red od)))"
      using set_red_rep [of h0 s1 "RF t p c1 # k1" ol w Black od] s1(2) by auto
    have "parent_of p s2 = Some (kptr k1)"
      using rep_reads(3) [OF repf_rep [OF s2(2)]] .
    then have "erase_round (rootp t, p, s) = Some (Inl (p, kptr k1, s2))"
      using reads t True s1(1) s2(1) by (simp add: erase_round_def)
    moreover have "er_inv h0 xs (p, kptr k1, s2)
        (2 * length k1 + (if c1 = Red then 0 else 1))"
      using s2(2) s1(3-6) True t
      by (cases c1) (auto intro!: er_invI [where k = k1 and t = "Node t p c1 (Node ol w Red od)"
            and n = "if c1 = Red then n else Suc n"] simp: short_def addrs_plug)
    ultimately show ?thesis
      using s1(7) by (cases c1) auto
  next
    case False
    obtain s2 T m where s2: "restore_left p w s1 = Some s2" "repf h0 s2 (plug k1 T)"
        "addrs (plug k1 T) = xs" "rbcol T = c1" "bal T m" "kbal k1 m"
      using restore_left_rep [OF s1(2) False s1(4,5) t(1) s1(6)] s1(3) by auto
    have "kcol k1 = Red \<Longrightarrow> rbcol T = Black" "k1 = [] \<Longrightarrow> rbcol T = Black"
      using s1(6) s2(4) by (cases c1; auto)+
    then have "rbt_ok (plug k1 T)"
      using bal_plugI [OF s2(5,6)] kbal_root_black [OF s2(6)]
      by (cases "k1 = []") (auto intro: rbt_okI)
    then have "er_exit h0 xs (rb_root_node s2, s2)"
      using s2(2,3) by (intro er_exit_root)
    moreover have "erase_round (rootp t, p, s) = Some (Inr (rb_root_node s2, s2))"
      using reads t False s1(1) s2(1) by (auto simp: erase_round_def)
    ultimately show ?thesis by blast
  qed
qed

lemma erase_round_right:
  assumes rep: "repf h0 s (plug (RF S p c # k) t)"
    and xs: "addrs (plug (RF S p c # k) t) = xs"
    and t: "bal t n" "rbcol t = Black" and k: "kbal (RF S p c # k) (Suc n)"
  shows "(\<exists>y m. erase_round (rootp t, p, s) = Some (Inl y) \<and> er_inv h0 xs y m \<and>
      m < Suc (2 * Suc (length k))) \<or>
    (\<exists>y. erase_round (rootp t, p, s) = Some (Inr y) \<and> er_exit h0 xs y)"
proof -
  have r0: "rep s (plug k (Node S p c t))"
    using repf_rep [OF rep] by simp
  have S: "bal S (Suc n)"
    using k by (cases c) auto
  obtain s1 c1 ol w od k1 where s1: "red_sibling_right p (rootp S) s = Some (w, s1)"
      "repf h0 s1 (plug (RF (Node od w Black ol) p c1 # k1) t)"
      "addrs (plug (RF (Node od w Black ol) p c1 # k1) t) = xs"
      "bal ol n" "bal od n" "kbal (RF (Node od w Black ol) p c1 # k1) (Suc n)"
      "k1 = k \<or> c1 = Red \<and> length k1 = Suc (length k)"
    using red_sibling_right_rep [OF rep S k] xs by auto
  have r1: "rep s1 (plug (LF p c1 t # k1) (Node od w Black ol))"
    using repf_rep [OF s1(2)] by simp
  have "S \<noteq> Leaf"
    using S by auto
  then have "rootp S \<noteq> rootp t"
    using r0 rootp_in_addrs [of S] rootp_in_addrs [of t]
    by (cases "t = Leaf") (auto simp: rep_plug good_def)
  note reads = this rep_reads [OF r0] focus_not_root [OF repf_rep [OF rep]]
    rep_rootp_reads(2) [OF repf_rep [OF rep]] children_black_rep [OF r1]
  show ?thesis
  proof (cases "rbcol ol = Black \<and> rbcol od = Black")
    case True
    obtain s2 where s2: "rb_set_red w s1 = Some s2"
        "repf h0 s2 (plug k1 (Node (Node od w Red ol) p c1 t))"
      using set_red_rep [of h0 s1 "LF p c1 t # k1" od w Black ol] s1(2) by auto
    have "parent_of p s2 = Some (kptr k1)"
      using rep_reads(3) [OF repf_rep [OF s2(2)]] .
    then have "erase_round (rootp t, p, s) = Some (Inl (p, kptr k1, s2))"
      using reads t True s1(1) s2(1) by (simp add: erase_round_def)
    moreover have "er_inv h0 xs (p, kptr k1, s2)
        (2 * length k1 + (if c1 = Red then 0 else 1))"
      using s2(2) s1(3-6) True t
      by (cases c1) (auto intro!: er_invI [where k = k1 and t = "Node (Node od w Red ol) p c1 t"
            and n = "if c1 = Red then n else Suc n"] simp: short_def addrs_plug)
    ultimately show ?thesis
      using s1(7) by (cases c1) auto
  next
    case False
    obtain s2 T m where s2: "restore_right p w s1 = Some s2" "repf h0 s2 (plug k1 T)"
        "addrs (plug k1 T) = xs" "rbcol T = c1" "bal T m" "kbal k1 m"
      using restore_right_rep [OF s1(2) False s1(4,5) t(1) s1(6)] s1(3) by auto
    have "kcol k1 = Red \<Longrightarrow> rbcol T = Black" "k1 = [] \<Longrightarrow> rbcol T = Black"
      using s1(6) s2(4) by (cases c1; auto)+
    then have "rbt_ok (plug k1 T)"
      using bal_plugI [OF s2(5,6)] kbal_root_black [OF s2(6)]
      by (cases "k1 = []") (auto intro: rbt_okI)
    then have "er_exit h0 xs (rb_root_node s2, s2)"
      using s2(2,3) by (intro er_exit_root)
    moreover have "erase_round (rootp t, p, s) = Some (Inr (rb_root_node s2, s2))"
      using reads t False s1(1) s2(1) by (auto simp: erase_round_def)
    ultimately show ?thesis by blast
  qed
qed

lemma erase_round_step:
  assumes inv: "er_inv h0 xs y m"
  shows "(\<exists>y' m'. erase_round y = Some (Inl y') \<and> er_inv h0 xs y' m' \<and> m' < m) \<or>
    (\<exists>z. erase_round y = Some (Inr z) \<and> er_exit h0 xs z)"
proof -
  obtain node parent s where y: "y = (node, parent, s)" by (cases y)
  from inv y obtain k t n where yt: "y = (rootp t, kptr k, s)"
    and rep: "repf h0 s (plug k t)" and xs: "addrs (plug k t) = xs"
    and b: "short t n" "kbal k (Suc n)"
    and m: "m = 2 * length k + (if rbcol t = Red then 0 else 1)"
    unfolding er_inv_def by auto
  note guard = rep_rootp_reads(2) [OF repf_rep [OF rep]]
  show ?thesis
  proof (cases "rbcol t = Red \<or> k = []")
    case True
    have "\<exists>m. bal (paint Black t) m \<and> kbal k m"
    proof (cases "rbcol t = Red")
      case True
      with b show ?thesis by (auto simp: short_def)
    next
      case False
      with True \<open>rbcol t = Red \<or> k = []\<close> b paint_bal [of t n] show ?thesis
        by (auto simp: short_def)
    qed
    then have "er_exit h0 xs (rootp t, s)"
      using er_exit_paint [OF rep xs] by blast
    moreover have "k = [] \<Longrightarrow> rb_root_node s = rootp t"
      using rep by (simp add: repf_def rep_def)
    then have "erase_round y = Some (Inr (rootp t, s))"
      using guard True yt by (auto simp: erase_round_def)
    ultimately show ?thesis by blast
  next
    case False
    then obtain f k' where k: "k = f # k'" and t: "rbcol t = Black" "bal t n"
      using b by (cases k) (auto simp: short_def)
    show ?thesis
    proof (cases f)
      case (LF p c S)
      with erase_round_left [of h0 s p c S k' t xs n] rep xs t b k m yt show ?thesis by auto
    next
      case (RF S p c)
      with erase_round_right [of h0 s S p c k' t xs n] rep xs t b k m yt show ?thesis by auto
    qed
  qed
qed

lemma erase_color_rep:
  assumes rep: "repf h0 s (plug k t)" and b: "short t n" "kbal k (Suc n)"
  shows "\<exists>s'. rb_erase_color (rootp t) (kptr k) s = Some s' \<and>
    er_done h0 (addrs (plug k t)) s'"
proof -
  have "er_inv h0 (addrs (plug k t)) (rootp t, kptr k, s)
      (2 * length k + (if rbcol t = Red then 0 else 1))"
    using rep b by (intro er_invI) auto
  then obtain z where "loop erase_round (rootp t, kptr k, s) = Some z"
      "er_exit h0 (addrs (plug k t)) z"
    using loop_ranked [where I = "er_inv h0 (addrs (plug k t))" and body = erase_round
        and Q = "er_exit h0 (addrs (plug k t))"] erase_round_step by blast
  then show ?thesis
    by (cases z) (auto simp: rb_erase_color_def er_exit_def)
qed

section \<open>Unlinking a node\<close>

lemma splice_no_left_rep:
  assumes rep: "rep s (plug k (Node Leaf x c t))"
  shows "\<exists>s'. erase_splice x (rootp t) s = Some (rootp t, kptr k, colw c, s') \<and>
    repf (rb_nodes s) s' (plug k t)"
proof (cases k)
  case Nil
  with rep show ?thesis
    by (cases t) (auto simp: repf_def rep_def erase_splice_def change_child_def rb_ops good_def agree_on_def)
next
  case (Cons f k')
  have root: "rootp (plug k t) = rootp (plug k (Node Leaf x c t))"
    by (rule rootp_plug) (simp add: Cons)
  have al: "aligned4 (kptr k')"
    using rep Cons repf_kptr [OF repf_start, of s "k'"] by (cases f) auto
  show ?thesis
  proof (cases f)
    case (LF p e u)
    with rep Cons root al show ?thesis
      by (cases t) (auto simp: repf_plug rep_plug erase_splice_def change_child_def rb_ops good_def agree_on_def)
  next
    case (RF u p e)
    with rep Cons root al show ?thesis
      by (cases t) (auto simp: repf_plug rep_plug erase_splice_def change_child_def rb_ops good_def agree_on_def)
  qed
qed

lemma splice_no_right_rep:
  assumes rep: "rep s (plug k (Node t x c Leaf))"
  shows "\<exists>s'. erase_splice x (rootp t) s = Some (rootp t, kptr k, colw c, s') \<and>
    repf (rb_nodes s) s' (plug k t)"
proof (cases k)
  case Nil
  with rep show ?thesis
    by (cases t) (auto simp: repf_def rep_def erase_splice_def change_child_def rb_ops good_def agree_on_def)
next
  case (Cons f k')
  have root: "rootp (plug k t) = rootp (plug k (Node t x c Leaf))"
    by (rule rootp_plug) (simp add: Cons)
  have al: "aligned4 (kptr k')"
    using rep Cons repf_kptr [OF repf_start, of s "k'"] by (cases f) auto
  show ?thesis
  proof (cases f)
    case (LF p e u)
    with rep Cons root al show ?thesis
      by (cases t) (auto simp: repf_plug rep_plug erase_splice_def change_child_def rb_ops good_def agree_on_def)
  next
    case (RF u p e)
    with rep Cons root al show ?thesis
      by (cases t) (auto simp: repf_plug rep_plug erase_splice_def change_child_def rb_ops good_def agree_on_def)
  qed
qed

text \<open>The successor: the left spine of the right subtree.\<close>

fun left_frame :: "frame \<Rightarrow> bool" where
  "left_frame (LF a c r) \<longleftrightarrow> True"
| "left_frame (RF l a c) \<longleftrightarrow> False"

lemma leftmost_rep:
  assumes "rep s (plug k r)" "r \<noteq> Leaf"
  shows "\<exists>kr y d t. r = plug kr (Node Leaf y d t) \<and> list_all left_frame kr \<and>
    loop (leftmost_round s) (rootp r) = Some y"
  using assms
proof (induction r arbitrary: k)
  case (Node l a c r)
  have left: "left_of a s = Some (rootp l)"
    using rep_reads(1) [OF Node.prems(1)] .
  show ?case
  proof (cases "l = Leaf")
    case True
    with left have "loop (leftmost_round s) a = Some a"
      by (simp add: leftmost_round_def)
    with True show ?thesis
      by (intro exI [of _ "[]"]) auto
  next
    case False
    have "rep s (plug (LF a c r # k) l)"
      using Node.prems(1) by simp
    from Node.IH(1) [OF this False] obtain kr y d t where
      l: "l = plug kr (Node Leaf y d t)" "list_all left_frame kr"
        "loop (leftmost_round s) (rootp l) = Some y" by blast
    have "rootp l \<noteq> NULL"
      using False Node.prems(1) by (cases l) (auto simp: rep_plug good_def)
    with left have "loop (leftmost_round s) a = loop (leftmost_round s) (rootp l)"
      by (simp add: leftmost_round_def)
    with l show ?thesis
      by (intro exI [of _ "kr @ [LF a c r]"]) (auto simp: plug_append)
  qed
qed simp

lemma unlink_left_rep:
  assumes rep: "rep s (plug (LF p e u # k) (Node Leaf y d t))" and p: "p \<noteq> x"
  shows "\<exists>s'. unlink_successor x y (rootp t) p s = Some (p, s') \<and>
    repf (rb_nodes s) s' (plug (LF p e u # k) t)"
proof -
  have "rootp (plug k (Node t p e u)) = rootp (plug k (Node (Node Leaf y d t) p e u))"
    by (rule rootp_plug_same) simp
  moreover have "aligned4 (kptr k)"
    using rep repf_kptr [OF repf_start, of s k] by auto
  ultimately show ?thesis
    using rep p by (cases t)
      (auto simp: repf_plug rep_plug unlink_successor_def rb_ops good_def agree_on_def)
qed

lemma unlink_right_rep:
  assumes rep: "rep s (plug (RF l x c # k) (Node Leaf y d t))"
  shows "\<exists>s'. unlink_successor x y (rootp t) x s = Some (y, s') \<and>
    repf (rb_nodes s) s' (plug (RF l x c # k) t)"
proof -
  have "rootp (plug k (Node l x c t)) = rootp (plug k (Node l x c (Node Leaf y d t)))"
    by (rule rootp_plug_same) simp
  moreover have "aligned4 (kptr k)"
    using rep repf_kptr [OF repf_start, of s k] by auto
  ultimately show ?thesis
    using rep by (cases t)
      (auto simp: repf_plug rep_plug unlink_successor_def rb_ops good_def agree_on_def)
qed

text \<open>A node outside the tree takes over the fields and the place of \<open>x\<close>.\<close>

lemma mk_any: "v\<lparr>rb_parent_color := p OR colw c, rb_right := r, rb_left := l\<rparr> = mk p c l r"
  by (simp add: mk_def)

fun lptr :: "rbt \<Rightarrow> ptr" where
  "lptr Leaf = NULL"
| "lptr (Node l a c r) = rootp l"

fun rptr :: "rbt \<Rightarrow> ptr" where
  "rptr Leaf = NULL"
| "rptr (Node l a c r) = rootp r"

lemma rbrep_rootD:
  "rbrep h p t \<Longrightarrow> t \<noteq> Leaf \<Longrightarrow> h (rootp t) = Some (mk p (rbcol t) (lptr t) (rptr t))"
  by (cases t) auto

lemma rbrep_reparent:
  "rbrep h p t \<Longrightarrow> distinct (addrs t) \<Longrightarrow> t \<noteq> Leaf \<Longrightarrow>
   rbrep (h(rootp t \<mapsto> mk q (rbcol t) (lptr t) (rptr t))) q t"
  by (cases t) auto

text \<open>\<open>adopt q t h\<close>: the root of \<open>t\<close> gets the parent \<open>q\<close>.\<close>

definition adopt :: "ptr \<Rightarrow> rbt \<Rightarrow> rb_node heap \<Rightarrow> rb_node heap" where
  "adopt q t h =
     (if t = Leaf then h else h(rootp t \<mapsto> mk q (rbcol t) (lptr t) (rptr t)))"

lemma adopt_rbrep: "rbrep h p t \<Longrightarrow> distinct (addrs t) \<Longrightarrow> rbrep (adopt q t h) q t"
  by (cases "t = Leaf") (auto simp: adopt_def rbrep_reparent)

lemma adopt_frame [simp]:
  "set (addrs t) \<inter> set (addrs u) = {} \<Longrightarrow> rbrep (adopt q t h) p u = rbrep h p u"
  "set (addrs t) \<inter> (set (pre k) \<union> set (post k)) = {} \<Longrightarrow>
   krep (adopt q t h) p k = krep h p k"
  using rootp_in_addrs [of t] by (simp_all add: adopt_def disjoint_iff)

lemma adopt_other [simp]: "a \<notin> set (addrs t) \<Longrightarrow> adopt q t h a = h a"
  using rootp_in_addrs [of t] by (auto simp: adopt_def)

lemma set_parent_adopt:
  assumes "rbrep (rb_nodes s) p t" "aligned4 p" "NULL \<notin> set (addrs t)"
  shows "(if rootp t \<noteq> NULL then rb_set_parent (rootp t) q s else Some s) =
    Some (s\<lparr>rb_nodes := adopt q t (rb_nodes s)\<rparr>)"
  using assms by (cases t) (auto simp: adopt_def rb_ops)

text \<open>The link from above: the child field of the top frame, or the root pointer.\<close>

fun relink :: "frame list \<Rightarrow> ptr \<Rightarrow> rb_node heap \<Rightarrow> rb_node heap" where
  "relink [] q h = h"
| "relink (LF p e u # k) q h = h(p \<mapsto> mk (kptr k) e q (rootp u))"
| "relink (RF u p e # k) q h = h(p \<mapsto> mk (kptr k) e (rootp u) q)"

lemma relink_krep:
  "krep h p k \<Longrightarrow> distinct (pre k @ post k) \<Longrightarrow> krep (relink k q h) q k"
  by (cases k rule: pre.cases) auto

lemma relink_frame [simp]:
  "set (addrs t) \<inter> (set (pre k) \<union> set (post k)) = {} \<Longrightarrow> rbrep (relink k q h) p t = rbrep h p t"
  by (cases k rule: pre.cases) auto

lemma relink_other [simp]: "a \<notin> set (pre k) \<union> set (post k) \<Longrightarrow> relink k q h a = h a"
  by (cases k rule: pre.cases) auto

lemma good_swap:
  "good (A @ x # B) \<Longrightarrow> y \<notin> set (A @ x # B) \<Longrightarrow> y \<noteq> NULL \<Longrightarrow> aligned4 y \<Longrightarrow> good (A @ y # B)"
  by (auto simp: good_def)

text \<open>A heap in which \<open>y\<close> has taken the place of \<open>x\<close>, however it was reached.\<close>

lemma replaced_rep:
  assumes rep: "rep s (plug k (Node l x c r))"
    and y: "y \<notin> set (addrs (plug k (Node l x c r)))" "y \<noteq> NULL" "aligned4 y"
    and root: "rb_root_node s' = (if k = [] then y else rb_root_node s)"
    and nodes: "rb_nodes s' = (adopt y r (adopt y l (relink k y (rb_nodes s))))
      (y \<mapsto> mk (kptr k) c (rootp l) (rootp r))"
  shows "repf (rb_nodes s) s' (plug k (Node l y c r))"
proof -
  have good: "good (pre k @ addrs l @ x # addrs r @ post k)"
    using rep by (simp add: rep_plug)
  then have d: "distinct (addrs l)" "distinct (addrs r)" "distinct (pre k @ post k)"
    "set (addrs l) \<inter> set (addrs r) = {}" "set (addrs r) \<inter> set (addrs l) = {}"
    "set (addrs l) \<inter> (set (pre k) \<union> set (post k)) = {}"
    "set (addrs r) \<inter> (set (pre k) \<union> set (post k)) = {}"
    by (auto simp: good_def)
  have reps: "rbrep (rb_nodes s) x l" "rbrep (rb_nodes s) x r" "krep (rb_nodes s) x k"
    using rep by (auto simp: rep_plug)
  have notin: "y \<notin> set (addrs l)" "y \<notin> set (addrs r)" "y \<notin> set (pre k)" "y \<notin> set (post k)"
    using y(1) by (auto simp: addrs_plug)
  have good': "good (pre k @ addrs l @ y # addrs r @ post k)"
    using good_swap [of "pre k @ addrs l" x "addrs r @ post k" y] good y
    by (auto simp: addrs_plug)
  have root': "rb_root_node s' = rootp (plug k (Node l y c r))"
    using root rep rootp_plug [of k "Node l y c r" "Node l x c r"]
    by (auto simp: rep_plug)
  have "rbrep (rb_nodes s') y l" "rbrep (rb_nodes s') y r" "krep (rb_nodes s') y k"
    using nodes notin d reps relink_krep [OF reps(3) d(3), of y]
    by (auto simp: adopt_rbrep)
  moreover have "agree_on (- set (pre k @ addrs l @ y # addrs r @ post k)) (rb_nodes s) (rb_nodes s')"
    using nodes by (auto simp: agree_on_def)
  ultimately show ?thesis
    using good' root' nodes by (simp add: repf_plug)
qed

lemma adopt_upd:
  "y \<notin> set (addrs t) \<Longrightarrow> adopt q t (h(y \<mapsto> v)) = (adopt q t h)(y \<mapsto> v)"
  using rootp_in_addrs [of t] by (auto simp: adopt_def fun_upd_twist)

lemma relink_upd:
  "y \<notin> set (pre k) \<union> set (post k) \<Longrightarrow> relink k q (h(y \<mapsto> v)) = (relink k q h)(y \<mapsto> v)"
  by (cases k rule: pre.cases) (auto simp: fun_upd_twist)

text \<open>The code that writes the link from above.\<close>

lemma change_child_eval:
  assumes k: "krep (rb_nodes s) x k" and nn: "NULL \<notin> set (pre k) \<union> set (post k)"
    and x: "x \<notin> set (pre k) \<union> set (post k)" "x \<noteq> NULL"
  shows "\<exists>s'. change_child (kptr k) x q s = Some s' \<and>
    rb_nodes s' = relink k q (rb_nodes s) \<and>
    rb_root_node s' = (if k = [] then q else rb_root_node s)"
  using k nn x by (cases k rule: pre.cases) (auto simp: rb_ops change_child_def)

lemma take_place_rep:
  assumes rep: "rep s (plug k (Node l x c r))" and l: "l \<noteq> Leaf"
    and y: "y \<notin> set (addrs (plug k (Node l x c r)))" "y \<noteq> NULL" "aligned4 y"
      "rb_nodes s y = Some v"
  shows "\<exists>s'. take_place x y s = Some s' \<and> repf (rb_nodes s) s' (plug k (Node l y c r))"
proof -
  let ?h = "rb_nodes s"
  let ?Y = "mk (kptr k) c (rootp l) (rootp r)"
  define s1 where "s1 = s\<lparr>rb_nodes := ?h(y \<mapsto> ?Y)\<rparr>"
  have good: "good (pre k @ addrs l @ x # addrs r @ post k)"
    using rep by (simp add: rep_plug)
  have hx: "?h x = Some ?Y" "x \<noteq> NULL" "x \<noteq> y" "aligned4 x" "aligned4 (kptr k)"
    using rep y(1) good_kptr [of k "addrs (Node l x c r)"] by (auto simp: rep_plug good_def addrs_plug)
  have d: "set (addrs l) \<inter> set (addrs r) = {}"
      "x \<notin> set (pre k) \<union> set (post k)" "x \<notin> set (addrs l)" "x \<notin> set (addrs r)"
      "NULL \<notin> set (pre k) \<union> set (post k)" "NULL \<notin> set (addrs l)" "NULL \<notin> set (addrs r)"
      "set (addrs l) \<inter> (set (pre k) \<union> set (post k)) = {}"
      "set (addrs r) \<inter> (set (pre k) \<union> set (post k)) = {}"
    using good by (auto simp: good_def)
  have n: "y \<notin> set (pre k) \<union> set (post k)" "y \<notin> set (addrs l)" "y \<notin> set (addrs r)"
    using y(1) by (auto simp: addrs_plug)
  have reps: "rbrep ?h x l" "rbrep ?h x r" "krep ?h x k"
    using rep by (auto simp: rep_plug)
  have copy: "copy_fields x y s = Some s1"
    using hx y by (simp add: copy_fields_def rb_ops mk_any s1_def)
  obtain s2 where s2: "change_child (kptr k) x y s1 = Some s2"
      "rb_nodes s2 = relink k y (?h(y \<mapsto> ?Y))"
      "rb_root_node s2 = (if k = [] then y else rb_root_node s)"
    using change_child_eval [of s1 x k y] reps d n hx by (auto simp: s1_def)
  have h2: "rb_nodes s2 x = Some ?Y" "rbrep (rb_nodes s2) x l" "rbrep (rb_nodes s2) x r"
    using s2(2) d n hx reps by auto
  let ?s3 = "s2\<lparr>rb_nodes := adopt y l (rb_nodes s2)\<rparr>"
  have s3: "rb_set_parent (rootp l) y s2 = Some ?s3"
    using set_parent_adopt [of s2 x l y] h2 hx d l rootp_Leaf_iff [of l] by auto
  have h3: "rb_nodes ?s3 x = Some ?Y" "rbrep (rb_nodes ?s3) x r"
    using h2 d by auto
  let ?s4 = "?s3\<lparr>rb_nodes := adopt y r (rb_nodes ?s3)\<rparr>"
  have s4: "(if rootp r \<noteq> NULL then rb_set_parent (rootp r) y ?s3 else Some ?s3) = Some ?s4"
    using set_parent_adopt [of ?s3 x r y] h3(2) hx(4) d(7) by simp
  have "take_place x y s = Some ?s4"
    using copy s2(1) s3 s4 h2(1) h3(1) hx n
    by (simp add: take_place_def parent_of_def left_of_def right_of_def get_node_def s1_def
        split: if_splits)
  moreover have "repf ?h ?s4 (plug k (Node l y c r))"
    using s2(2,3) n by (intro replaced_rep [OF rep y(1-3)]) (simp_all add: adopt_upd relink_upd)
  ultimately show ?thesis by blast
qed

section \<open>\<open>rb_erase\<close>\<close>

text \<open>
  What both ways of unlinking hand to \<open>color:\<close>: a focus \<open>t\<close> in a tree that has lost \<open>x\<close>
  and one node of colour \<open>d\<close>.
\<close>

definition unlinked ::
  "rb_state \<Rightarrow> ptr list \<Rightarrow> ptr list \<Rightarrow> ptr \<times> ptr \<times> 64 word \<times> rb_state \<Rightarrow> bool" where
  "unlinked s xs ys z \<longleftrightarrow> (\<exists>k t d n s'. z = (rootp t, kptr k, colw d, s') \<and>
     rep s' (plug k t) \<and> addrs (plug k t) = ys \<and>
     agree_on (- set xs) (rb_nodes s) (rb_nodes s') \<and>
     (if d = Black then short t n \<and> kbal k (Suc n)
      else bal t n \<and> kbal k n \<and> rbcol t = Black))"

lemma unlinkedI:
  "rep s' (plug k t) \<Longrightarrow> addrs (plug k t) = ys \<Longrightarrow>
   agree_on (- set xs) (rb_nodes s) (rb_nodes s') \<Longrightarrow>
   (if d = Black then short t n \<and> kbal k (Suc n)
    else bal t n \<and> kbal k n \<and> rbcol t = Black) \<Longrightarrow>
   unlinked s xs ys (rootp t, kptr k, colw d, s')"
  unfolding unlinked_def by blast

text \<open>Balance of the hole a node with at most one child leaves.\<close>

lemma hole_balance:
  assumes b: "bal (Node l x d r) n" "kbal k n"
    and t: "l = Leaf \<and> t = r \<or> r = Leaf \<and> t = l"
  shows "\<exists>m. if d = Black then short t m \<and> kbal k (Suc m)
    else bal t m \<and> kbal k m \<and> rbcol t = Black"
proof (cases d)
  case Red
  with b t have "bal t n \<and> kbal k n \<and> rbcol t = Black" by auto
  with Red show ?thesis by auto
next
  case Black
  with b obtain m where m: "n = Suc m" "bal l m" "bal r m" by (cases n) auto
  with t have "bal t m" by auto
  then have "short t m" by (cases "(t, m)" rule: bal.cases) (auto simp: short_def)
  with m b Black show ?thesis by auto
qed

lemma kbal_middle:
  "kbal (k1 @ RF l x c # k) n \<Longrightarrow> kbal (k1 @ RF l y c # k) n"
proof (induction k1 n rule: kbal.induct)
  case (1 n)
  then show ?case by (cases c) auto
next
  case (4 a r k1 n)
  then show ?case by (cases k1) auto
next
  case (5 l' a k1 n)
  then show ?case by (cases k1) auto
qed auto

lemma left_frames_pre: "list_all left_frame k \<Longrightarrow> pre (k @ k') = pre k'"
  by (induction k rule: pre.induct) auto

lemma post_append: "post (k @ k') = post k @ post k'"
  by (induction k rule: post.induct) auto

lemma unlink_rep:
  assumes rep: "rep s (plug (kr @ RF l x c # k) (Node Leaf y d t))"
    and kr: "list_all left_frame kr"
  shows "\<exists>s'. unlink_successor x y (rootp t) (kptr (kr @ RF l x c # k)) s =
      Some (if kr = [] then y else kptr kr, s') \<and>
    repf (rb_nodes s) s' (plug (kr @ RF l x c # k) t)"
proof (cases kr)
  case Nil
  with rep unlink_right_rep [of s l x c k y d t] show ?thesis by simp
next
  case (Cons f k1)
  with kr obtain p e u where f: "f = LF p e u" by (cases f) auto
  have "p \<noteq> x"
    using rep Cons f by (auto simp: rep_def addrs_plug good_def plug_append post_append)
  with rep Cons f unlink_left_rep [of s p e u "k1 @ RF l x c # k" y d t x] show ?thesis
    by simp
qed

lemma successor_balance:
  assumes "rbt_ok (plug k (Node l x c (plug kr (Node Leaf y d t))))"
  shows "\<exists>n. bal (Node Leaf y d t) n \<and> kbal (kr @ RF l y c # k) n"
proof -
  from assms have "bal (plug (kr @ RF l x c # k) (Node Leaf y d t))
      (bh (plug (kr @ RF l x c # k) (Node Leaf y d t)))"
    "rbcol (plug (kr @ RF l x c # k) (Node Leaf y d t)) = Black"
    by (simp_all add: rbt_ok_def plug_append)
  from bal_plugD [OF this] show ?thesis
    using kbal_middle by blast
qed

lemma erase_successor_rep:
  assumes rep: "rep s (plug k (Node l x c r))" and ok: "rbt_ok (plug k (Node l x c r))"
    and l: "l \<noteq> Leaf" and r: "r \<noteq> Leaf"
  shows "\<exists>z. erase_successor x s = Some z \<and>
    unlinked s (addrs (plug k (Node l x c r))) (pre k @ addrs l @ addrs r @ post k) z"
proof -
  have "rep s (plug (RF l x c # k) r)" using rep by simp
  from leftmost_rep [OF this r] obtain kr y d t where
    r': "r = plug kr (Node Leaf y d t)" and kr: "list_all left_frame kr"
    and y: "loop (leftmost_round s) (rootp r) = Some y" by blast
  let ?K = "kr @ RF l x c # k"
  let ?K' = "kr @ RF l y c # k"
  have rep': "rep s (plug ?K (Node Leaf y d t))"
    using rep r' by (simp add: plug_append)
  obtain s1 where s1: "unlink_successor x y (rootp t) (kptr ?K) s =
        Some (if kr = [] then y else kptr kr, s1)"
      "repf (rb_nodes s) s1 (plug k (Node l x c (plug kr t)))"
    using unlink_rep [OF rep' kr] by (auto simp: plug_append)
  have yin: "y \<notin> set (addrs (plug k (Node l x c (plug kr t))))" "y \<noteq> NULL" "aligned4 y"
    using rep' by (auto simp: rep_def good_def addrs_plug plug_append)
  have "rb_nodes s1 y = rb_nodes s y"
    using s1(2) yin(1) by (simp add: repf_def agree_on_def)
  then obtain v where "rb_nodes s1 y = Some v"
    using rep_node(1,2) [OF rep'] by (auto simp: get_node_def)
  from take_place_rep [OF repf_rep [OF s1(2)] l yin this] obtain s2 where
    s2: "take_place x y s1 = Some s2" "repf (rb_nodes s1) s2 (plug k (Node l y c (plug kr t)))"
    by blast
  have K': "kptr ?K' = (if kr = [] then y else kptr kr)"
    by (cases kr) auto
  have "agree_on (- set (addrs (plug k (Node l x c r)))) (rb_nodes s) (rb_nodes s2)"
    using s1(2) s2(2) r' by (auto simp: repf_def agree_on_def addrs_plug)
  moreover obtain n where "bal (Node Leaf y d t) n" "kbal ?K' n"
    using successor_balance ok r' by blast
  moreover have "addrs (plug ?K' t) = pre k @ addrs l @ addrs r @ post k"
    using r' kr by (simp add: addrs_plug plug_append left_frames_pre [of kr "[]", simplified])
  ultimately have "unlinked s (addrs (plug k (Node l x c r))) (pre k @ addrs l @ addrs r @ post k)
      (rootp t, kptr ?K', colw d, s2)"
    using s2(2) hole_balance [of Leaf y d t n ?K' t]
    by (auto intro!: unlinkedI simp: repf_def plug_append)
  moreover have "erase_successor x s = Some (rootp t, kptr ?K', colw d, s2)"
    using rep_reads [OF rep] rep_reads [OF rep'] y s1(1) s2(1) K'
    by (simp add: erase_successor_def)
  ultimately show ?thesis by blast
qed

lemma erase_splice_rep:
  assumes rep: "rep s (plug k (Node l x c r))" and ok: "rbt_ok (plug k (Node l x c r))"
    and t: "l = Leaf \<and> t = r \<or> r = Leaf \<and> t = l"
  shows "\<exists>z. erase_splice x (rootp t) s = Some z \<and>
    unlinked s (addrs (plug k (Node l x c r))) (pre k @ addrs l @ addrs r @ post k) z"
proof -
  obtain s1 where s1: "erase_splice x (rootp t) s = Some (rootp t, kptr k, colw c, s1)"
      "repf (rb_nodes s) s1 (plug k t)"
    using splice_no_left_rep [of s k x c t] splice_no_right_rep [of s k t x c] rep t by auto
  obtain n where "bal (Node l x c r) n" "kbal k n"
    using ok bal_plugD [of k "Node l x c r"] by (auto simp: rbt_ok_def)
  from hole_balance [OF this t] obtain m where
    "if c = Black then short t m \<and> kbal k (Suc m) else bal t m \<and> kbal k m \<and> rbcol t = Black" ..
  moreover have "addrs (plug k t) = pre k @ addrs l @ addrs r @ post k"
    using t by (auto simp: addrs_plug)
  moreover have "agree_on (- set (addrs (plug k (Node l x c r)))) (rb_nodes s) (rb_nodes s1)"
    using s1(2) t by (auto simp: repf_def agree_on_def addrs_plug)
  ultimately have "unlinked s (addrs (plug k (Node l x c r))) (pre k @ addrs l @ addrs r @ post k)
      (rootp t, kptr k, colw c, s1)"
    using s1(2) by (intro unlinkedI) (auto simp: repf_def)
  with s1(1) show ?thesis by blast
qed

lemma unlinked_finish:
  assumes u: "unlinked s xs ys (child, parent, color, s1)" and ys: "set ys \<subseteq> set xs"
  shows "\<exists>s' t. (if color = RB_BLACK then rb_erase_color child parent s1 else Some s1) = Some s' \<and>
    rep s' t \<and> addrs t = ys \<and> rbt_ok t \<and> agree_on (- set xs) (rb_nodes s) (rb_nodes s')"
proof -
  from u obtain k t d n where z: "child = rootp t" "parent = kptr k" "color = colw d"
    and rep: "rep s1 (plug k t)" and a: "addrs (plug k t) = ys"
    and fr: "agree_on (- set xs) (rb_nodes s) (rb_nodes s1)"
    and b: "if d = Black then short t n \<and> kbal k (Suc n)
      else bal t n \<and> kbal k n \<and> rbcol t = Black"
    unfolding unlinked_def by blast
  show ?thesis
  proof (cases d)
    case Red
    with b have "\<exists>m. bal (plug k t) m" "rbcol (plug k t) = Black"
      using bal_plugI [of t n k] kbal_root_black [of k n] by (cases "k = []"; auto)+
    then have "rbt_ok (plug k t)" by (auto intro: rbt_okI)
    with Red z rep a fr show ?thesis by (auto simp: RB_RED_def RB_BLACK_def)
  next
    case Black
    with b erase_color_rep [OF repf_start [OF rep], of n] obtain s' where
      s': "rb_erase_color (rootp t) (kptr k) s1 = Some s'" "er_done (rb_nodes s1) (addrs (plug k t)) s'"
      by auto
    then obtain t' where t': "repf (rb_nodes s1) s' t'" "addrs t' = ys" "rbt_ok t'"
      using a by (auto simp: er_done_def)
    have "agree_on (- set xs) (rb_nodes s1) (rb_nodes s')"
      using t' ys by (auto simp: repf_def intro: agree_on_mono)
    with fr have "agree_on (- set xs) (rb_nodes s) (rb_nodes s')"
      by (rule agree_on_trans)
    with s' t' Black z show ?thesis by (auto simp: repf_def)
  qed
qed

text \<open>The whole function.\<close>

lemma erase_rep:
  assumes rep: "rep s (plug k (Node l x c r))" and ok: "rbt_ok (plug k (Node l x c r))"
  shows "\<exists>s' t. rb_erase x s = Some s' \<and> rep s' t \<and>
    addrs t = pre k @ addrs l @ addrs r @ post k \<and> rbt_ok t \<and>
    agree_on (- set (addrs (plug k (Node l x c r)))) (rb_nodes s) (rb_nodes s')"
proof -
  let ?xs = "addrs (plug k (Node l x c r))"
  let ?ys = "pre k @ addrs l @ addrs r @ post k"
  have z: "NULL \<notin> set (addrs l)" "NULL \<notin> set (addrs r)"
    using rep by (auto simp: rep_plug good_def)
  have nz: "rootp l = NULL \<longleftrightarrow> l = Leaf" "rootp r = NULL \<longleftrightarrow> r = Leaf"
    using z by (auto simp: rootp_Leaf_iff)
  have "\<exists>z. (if rootp l = NULL then erase_splice x (rootp r) s
      else if rootp r = NULL then erase_splice x (rootp l) s
      else erase_successor x s) = Some z \<and> unlinked s ?xs ?ys z"
    using erase_splice_rep [OF rep ok, of r] erase_splice_rep [OF rep ok, of l]
      erase_successor_rep [OF rep ok] nz by (cases "l = Leaf"; cases "r = Leaf") auto
  then obtain child parent color s1 where
    s1: "(if rootp l = NULL then erase_splice x (rootp r) s
      else if rootp r = NULL then erase_splice x (rootp l) s
      else erase_successor x s) = Some (child, parent, color, s1)"
      "unlinked s ?xs ?ys (child, parent, color, s1)"
    by (metis prod_cases4)
  have "set ?ys \<subseteq> set ?xs"
    by (auto simp: addrs_plug)
  from unlinked_finish [OF s1(2) this] show ?thesis
    using s1(1) rep_reads(1,2) [OF rep] by (auto simp: rb_erase_def)
qed

end
