(* ===== verification/Rb_Walk.thy ===== *)
theory Rb_Walk
  imports Rb_Erase
begin

text \<open>
  The read-only half of the red-black tree (\<open>rb_first\<close>, \<open>rb_last\<close>, \<open>rb_next\<close>, \<open>rb_prev\<close>),
  \<open>rb_link_node\<close> and \<open>rb_replace_node\<close>: each against the list of the addresses in tree
  order. Also the slots: every gap of that list is one NULL child field (or the empty root).
\<close>

section \<open>Ends of the tree\<close>

lemma leftmost_hd:
  assumes "rep s (plug k t)" "t \<noteq> Leaf"
  shows "loop (leftmost_round s) (rootp t) = Some (hd (addrs t))"
proof -
  from leftmost_rep [OF assms] obtain kr y d u where
    t: "t = plug kr (Node Leaf y d u)" "list_all left_frame kr"
    and res: "loop (leftmost_round s) (rootp t) = Some y" by blast
  have "pre kr = []"
    using left_frames_pre [OF t(2), of "[]"] by simp
  with t(1) res show ?thesis by (simp add: addrs_plug)
qed

lemma rightmost_last:
  "rep s (plug k t) \<Longrightarrow> t \<noteq> Leaf \<Longrightarrow>
   loop (rightmost_round s) (rootp t) = Some (last (addrs t))"
proof (induction t arbitrary: k)
  case (Node l a c r)
  have right: "right_of a s = Some (rootp r)"
    using rep_reads(2) [OF Node.prems(1)] .
  show ?case
  proof (cases "r = Leaf")
    case True
    with right show ?thesis by (simp add: rightmost_round_def)
  next
    case False
    have "rep s (plug (RF l a c # k) r)"
      using Node.prems(1) by simp
    note IH = Node.IH(2) [OF this False]
    have "rootp r \<noteq> NULL"
      using False Node.prems(1) by (cases r) (auto simp: rep_plug good_def)
    with right have "loop (rightmost_round s) a = loop (rightmost_round s) (rootp r)"
      by (simp add: rightmost_round_def)
    with IH False show ?thesis by simp
  qed
qed simp

lemma rep_root_NULL: "rep s t \<Longrightarrow> rootp t = NULL \<longleftrightarrow> t = Leaf"
  by (rule rootp_Leaf_iff) (auto simp: rep_def good_def)

lemma rep_sub_NULL: "rep s (plug k t) \<Longrightarrow> rootp t = NULL \<longleftrightarrow> t = Leaf"
  by (rule rootp_Leaf_iff) (auto simp: rep_plug good_def)

lemma rb_first_rep:
  assumes "rep s t"
  shows "rb_first s = Some (hd (addrs t @ [NULL]))"
proof -
  have "rb_root_node s = rootp t"
    using assms by (simp add: rep_def)
  with leftmost_hd [of s "[]" t] rep_root_NULL [OF assms] assms show ?thesis
    by (cases "t = Leaf") (auto simp: rb_first_def hd_append Let_def)
qed

lemma rb_last_rep:
  assumes "rep s t"
  shows "rb_last s = Some (last (NULL # addrs t))"
proof -
  have "rb_root_node s = rootp t"
    using assms by (simp add: rep_def)
  with rightmost_last [of s "[]" t] rep_root_NULL [OF assms] assms show ?thesis
    by (cases "t = Leaf") (auto simp: rb_last_def Let_def)
qed

section \<open>Neighbours\<close>

lemma next_up_rep:
  "rep s (plug k t) \<Longrightarrow> t \<noteq> Leaf \<Longrightarrow>
   loop (next_up_round s) (rootp t) = Some (hd (post k @ [NULL]))"
proof (induction k arbitrary: t rule: pre.induct)
  case 1
  then obtain l a c r where t: "t = Node l a c r" by (cases t) auto
  with 1 rep_reads(3) [of s "[]" l a c r] show ?case by (simp add: next_up_round_def)
next
  case (2 b d u k)
  then obtain l a c r where t: "t = Node l a c r" by (cases t) auto
  have par: "parent_of a s = Some b"
    using rep_reads(3) [of s "LF b d u # k" l a c r] 2 t by simp
  have ri: "right_of b s = Some (rootp u)"
    using rep_reads(2) [of s k t b d u] 2 by simp
  have "b \<noteq> NULL" "rootp u \<noteq> a"
    using 2(2) t rootp_in_addrs [of u] by (cases "u = Leaf"; auto simp: rep_plug good_def)+
  with par ri t show ?case by (simp add: next_up_round_def)
next
  case (3 u b d k)
  then obtain l a c r where t: "t = Node l a c r" by (cases t) auto
  have par: "parent_of a s = Some b"
    using rep_reads(3) [of s "RF u b d # k" l a c r] 3 t by simp
  have ri: "right_of b s = Some a"
    using rep_reads(2) [of s k u b d t] 3 t by simp
  have "b \<noteq> NULL"
    using 3(2) t by (auto simp: rep_plug good_def)
  with par ri have "loop (next_up_round s) a = loop (next_up_round s) b"
    by (simp add: next_up_round_def)
  with 3(1) [of "Node u b d t"] 3(2) t show ?case by simp
qed

lemma prev_up_rep:
  "rep s (plug k t) \<Longrightarrow> t \<noteq> Leaf \<Longrightarrow>
   loop (prev_up_round s) (rootp t) = Some (last (NULL # pre k))"
proof (induction k arbitrary: t rule: pre.induct)
  case 1
  then obtain l a c r where t: "t = Node l a c r" by (cases t) auto
  with 1 rep_reads(3) [of s "[]" l a c r] show ?case by (simp add: prev_up_round_def)
next
  case (2 b d u k)
  then obtain l a c r where t: "t = Node l a c r" by (cases t) auto
  have par: "parent_of a s = Some b"
    using rep_reads(3) [of s "LF b d u # k" l a c r] 2 t by simp
  have le: "left_of b s = Some a"
    using rep_reads(1) [of s k t b d u] 2 t by simp
  have "b \<noteq> NULL"
    using 2(2) t by (auto simp: rep_plug good_def)
  with par le have "loop (prev_up_round s) a = loop (prev_up_round s) b"
    by (simp add: prev_up_round_def)
  with 2(1) [of "Node t b d u"] 2(2) t show ?case by simp
next
  case (3 u b d k)
  then obtain l a c r where t: "t = Node l a c r" by (cases t) auto
  have par: "parent_of a s = Some b"
    using rep_reads(3) [of s "RF u b d # k" l a c r] 3 t by simp
  have le: "left_of b s = Some (rootp u)"
    using rep_reads(1) [of s k u b d t] 3 by simp
  have "b \<noteq> NULL" "rootp u \<noteq> a"
    using 3(2) t rootp_in_addrs [of u] by (cases "u = Leaf"; auto simp: rep_plug good_def)+
  with par le t show ?case by (simp add: prev_up_round_def)
qed

lemma kptr_not_self:
  assumes "rep s (plug k (Node l a c r))"
  shows "kptr k \<noteq> a"
  using rep_node(2) [OF assms] assms kptr_in [of k]
  by (cases "k = []") (auto simp: rep_plug good_def)

lemma rb_next_focus:
  assumes rep: "rep s (plug k (Node l a c r))"
  shows "rb_next a s = Some (hd (addrs r @ post k @ [NULL]))"
proof -
  note nz = kptr_not_self [OF rep] rep_reads(2,3) [OF rep]
  have rep_r: "rep s (plug (RF l a c # k) r)"
    using rep by simp
  show ?thesis
  proof (cases "r = Leaf")
    case True
    with nz next_up_rep [OF rep] show ?thesis by (simp add: rb_next_def)
  next
    case False
    with nz leftmost_hd [OF rep_r] rep_sub_NULL [OF rep_r] show ?thesis
      by (simp add: rb_next_def hd_append)
  qed
qed

lemma rb_prev_focus:
  assumes rep: "rep s (plug k (Node l a c r))"
  shows "rb_prev a s = Some (last (NULL # pre k @ addrs l))"
proof -
  note nz = kptr_not_self [OF rep] rep_reads(1,3) [OF rep]
  have rep_l: "rep s (plug (LF a c r # k) l)"
    using rep by simp
  show ?thesis
  proof (cases "l = Leaf")
    case True
    with nz prev_up_rep [OF rep] show ?thesis by (simp add: rb_prev_def)
  next
    case False
    with nz rightmost_last [OF rep_l] rep_sub_NULL [OF rep_l] show ?thesis
      by (simp add: rb_prev_def)
  qed
qed

text \<open>A node of the tree and its place in the list of addresses.\<close>

lemma distinct_middle:
  "distinct (xs @ x # ys) \<Longrightarrow> xs @ x # ys = xs' @ x # ys' \<Longrightarrow> xs = xs' \<and> ys = ys'"
  by (metis append_Cons_eq_iff distinct_append distinct.simps(2) disjoint_iff list.set_intros(1))

lemma focus_at:
  assumes "rep s t" and "addrs t = xs @ x # ys"
  shows "\<exists>k l c r. t = plug k (Node l x c r) \<and> xs = pre k @ addrs l \<and> ys = addrs r @ post k"
proof -
  have "x \<in> set (addrs t)"
    using assms(2) by simp
  then obtain k l c r where t: "t = plug k (Node l x c r)"
    using focus_exists by blast
  then have "addrs t = (pre k @ addrs l) @ x # addrs r @ post k"
    by (simp add: addrs_plug)
  moreover have "distinct (addrs t)"
    using assms(1) by (simp add: rep_def good_def)
  ultimately have "xs = pre k @ addrs l \<and> ys = addrs r @ post k"
    using assms(2) distinct_middle by metis
  with t show ?thesis by blast
qed

lemma rb_next_rep:
  "rep s t \<Longrightarrow> addrs t = xs @ x # ys \<Longrightarrow> rb_next x s = Some (hd (ys @ [NULL]))"
  using focus_at [of s t xs x ys] rb_next_focus [of s] by auto

lemma rb_prev_rep:
  "rep s t \<Longrightarrow> addrs t = xs @ x # ys \<Longrightarrow> rb_prev x s = Some (last (NULL # xs))"
  using focus_at [of s t xs x ys] rb_prev_focus [of s] by (auto simp del: last.simps)

section \<open>Gaps and slots\<close>

text \<open>The address the caller of \<open>rb_link_node\<close> passes for the hole of a zipper.\<close>

fun kslot :: "frame list \<Rightarrow> rb_slot" where
  "kslot [] = Root_slot"
| "kslot (LF a c r # k) = Left_slot a"
| "kslot (RF l a c # k) = Right_slot a"

lemma pre_append: "pre (k @ k') = pre k' @ pre k"
  by (induction k rule: pre.induct) auto

lemma gap_exists:
  "addrs t = xs @ ys \<Longrightarrow> \<exists>k. t = plug k Leaf \<and> pre k = xs \<and> post k = ys"
proof (induction t arbitrary: xs ys)
  case Leaf
  then show ?case by (intro exI [of _ "[]"]) auto
next
  case (Node l a c r)
  from Node.prems consider (L) zs where "addrs l = xs @ zs" "ys = zs @ a # addrs r"
    | (R) zs where "xs = addrs l @ a # zs" "addrs r = zs @ ys"
    by (fastforce simp: append_eq_append_conv2 Cons_eq_append_conv)
  then show ?case
  proof cases
    case L
    from Node.IH(1) [OF L(1)] obtain k where
      "l = plug k Leaf" "pre k = xs" "post k = zs" by blast
    with L(2) show ?thesis
      by (intro exI [of _ "k @ [LF a c r]"]) (auto simp: plug_append pre_append post_append)
  next
    case R
    from Node.IH(2) [OF R(2)] obtain k where
      "r = plug k Leaf" "pre k = zs" "post k = ys" by blast
    with R(1) show ?thesis
      by (intro exI [of _ "k @ [RF l a c]"]) (auto simp: plug_append pre_append post_append)
  qed
qed

lemma link_node_rep:
  assumes rep: "rep s (plug k Leaf)" and x: "good (x # addrs (plug k Leaf))"
    and mem: "rb_nodes s x = Some v"
  shows "\<exists>s'. rb_link_node x (kptr k) (kslot k) s = Some s' \<and>
    rep s' (plug k (Node Leaf x Red Leaf)) \<and>
    agree_on (- set (x # addrs (plug k Leaf))) (rb_nodes s) (rb_nodes s')"
proof (cases k rule: pre.cases)
  case 1
  with assms show ?thesis
    by (auto simp: rb_link_node_def store_slot_def rb_ops rep_def good_def mk_def RB_RED_def
        agree_on_def)
next
  case (2 a c r k')
  have "rootp (plug k' (Node Leaf a c r)) = rootp (plug k' (Node (Node Leaf x Red Leaf) a c r))"
    by (rule rootp_plug_same) simp
  with 2 assms show ?thesis
    by (auto simp: rb_link_node_def store_slot_def rb_ops rep_plug addrs_plug good_def mk_def
        RB_RED_def agree_on_def)
next
  case (3 l a c k')
  have "rootp (plug k' (Node l a c Leaf)) = rootp (plug k' (Node l a c (Node Leaf x Red Leaf)))"
    by (rule rootp_plug_same) simp
  with 3 assms show ?thesis
    by (auto simp: rb_link_node_def store_slot_def rb_ops rep_plug addrs_plug good_def mk_def
        RB_RED_def agree_on_def)
qed

section \<open>\<open>rb_replace_node\<close>\<close>

lemma replace_node_focus:
  assumes rep: "rep s (plug k (Node l x c r))"
    and y: "y \<notin> set (addrs (plug k (Node l x c r)))" "y \<noteq> NULL" "aligned4 y"
      "rb_nodes s y = Some v"
  shows "\<exists>s'. rb_replace_node x y s = Some s' \<and> repf (rb_nodes s) s' (plug k (Node l y c r))"
proof -
  let ?h = "rb_nodes s"
  let ?Y = "mk (kptr k) c (rootp l) (rootp r)"
  have good: "good (pre k @ addrs l @ x # addrs r @ post k)"
    using rep by (simp add: rep_plug)
  have hx: "?h x = Some ?Y" "x \<noteq> NULL" "x \<noteq> y" "aligned4 x" "aligned4 (kptr k)"
    using rep y(1) good_kptr [of k "addrs (Node l x c r)"] by (auto simp: rep_plug good_def addrs_plug)
  have d: "set (addrs l) \<inter> set (addrs r) = {}"
      "x \<notin> set (pre k) \<union> set (post k)" "x \<notin> set (addrs l)" "x \<notin> set (addrs r)"
      "NULL \<notin> set (pre k) \<union> set (post k)" "NULL \<notin> set (addrs l)" "NULL \<notin> set (addrs r)"
      "set (addrs l) \<inter> (set (pre k) \<union> set (post k)) = {}"
      "set (addrs r) \<inter> (set (pre k) \<union> set (post k)) = {}"
    using good by (auto simp: good_def)
  have n: "y \<notin> set (pre k) \<union> set (post k)" "y \<notin> set (addrs l)" "y \<notin> set (addrs r)"
    using y(1) by (auto simp: addrs_plug)
  have reps: "rbrep ?h x l" "rbrep ?h x r" "krep ?h x k"
    using rep by (auto simp: rep_plug)
  obtain s2 where s2: "change_child (kptr k) x y s = Some s2"
      "rb_nodes s2 = relink k y ?h" "rb_root_node s2 = (if k = [] then y else rb_root_node s)"
    using change_child_eval [of s x k y] reps d hx by auto
  have h2: "rb_nodes s2 x = Some ?Y" "rbrep (rb_nodes s2) x l" "rbrep (rb_nodes s2) x r"
    using s2(2) d hx reps by auto
  let ?s3 = "s2\<lparr>rb_nodes := adopt y l (rb_nodes s2)\<rparr>"
  have s3: "(if rootp l \<noteq> NULL then rb_set_parent (rootp l) y s2 else Some s2) = Some ?s3"
    using set_parent_adopt [of s2 x l y] h2 hx d by simp
  have h3: "rb_nodes ?s3 x = Some ?Y" "rbrep (rb_nodes ?s3) x r"
    using h2 d by auto
  let ?s4 = "?s3\<lparr>rb_nodes := adopt y r (rb_nodes ?s3)\<rparr>"
  have s4: "(if rootp r \<noteq> NULL then rb_set_parent (rootp r) y ?s3 else Some ?s3) = Some ?s4"
    using set_parent_adopt [of ?s3 x r y] h3(2) hx(4) d(7) by simp
  have h4: "rb_nodes ?s4 x = Some ?Y" "rb_nodes ?s4 y = Some v"
    using h3 d n y(4) s2(2) by auto
  let ?s5 = "?s4\<lparr>rb_nodes := (rb_nodes ?s4)(y \<mapsto> ?Y)\<rparr>"
  have rd: "parent_of x s = Some (kptr k)" "left_of x s2 = Some (rootp l)"
      "right_of x ?s3 = Some (rootp r)" "get_node x ?s4 = Some ?Y"
    using h2(1) h3(1) h4(1) hx(2) rep_reads(3) [OF rep]
    by (simp_all add: left_of_def right_of_def get_node_def)
  have s5: "set_node (\<lambda>_. ?Y) y ?s4 = Some ?s5"
    using h4(2) y(2) by (simp add: set_node_def)
  have "rb_replace_node x y s = Some ?s5"
    unfolding rb_replace_node_def rd s2(1) Option.bind.bind_lunit s3 s4 s5 ..
  moreover have "repf ?h ?s5 (plug k (Node l y c r))"
    using s2(2,3) n by (intro replaced_rep [OF rep y(1-3)]) simp_all
  ultimately show ?thesis by blast
qed

section \<open>Height\<close>

fun rbheight :: "rbt \<Rightarrow> nat" where
  "rbheight Leaf = 0"
| "rbheight (Node l a c r) = Suc (max (rbheight l) (rbheight r))"

lemma bal_height:
  "bal t n \<Longrightarrow> rbheight t \<le> 2 * n + (if rbcol t = Red then 1 else 0)"
proof (induction t arbitrary: n)
  case (Node l a c r)
  show ?case
  proof (cases c)
    case Red
    with Node.prems have "bal l n" "bal r n" "rbcol l = Black" "rbcol r = Black" by simp_all
    with Node.IH(1) [of n] Node.IH(2) [of n] Red show ?thesis by simp
  next
    case Black
    with Node.prems obtain m where "n = Suc m" "bal l m" "bal r m" by (cases n) auto
    with Node.IH(1) [of m] Node.IH(2) [of m] Black show ?thesis by (auto split: if_splits)
  qed
qed simp

lemma bal_size: "bal t n \<Longrightarrow> 2 ^ n \<le> length (addrs t) + 1"
proof (induction t arbitrary: n)
  case (Node l a c r)
  show ?case
  proof (cases c)
    case Red
    with Node.prems have "bal l n" by simp
    with Node.IH(1) [of n] show ?thesis by simp
  next
    case Black
    with Node.prems obtain m where "n = Suc m" "bal l m" "bal r m" by (cases n) auto
    with Node.IH(1) [of m] Node.IH(2) [of m] show ?thesis by simp
  qed
qed simp

lemma rbt_ok_height: "rbt_ok t \<Longrightarrow> 2 ^ rbheight t \<le> (length (addrs t) + 1)\<^sup>2"
proof -
  assume ok: "rbt_ok t"
  then have "rbheight t \<le> 2 * bh t"
    using bal_height [of t "bh t"] by (auto simp: rbt_ok_def)
  then have "(2::nat) ^ rbheight t \<le> (2 ^ bh t)\<^sup>2"
    by (metis power_mult power_increasing one_le_numeral mult.commute)
  also have "\<dots> \<le> (length (addrs t) + 1)\<^sup>2"
    using ok bal_size [of t "bh t"] by (intro power_mono) (auto simp: rbt_ok_def)
  finally show ?thesis .
qed

end
