(* ===== verification/Hmp_Index.thy ===== *)
theory Hmp_Index
  imports Hmp_Prelude
begin

text \<open>
  The two interfaces the containers of the program offer, the red-black tree and the
  circular list alike: a sequence that can be walked from end to end by pointer steps
  (\<open>walkable\<close>), and a sequence that a node can be linked into at any gap and unlinked from
  (\<open>gap_index\<close>). What clients rely on (a walk visits every node once and in order, sorted
  insertion keeps the order, a draining loop empties the container) is proved here once,
  and holds of each container by interpretation.
\<close>

section \<open>Loops over a container\<close>

text \<open>
  \<open>for (p = start; p != stop; p = step(p))\<close>, collecting the positions it visits. The fuel
  is the number of times the loop's condition is evaluated.
\<close>

primrec visit :: "nat \<Rightarrow> (ptr \<Rightarrow> ptr option) \<Rightarrow> ptr \<Rightarrow> ptr \<Rightarrow> ptr list option" where
  "visit 0 step stop p = None"
| "visit (Suc n) step stop p =
     (if p = stop then Some []
      else do { q \<leftarrow> step p; ps \<leftarrow> visit n step stop q; Some (p # ps) })"

text \<open>A loop body run once for every element of a list, threading the state.\<close>

primrec each :: "('a \<Rightarrow> 's \<Rightarrow> 's option) \<Rightarrow> 'a list \<Rightarrow> 's \<Rightarrow> 's option" where
  "each f [] s = Some s"
| "each f (x # xs) s = do { s \<leftarrow> f x s; each f xs s }"

text \<open>The place of a key in a sorted sequence: after every element that is not greater.\<close>

definition split_at :: "('a \<Rightarrow> 'k :: linorder) \<Rightarrow> 'k \<Rightarrow> 'a list \<Rightarrow> 'a list \<times> 'a list" where
  "split_at key v xs =
     (takeWhile (\<lambda>y. key y \<le> v) xs, dropWhile (\<lambda>y. key y \<le> v) xs)"

definition insert_sorted :: "('a \<Rightarrow> 'k :: linorder) \<Rightarrow> 'a \<Rightarrow> 'a list \<Rightarrow> 'a list" where
  "insert_sorted key x xs =
     (case split_at key (key x) xs of (ys, zs) \<Rightarrow> ys @ x # zs)"

lemma split_at_append: "split_at key v xs = (ys, zs) \<Longrightarrow> ys @ zs = xs"
  by (auto simp: split_at_def)

lemma insert_sorted_Nil [simp]: "insert_sorted key x [] = [x]"
  by (simp add: insert_sorted_def split_at_def)

lemma insert_sorted_Cons [simp]:
  "insert_sorted key x (y # ys) =
     (if key y \<le> key x then y # insert_sorted key x ys else x # y # ys)"
  by (simp add: insert_sorted_def split_at_def)

lemma insert_sorted_set [simp]: "set (insert_sorted key x xs) = insert x (set xs)"
  by (induction xs) auto

lemma insert_sorted_length [simp]: "length (insert_sorted key x xs) = Suc (length xs)"
  by (induction xs) auto

lemma insert_sorted_distinct:
  "distinct xs \<Longrightarrow> x \<notin> set xs \<Longrightarrow> distinct (insert_sorted key x xs)"
  by (induction xs) auto

lemma insert_sorted_sorted:
  "sorted (map key xs) \<Longrightarrow> sorted (map key (insert_sorted key x xs))"
  by (induction xs) auto

section \<open>Walking\<close>

locale walkable =
  fixes elems :: "'s \<Rightarrow> ptr list \<Rightarrow> bool"
    and start :: "'s \<Rightarrow> ptr option"
    and step :: "'s \<Rightarrow> ptr \<Rightarrow> ptr option"
    and stop :: ptr
  assumes stop_new: "elems s xs \<Longrightarrow> stop \<notin> set xs"
    and start_hd: "elems s xs \<Longrightarrow> start s = Some (hd (xs @ [stop]))"
    and step_hd: "elems s (xs @ x # ys) \<Longrightarrow> step s x = Some (hd (ys @ [stop]))"
begin

lemma visit_rest:
  "elems s (xs @ ys) \<Longrightarrow> length ys < n \<Longrightarrow>
   visit n (step s) stop (hd (ys @ [stop])) = Some ys"
proof (induction ys arbitrary: xs n)
  case Nil
  then obtain m where "n = Suc m" by (cases n) auto
  then show ?case by simp
next
  case (Cons y ys)
  then obtain m where n: "n = Suc m" by (cases n) auto
  have "elems s ((xs @ [y]) @ ys)"
    using Cons.prems(1) by simp
  with Cons.IH [of "xs @ [y]" m] Cons.prems(2) n
  have "visit m (step s) stop (hd (ys @ [stop])) = Some ys" by simp
  moreover have "y \<noteq> stop"
    using stop_new [OF Cons.prems(1)] by auto
  ultimately show ?case
    using n step_hd [OF Cons.prems(1)] by simp
qed

lemma visit_all:
  assumes "elems s xs" "length xs < n"
  shows "Option.bind (start s) (visit n (step s) stop) = Some xs"
  using visit_rest [of s "[]" xs n] start_hd [of s xs] assms by simp

lemma elems_unique:
  assumes "elems s xs" "elems s ys"
  shows "xs = ys"
  using visit_all [OF assms(1), of "Suc (length xs + length ys)"]
    visit_all [OF assms(2), of "Suc (length xs + length ys)"] by simp

end

section \<open>Linking and unlinking\<close>

locale gap_index =
  fixes holds :: "'s \<Rightarrow> ptr list \<Rightarrow> bool"
    and fresh :: "'s \<Rightarrow> ptr \<Rightarrow> bool"
    and gap :: "'s \<Rightarrow> ptr list \<Rightarrow> ptr list \<Rightarrow> 'h \<Rightarrow> bool"
    and link :: "ptr \<Rightarrow> 'h \<Rightarrow> 's \<Rightarrow> 's option"
    and unlink :: "ptr \<Rightarrow> 's \<Rightarrow> 's option"
  assumes gap_ex: "holds s (xs @ ys) \<Longrightarrow> \<exists>h. gap s xs ys h"
    and link_ok: "gap s xs ys h \<Longrightarrow> fresh s x \<Longrightarrow> x \<notin> set (xs @ ys) \<Longrightarrow>
      \<exists>s'. link x h s = Some s' \<and> holds s' (xs @ x # ys)"
    and unlink_ok: "holds s (xs @ x # ys) \<Longrightarrow>
      \<exists>s'. unlink x s = Some s' \<and> holds s' (xs @ ys)"
begin

lemma link_sorted:
  assumes "holds s xs" "fresh s x" "x \<notin> set xs"
  shows "\<exists>h s'. link x h s = Some s' \<and> holds s' (insert_sorted key x xs)"
proof -
  obtain ys zs where sp: "split_at key (key x) xs = (ys, zs)" by (cases "split_at key (key x) xs")
  then have xs: "xs = ys @ zs" using split_at_append by metis
  with assms gap_ex [of s ys zs] obtain h where "gap s ys zs h" by blast
  from link_ok [OF this assms(2)] assms(3) xs obtain s' where
    "link x h s = Some s'" "holds s' (ys @ x # zs)" by auto
  with sp show ?thesis by (auto simp: insert_sorted_def)
qed

lemma unlink_mem:
  assumes "holds s xs" "x \<in> set xs" "distinct xs"
  shows "\<exists>s'. unlink x s = Some s' \<and> holds s' (remove1 x xs)"
proof -
  from assms(2) obtain ys zs where xs: "xs = ys @ x # zs" by (auto dest: split_list)
  with assms(3) have "remove1 x xs = ys @ zs" by (simp add: remove1_append)
  with unlink_ok [of s ys x zs] assms(1) xs show ?thesis by simp
qed

lemma unlink_link:
  assumes "gap s xs ys h" "fresh s x" "x \<notin> set (xs @ ys)"
  shows "\<exists>s1 s2. link x h s = Some s1 \<and> unlink x s1 = Some s2 \<and> holds s2 (xs @ ys)"
  using link_ok [OF assms] unlink_ok by blast

text \<open>Unlinking one element after the other: the clean-up loops.\<close>

lemma drain:
  "holds s (xs @ ys) \<Longrightarrow> \<exists>s'. each unlink xs s = Some s' \<and> holds s' ys"
proof (induction xs arbitrary: s)
  case (Cons x xs)
  then obtain s1 where "unlink x s = Some s1" "holds s1 (xs @ ys)"
    using unlink_ok [of s "[]" x "xs @ ys"] by auto
  with Cons.IH show ?case by auto
qed simp

end

end
