(* ===== verification/Rb_Tree.thy ===== *)
theory Rb_Tree
  imports Rb_Walk Hmp_Index
begin

text \<open>
  The contract of the red-black tree, over the predicate \<open>rb_tree s xs\<close>: the pointers of
  \<open>s\<close> spell a balanced tree whose nodes are, in order, \<open>xs\<close>. The tree is an interpretation
  of both container interfaces of \<open>Hmp_Index\<close>.
\<close>

definition rb_tree :: "rb_state \<Rightarrow> ptr list \<Rightarrow> bool" where
  "rb_tree s xs \<longleftrightarrow> (\<exists>t. rep s t \<and> rbt_ok t \<and> addrs t = xs)"

text \<open>A node object of the client that is not in a tree yet.\<close>

definition rb_fresh :: "rb_state \<Rightarrow> ptr \<Rightarrow> bool" where
  "rb_fresh s x \<longleftrightarrow> x \<noteq> NULL \<and> aligned4 x \<and> rb_nodes s x \<noteq> None"

text \<open>
  \<open>rb_gap s xs ys h\<close>: the pair \<open>h\<close> of a parent and a slot, as \<open>rb_link_node\<close> takes them, is
  the place between \<open>xs\<close> and \<open>ys\<close>.
\<close>

definition rb_gap :: "rb_state \<Rightarrow> ptr list \<Rightarrow> ptr list \<Rightarrow> ptr \<times> rb_slot \<Rightarrow> bool" where
  "rb_gap s xs ys h \<longleftrightarrow> (\<exists>k. rep s (plug k Leaf) \<and> rbt_ok (plug k Leaf) \<and>
     pre k = xs \<and> post k = ys \<and> h = (kptr k, kslot k))"

text \<open>What the header asks of a client: link the node, then rebalance.\<close>

definition rb_insert_at :: "ptr \<Rightarrow> ptr \<times> rb_slot \<Rightarrow> rb_state \<Rightarrow> rb_state option" where
  "rb_insert_at x = (\<lambda>(parent, slot) s. do {
     s \<leftarrow> rb_link_node x parent slot s;
     rb_insert_color x s })"

lemma rb_tree_good: "rb_tree s xs \<Longrightarrow> good xs"
  by (auto simp: rb_tree_def rep_def)

lemma rb_tree_distinct: "rb_tree s xs \<Longrightarrow> distinct xs"
  using rb_tree_good by (auto simp: good_def)

lemma rb_insert_at_gap:
  assumes "rb_gap s xs ys h" "rb_fresh s x" "x \<notin> set (xs @ ys)"
  shows "\<exists>s'. rb_insert_at x h s = Some s' \<and> rb_tree s' (xs @ x # ys) \<and>
    agree_on (- set (xs @ x # ys)) (rb_nodes s) (rb_nodes s')"
proof -
  from assms(1) obtain k where k: "rep s (plug k Leaf)" "rbt_ok (plug k Leaf)"
      "pre k = xs" "post k = ys" "h = (kptr k, kslot k)"
    by (auto simp: rb_gap_def)
  then have "good (x # addrs (plug k Leaf))"
    using assms(2,3) by (auto simp: rb_fresh_def good_def rep_def addrs_plug)
  with link_node_rep [OF k(1)] assms(2) obtain s1 where s1:
    "rb_link_node x (kptr k) (kslot k) s = Some s1" "rep s1 (plug k (Node Leaf x Red Leaf))"
    "agree_on (- set (x # addrs (plug k Leaf))) (rb_nodes s) (rb_nodes s1)"
    by (auto simp: rb_fresh_def)
  from insert_color_rep [OF s1(2) k(2)] obtain s2 t where s2:
    "rb_insert_color x s1 = Some s2" "repf (rb_nodes s1) s2 t"
    "addrs t = pre k @ x # post k" "rbt_ok t" by blast
  have "agree_on (- set (xs @ x # ys)) (rb_nodes s) (rb_nodes s1)"
    using s1(3) k(3,4) by (auto simp: addrs_plug intro: agree_on_mono)
  moreover have "agree_on (- set (xs @ x # ys)) (rb_nodes s1) (rb_nodes s2)"
    using s2(2,3) k(3,4) by (auto simp: repf_def)
  ultimately have "agree_on (- set (xs @ x # ys)) (rb_nodes s) (rb_nodes s2)"
    by (rule agree_on_trans)
  with s1(1) s2 k(3-5) show ?thesis
    by (auto simp: rb_insert_at_def rb_tree_def repf_def)
qed

lemma rb_erase_at:
  assumes "rb_tree s (xs @ x # ys)"
  shows "\<exists>s'. rb_erase x s = Some s' \<and> rb_tree s' (xs @ ys) \<and>
    agree_on (- set (xs @ x # ys)) (rb_nodes s) (rb_nodes s')"
proof -
  from assms obtain t where t: "rep s t" "rbt_ok t" "addrs t = xs @ x # ys"
    by (auto simp: rb_tree_def)
  from focus_at [OF t(1,3)] obtain k l c r where
    k: "t = plug k (Node l x c r)" "xs = pre k @ addrs l" "ys = addrs r @ post k" by blast
  from erase_rep [of s k l x c r] t k(1) obtain s' t' where
    "rb_erase x s = Some s'" "rep s' t'" "addrs t' = pre k @ addrs l @ addrs r @ post k"
    "rbt_ok t'" "agree_on (- set (addrs t)) (rb_nodes s) (rb_nodes s')" by auto
  with t(3) k show ?thesis by (auto simp: rb_tree_def)
qed

lemma rb_gap_ex: "rb_tree s (xs @ ys) \<Longrightarrow> \<exists>h. rb_gap s xs ys h"
proof -
  assume "rb_tree s (xs @ ys)"
  then obtain t where t: "rep s t" "rbt_ok t" "addrs t = xs @ ys"
    by (auto simp: rb_tree_def)
  from gap_exists [OF t(3)] obtain k where "t = plug k Leaf" "pre k = xs" "post k = ys" by blast
  with t show ?thesis unfolding rb_gap_def by blast
qed

section \<open>The interfaces\<close>

interpretation rbidx: gap_index rb_tree rb_fresh rb_gap rb_insert_at rb_erase
proof unfold_locales
  show "rb_tree s (xs @ ys) \<Longrightarrow> \<exists>h. rb_gap s xs ys h" for s xs ys
    by (rule rb_gap_ex)
next
  fix s xs ys h x
  assume "rb_gap s xs ys h" "rb_fresh s x" "x \<notin> set (xs @ ys)"
  from rb_insert_at_gap [OF this]
  show "\<exists>s'. rb_insert_at x h s = Some s' \<and> rb_tree s' (xs @ x # ys)" by blast
next
  fix s xs x ys
  assume "rb_tree s (xs @ x # ys)"
  from rb_erase_at [OF this]
  show "\<exists>s'. rb_erase x s = Some s' \<and> rb_tree s' (xs @ ys)" by blast
qed

lemma rb_tree_NULL: "rb_tree s xs \<Longrightarrow> NULL \<notin> set xs"
  using rb_tree_good by (auto simp: good_def)

interpretation rbfwd: walkable rb_tree rb_first "\<lambda>s x. rb_next x s" NULL
  by unfold_locales (auto simp: rb_tree_NULL rb_tree_def rb_first_rep intro!: rb_next_rep)

lemma last_rev_hd: "last (x # rev xs) = hd (xs @ [x])"
  by (induction xs) auto

interpretation rbbwd: walkable "\<lambda>s xs. rb_tree s (rev xs)" rb_last "\<lambda>s x. rb_prev x s" NULL
proof unfold_locales
  show "rb_tree s (rev xs) \<Longrightarrow> NULL \<notin> set xs" for s xs
    using rb_tree_NULL [of s "rev xs"] by simp
  show "rb_tree s (rev xs) \<Longrightarrow> rb_last s = Some (hd (xs @ [NULL]))" for s xs
    by (auto simp: rb_tree_def rb_last_rep last_rev_hd simp del: last.simps)
  show "rb_tree s (rev (xs @ x # ys)) \<Longrightarrow> rb_prev x s = Some (hd (ys @ [NULL]))" for s xs x ys
    using rb_prev_rep [of s _ "rev ys" x "rev xs"]
    by (auto simp: rb_tree_def last_rev_hd simp del: last.simps)
qed

section \<open>Climbing to the root\<close>

text \<open>Following the parent pointer \<open>n\<close> times, as both rebalancing loops do.\<close>

primrec climb :: "nat \<Rightarrow> ptr \<Rightarrow> rb_state \<Rightarrow> ptr option" where
  "climb 0 p s = Some p"
| "climb (Suc n) p s = do { q \<leftarrow> parent_of p s; climb n q s }"

lemma climb_focus:
  "rep s (plug k (Node l a c r)) \<Longrightarrow> climb (length k) a s = Some (rb_root_node s)"
proof (induction k arbitrary: l a c r)
  case Nil
  then show ?case by (simp add: rep_def)
next
  case (Cons f k)
  note par = rep_reads(3) [OF Cons.prems]
  show ?case
  proof (cases f)
    case (LF b d u)
    with Cons.IH [of "Node l a c r" b d u] Cons.prems par show ?thesis by simp
  next
    case (RF u b d)
    with Cons.IH [of u b d "Node l a c r"] Cons.prems par show ?thesis by simp
  qed
qed

lemma plug_height: "length k + rbheight t \<le> rbheight (plug k t)"
proof (induction k arbitrary: t)
  case (Cons f k)
  from Cons.IH [of "fill f t"] show ?case by (cases f) auto
qed simp

lemma bal_plug_rename: "bal (plug k (Node l x c r)) n \<Longrightarrow> bal (plug k (Node l y c r)) n"
proof -
  have gen: "bal (plug k t) n \<Longrightarrow> \<forall>n. bal t n \<longrightarrow> bal t' n \<Longrightarrow> rbcol t = rbcol t' \<Longrightarrow>
      bal (plug k t') n" for t t'
  proof (induction k arbitrary: t t')
    case (Cons f k)
    have "\<forall>n. bal (fill f t) n \<longrightarrow> bal (fill f t') n"
    proof (cases f)
      case (LF b d u)
      with Cons.prems(2,3) show ?thesis by (cases d) simp_all
    next
      case (RF u b d)
      with Cons.prems(2,3) show ?thesis by (cases d) simp_all
    qed
    moreover have "rbcol (fill f t) = rbcol (fill f t')" by (cases f) auto
    ultimately show ?case
      using Cons.IH [of "fill f t" "fill f t'"] Cons.prems by simp
  qed simp
  have "\<forall>n. bal (Node l x c r) n \<longrightarrow> bal (Node l y c r) n" by (cases c) simp_all
  then show "bal (plug k (Node l x c r)) n \<Longrightarrow> bal (plug k (Node l y c r)) n"
    using gen [of "Node l x c r" "Node l y c r"] by simp
qed

lemma rbcol_plug: "rbcol t = rbcol t' \<Longrightarrow> rbcol (plug k t) = rbcol (plug k t')"
proof (induction k arbitrary: t t')
  case (Cons f k)
  have "rbcol (fill f t) = rbcol (fill f t')" by (cases f) auto
  then have "rbcol (plug k (fill f t)) = rbcol (plug k (fill f t'))" by (rule Cons.IH)
  then show ?case by simp
qed simp

lemma rbt_ok_rename: "rbt_ok (plug k (Node l x c r)) \<Longrightarrow> rbt_ok (plug k (Node l y c r))"
  using bal_plug_rename [of k l x c r _ y] rbcol_plug [of "Node l x c r" "Node l y c r" k]
  by (auto simp: rbt_ok_def [of "plug k (Node l x c r)"] intro: rbt_okI)

section \<open>Properties\<close>

text \<open>
  A concrete heap for the instances: the tree 4 < 8 < 12 with a black root, and two nodes
  (16 and 20) that are not linked.
\<close>

definition ex_rb :: rb_state where
  "ex_rb = \<lparr>rb_nodes = [8 \<mapsto> \<lparr>rb_parent_color = 1, rb_right = 12, rb_left = 4\<rparr>,
     4 \<mapsto> \<lparr>rb_parent_color = 8, rb_right = 0, rb_left = 0\<rparr>,
     12 \<mapsto> \<lparr>rb_parent_color = 8, rb_right = 0, rb_left = 0\<rparr>,
     16 \<mapsto> \<lparr>rb_parent_color = 16, rb_right = 0, rb_left = 0\<rparr>,
     20 \<mapsto> \<lparr>rb_parent_color = 20, rb_right = 0, rb_left = 0\<rparr>], rb_root_node = 8\<rparr>"

definition ex_rbt :: rbt where
  "ex_rbt = Node (Node Leaf 4 Red Leaf) 8 Black (Node Leaf 12 Red Leaf)"

lemma ex_rep: "rep ex_rb ex_rbt" "rbt_ok ex_rbt"
  by (simp_all add: ex_rb_def ex_rbt_def rep_def good_def aligned4_def mk_def RB_RED_def
      RB_BLACK_def rbt_ok_def)

lemma ex_tree: "rb_tree ex_rb [4, 8, 12]"
  using ex_rep by (auto simp: rb_tree_def ex_rbt_def)

lemma ex_gap: "rb_gap ex_rb [4, 8, 12] [] (12, Right_slot 12)"
proof -
  have "plug [RF Leaf 12 Red, RF (Node Leaf 4 Red Leaf) 8 Black] Leaf = ex_rbt"
    by (simp add: ex_rbt_def)
  then show ?thesis
    using ex_rep unfolding rb_gap_def
    by (intro exI [of _ "[RF Leaf 12 Red, RF (Node Leaf 4 Red Leaf) 8 Black]"]) simp
qed

lemma ex_fresh: "rb_fresh ex_rb 16"
  by (simp add: rb_fresh_def ex_rb_def aligned4_def)

text \<open>C5. Insertion. For every slot of a valid tree and every fresh aligned node, linking the
  node there with \<open>rb_link_node\<close> and calling \<open>rb_insert_color\<close> terminates without a fault in a
  valid red-black tree that holds the old nodes in the old order with the new one at that
  place, and changes no other node of the heap.\<close>

theorem rb_insert_correct:
  assumes "rb_gap s xs ys (parent, slot)" "rb_fresh s x" "x \<notin> set (xs @ ys)"
  shows "\<exists>s1 s2. rb_link_node x parent slot s = Some s1 \<and> rb_insert_color x s1 = Some s2 \<and>
    rb_tree s2 (xs @ x # ys) \<and> agree_on (- set (xs @ x # ys)) (rb_nodes s) (rb_nodes s2)"
  using rb_insert_at_gap [OF assms] by (auto simp: rb_insert_at_def Option.bind_eq_Some_conv)

theorem rb_insert_correct_witness:
  "\<exists>s1 s2. rb_link_node 16 12 (Right_slot 12) ex_rb = Some s1 \<and> rb_insert_color 16 s1 = Some s2 \<and>
    rb_tree s2 [4, 8, 12, 16] \<and> agree_on (- {4, 8, 12, 16}) (rb_nodes ex_rb) (rb_nodes s2)"
  using rb_insert_correct [OF ex_gap ex_fresh] by simp

text \<open>C1. Removal. \<open>rb_erase\<close> of any node of a valid tree terminates without a fault in a valid
  red-black tree that holds the other nodes in the same order, and changes no node outside
  the tree.\<close>

theorem rb_erase_correct:
  assumes "rb_tree s xs" "x \<in> set xs"
  shows "\<exists>s'. rb_erase x s = Some s' \<and> rb_tree s' (remove1 x xs) \<and>
    agree_on (- set xs) (rb_nodes s) (rb_nodes s')"
proof -
  obtain ys zs where xs: "xs = ys @ x # zs"
    using assms(2) by (auto dest: split_list)
  with rb_tree_distinct [OF assms(1)] have "remove1 x xs = ys @ zs"
    by (simp add: remove1_append)
  with rb_erase_at [of s ys x zs] assms(1) xs show ?thesis by simp
qed

theorem rb_erase_correct_witness:
  "\<exists>s'. rb_erase 8 ex_rb = Some s' \<and> rb_tree s' [4, 12] \<and>
    agree_on (- {4, 8, 12}) (rb_nodes ex_rb) (rb_nodes s')"
  using rb_erase_correct [OF ex_tree, of 8] by simp

text \<open>C26. Traversal. The loop that starts at \<open>rb_first\<close> and follows \<open>rb_next\<close> until NULL visits
  every node of a valid tree once, in order, and ends; from \<open>rb_last\<close> along \<open>rb_prev\<close> it
  visits them in the reverse order.\<close>

theorem rb_traversal_complete:
  assumes "rb_tree s xs" "length xs < n"
  shows "do { p \<leftarrow> rb_first s; visit n (\<lambda>x. rb_next x s) NULL p } = Some xs \<and>
    do { p \<leftarrow> rb_last s; visit n (\<lambda>x. rb_prev x s) NULL p } = Some (rev xs)"
  using rbfwd.visit_all [OF assms] rbbwd.visit_all [of s "rev xs" n] assms by simp

theorem rb_traversal_complete_witness:
  "do { p \<leftarrow> rb_first ex_rb; visit 9 (\<lambda>x. rb_next x ex_rb) NULL p } = Some [4, 8, 12] \<and>
    do { p \<leftarrow> rb_last ex_rb; visit 9 (\<lambda>x. rb_prev x ex_rb) NULL p } = Some [12, 8, 4]"
  using rb_traversal_complete [OF ex_tree, of 9] by simp

text \<open>C28. Search-tree use. Whatever key the client keeps in its nodes, a tree sorted by that
  key has a slot at which inserting a new node leaves it sorted, after the nodes of equal
  key; and \<open>rb_erase\<close> then gives a tree with the original nodes back.\<close>

theorem rb_sorted_insert:
  fixes key :: "ptr \<Rightarrow> 'k :: linorder"
  assumes "rb_tree s xs" "sorted (map key xs)" "rb_fresh s x" "x \<notin> set xs"
  shows "\<exists>parent slot s1 s2 s3. rb_link_node x parent slot s = Some s1 \<and>
    rb_insert_color x s1 = Some s2 \<and> rb_tree s2 (insert_sorted key x xs) \<and>
    sorted (map key (insert_sorted key x xs)) \<and> rb_erase x s2 = Some s3 \<and> rb_tree s3 xs"
proof -
  from rbidx.link_sorted [OF assms(1,3,4), of key] obtain parent slot s2 where
    i: "rb_insert_at x (parent, slot) s = Some s2" "rb_tree s2 (insert_sorted key x xs)"
    by auto
  obtain ys zs where sp: "split_at key (key x) xs = (ys, zs)" by (cases "split_at key (key x) xs")
  with i(2) have "rb_tree s2 (ys @ x # zs)" by (simp add: insert_sorted_def)
  from rbidx.unlink_ok [OF this] split_at_append [OF sp] obtain s3 where
    "rb_erase x s2 = Some s3" "rb_tree s3 xs" by auto
  moreover from i(1) obtain s1 where
    "rb_link_node x parent slot s = Some s1" "rb_insert_color x s1 = Some s2"
    by (auto simp: rb_insert_at_def Option.bind_eq_Some_conv)
  ultimately show ?thesis
    using i(2) insert_sorted_sorted [OF assms(2), of x] by blast
qed

theorem rb_sorted_insert_witness:
  "\<exists>parent slot s1 s2 s3. rb_link_node 16 parent slot ex_rb = Some s1 \<and>
    rb_insert_color 16 s1 = Some s2 \<and> rb_tree s2 [4, 8, 12, 16] \<and>
    sorted (map unat [4, 8, 12, 16 :: ptr]) \<and> rb_erase 16 s2 = Some s3 \<and> rb_tree s3 [4, 8, 12]"
  using rb_sorted_insert [OF ex_tree _ ex_fresh, of unat] by simp

text \<open>C36. Replacement. \<open>rb_replace_node\<close> puts a fresh node in the place of a node of the tree,
  with the colour and the neighbours of the old one, and leaves the old node untouched.\<close>

theorem rb_replace_correct:
  assumes "rb_tree s (xs @ x # ys)" "rb_fresh s y" "y \<notin> set (xs @ x # ys)"
  shows "\<exists>s'. rb_replace_node x y s = Some s' \<and> rb_tree s' (xs @ y # ys) \<and>
    get_node x s' = get_node x s"
proof -
  from assms(1) obtain t where t: "rep s t" "rbt_ok t" "addrs t = xs @ x # ys"
    by (auto simp: rb_tree_def)
  from focus_at [OF t(1,3)] obtain k l c r where
    k: "t = plug k (Node l x c r)" "xs = pre k @ addrs l" "ys = addrs r @ post k" by blast
  have "y \<noteq> NULL" "aligned4 y" "\<exists>v. rb_nodes s y = Some v" "y \<notin> set (addrs t)"
    using assms(2,3) t(3) by (auto simp: rb_fresh_def)
  with replace_node_focus [of s k l x c r y] t(1) k(1) obtain s' where
    s': "rb_replace_node x y s = Some s'" "repf (rb_nodes s) s' (plug k (Node l y c r))" by auto
  have "rbt_ok (plug k (Node l y c r))"
    using t(2) k(1) rbt_ok_rename by blast
  moreover have "x \<notin> set (addrs (plug k (Node l y c r)))"
    using t(1) k(1) assms(3) by (auto simp: rep_def good_def addrs_plug)
  ultimately show ?thesis
    using s' k by (auto simp: rb_tree_def repf_def addrs_plug get_node_def load_def agree_on_def)
qed

theorem rb_replace_correct_witness:
  "\<exists>s'. rb_replace_node 8 16 ex_rb = Some s' \<and> rb_tree s' [4, 16, 12] \<and>
    get_node 8 s' = get_node 8 ex_rb"
  using rb_replace_correct [of ex_rb "[4]" 8 "[12]" 16] ex_tree ex_fresh by simp



end
