(* ===== verification/List_Head.thy ===== *)
theory List_Head
  imports Hmp_Prelude
begin

text \<open>
  The circular doubly linked lists of \<open>src/linux/list.h\<close>: one definition per inline function
  and per iteration macro. The state is the heap of all \<open>struct list_head\<close> objects, the
  list heads and the entries embedded in other structures alike; a function is a map on that
  heap in the option monad (\<open>None\<close>: a dereference of NULL, of a poison value, or of an
  address that holds no list entry). Every assignment of the C body is one step, in its order.
\<close>

section \<open>Entries\<close>

record list_head =
  lh_next :: ptr
  lh_prev :: ptr

type_synonym lists = "list_head heap"

definition LIST_POISON1 :: ptr where
  "LIST_POISON1 = 0x00100100"

definition LIST_POISON2 :: ptr where
  "LIST_POISON2 = 0x00200200"

definition next_of :: "ptr \<Rightarrow> lists \<Rightarrow> ptr option" where
  "next_of p h = map_option lh_next (load h p)"

definition prev_of :: "ptr \<Rightarrow> lists \<Rightarrow> ptr option" where
  "prev_of p h = map_option lh_prev (load h p)"

definition set_next :: "ptr \<Rightarrow> ptr \<Rightarrow> lists \<Rightarrow> lists option" where
  "set_next p q = modify (\<lambda>v. v\<lparr>lh_next := q\<rparr>) p"

definition set_prev :: "ptr \<Rightarrow> ptr \<Rightarrow> lists \<Rightarrow> lists option" where
  "set_prev p q = modify (\<lambda>v. v\<lparr>lh_prev := q\<rparr>) p"

text \<open>\<open>container_of\<close> and its inverse \<open>&pos->member\<close>; \<open>off\<close> is the offset of the member.\<close>

definition container_of :: "ptr \<Rightarrow> ptr \<Rightarrow> ptr" where
  "container_of p off = p - off"

definition member_of :: "ptr \<Rightarrow> ptr \<Rightarrow> ptr" where
  "member_of pos off = pos + off"

definition LIST_HEAD_INIT :: "ptr \<Rightarrow> list_head" where
  "LIST_HEAD_INIT p = \<lparr>lh_next = p, lh_prev = p\<rparr>"

definition INIT_LIST_HEAD :: "ptr \<Rightarrow> lists \<Rightarrow> lists option" where
  "INIT_LIST_HEAD p h = do { h \<leftarrow> set_next p p h; set_prev p p h }"

section \<open>Insertion and removal\<close>

definition list_add_between :: "ptr \<Rightarrow> ptr \<Rightarrow> ptr \<Rightarrow> lists \<Rightarrow> lists option" where
  "list_add_between new prev next h = do {
     h \<leftarrow> set_prev next new h;
     h \<leftarrow> set_next new next h;
     h \<leftarrow> set_prev new prev h;
     set_next prev new h }"

definition list_add :: "ptr \<Rightarrow> ptr \<Rightarrow> lists \<Rightarrow> lists option" where
  "list_add new head h = do { n \<leftarrow> next_of head h; list_add_between new head n h }"

definition list_add_tail :: "ptr \<Rightarrow> ptr \<Rightarrow> lists \<Rightarrow> lists option" where
  "list_add_tail new head h = do { p \<leftarrow> prev_of head h; list_add_between new p head h }"

definition list_del_between :: "ptr \<Rightarrow> ptr \<Rightarrow> lists \<Rightarrow> lists option" where
  "list_del_between prev next h = do { h \<leftarrow> set_prev next prev h; set_next prev next h }"

definition list_del_entry :: "ptr \<Rightarrow> lists \<Rightarrow> lists option" where
  "list_del_entry entry h = do {
     p \<leftarrow> prev_of entry h;
     n \<leftarrow> next_of entry h;
     list_del_between p n h }"

definition list_del :: "ptr \<Rightarrow> lists \<Rightarrow> lists option" where
  "list_del entry h = do {
     p \<leftarrow> prev_of entry h;
     n \<leftarrow> next_of entry h;
     h \<leftarrow> list_del_between p n h;
     h \<leftarrow> set_next entry LIST_POISON1 h;
     set_prev entry LIST_POISON2 h }"

definition list_replace :: "ptr \<Rightarrow> ptr \<Rightarrow> lists \<Rightarrow> lists option" where
  "list_replace old new h = do {
     n \<leftarrow> next_of old h;
     h \<leftarrow> set_next new n h;
     n \<leftarrow> next_of new h;
     h \<leftarrow> set_prev n new h;
     p \<leftarrow> prev_of old h;
     h \<leftarrow> set_prev new p h;
     p \<leftarrow> prev_of new h;
     set_next p new h }"

definition list_replace_init :: "ptr \<Rightarrow> ptr \<Rightarrow> lists \<Rightarrow> lists option" where
  "list_replace_init old new h = do { h \<leftarrow> list_replace old new h; INIT_LIST_HEAD old h }"

definition list_del_init :: "ptr \<Rightarrow> lists \<Rightarrow> lists option" where
  "list_del_init entry h = do { h \<leftarrow> list_del_entry entry h; INIT_LIST_HEAD entry h }"

definition list_move :: "ptr \<Rightarrow> ptr \<Rightarrow> lists \<Rightarrow> lists option" where
  "list_move lst head h = do { h \<leftarrow> list_del_entry lst h; list_add lst head h }"

definition list_move_tail :: "ptr \<Rightarrow> ptr \<Rightarrow> lists \<Rightarrow> lists option" where
  "list_move_tail lst head h = do { h \<leftarrow> list_del_entry lst h; list_add_tail lst head h }"

section \<open>Tests\<close>

definition list_is_last :: "ptr \<Rightarrow> ptr \<Rightarrow> lists \<Rightarrow> bool option" where
  "list_is_last lst head h = do { n \<leftarrow> next_of lst h; Some (n = head) }"

definition list_empty :: "ptr \<Rightarrow> lists \<Rightarrow> bool option" where
  "list_empty head h = do { n \<leftarrow> next_of head h; Some (n = head) }"

definition list_empty_careful :: "ptr \<Rightarrow> lists \<Rightarrow> bool option" where
  "list_empty_careful head h = do {
     next \<leftarrow> next_of head h;
     if next = head then do { p \<leftarrow> prev_of head h; Some (next = p) } else Some False }"

definition list_is_singular :: "ptr \<Rightarrow> lists \<Rightarrow> bool option" where
  "list_is_singular head h = do {
     e \<leftarrow> list_empty head h;
     if \<not> e then do { n \<leftarrow> next_of head h; p \<leftarrow> prev_of head h; Some (n = p) }
     else Some False }"

section \<open>Operations on whole lists\<close>

definition list_rotate_left :: "ptr \<Rightarrow> lists \<Rightarrow> lists option" where
  "list_rotate_left head h = do {
     e \<leftarrow> list_empty head h;
     if \<not> e then do { first \<leftarrow> next_of head h; list_move_tail first head h } else Some h }"

definition list_cut_at :: "ptr \<Rightarrow> ptr \<Rightarrow> ptr \<Rightarrow> lists \<Rightarrow> lists option" where
  "list_cut_at lst head entry h = do {
     new_first \<leftarrow> next_of entry h;
     n \<leftarrow> next_of head h;
     h \<leftarrow> set_next lst n h;
     n \<leftarrow> next_of lst h;
     h \<leftarrow> set_prev n lst h;
     h \<leftarrow> set_prev lst entry h;
     h \<leftarrow> set_next entry lst h;
     h \<leftarrow> set_next head new_first h;
     set_prev new_first head h }"

definition list_cut_position :: "ptr \<Rightarrow> ptr \<Rightarrow> ptr \<Rightarrow> lists \<Rightarrow> lists option" where
  "list_cut_position lst head entry h = do {
     e \<leftarrow> list_empty head h;
     if e then Some h
     else do {
       sg \<leftarrow> list_is_singular head h;
       n \<leftarrow> next_of head h;
       if sg \<and> (n \<noteq> entry \<and> head \<noteq> entry) then Some h
       else if entry = head then INIT_LIST_HEAD lst h
       else list_cut_at lst head entry h } }"

definition list_splice_between :: "ptr \<Rightarrow> ptr \<Rightarrow> ptr \<Rightarrow> lists \<Rightarrow> lists option" where
  "list_splice_between lst prev next h = do {
     first \<leftarrow> next_of lst h;
     last \<leftarrow> prev_of lst h;
     h \<leftarrow> set_prev first prev h;
     h \<leftarrow> set_next prev first h;
     h \<leftarrow> set_next last next h;
     set_prev next last h }"

definition list_splice :: "ptr \<Rightarrow> ptr \<Rightarrow> lists \<Rightarrow> lists option" where
  "list_splice lst head h = do {
     e \<leftarrow> list_empty lst h;
     if \<not> e then do { n \<leftarrow> next_of head h; list_splice_between lst head n h } else Some h }"

definition list_splice_tail :: "ptr \<Rightarrow> ptr \<Rightarrow> lists \<Rightarrow> lists option" where
  "list_splice_tail lst head h = do {
     e \<leftarrow> list_empty lst h;
     if \<not> e then do { p \<leftarrow> prev_of head h; list_splice_between lst p head h } else Some h }"

definition list_splice_init :: "ptr \<Rightarrow> ptr \<Rightarrow> lists \<Rightarrow> lists option" where
  "list_splice_init lst head h = do {
     e \<leftarrow> list_empty lst h;
     if \<not> e then do {
       n \<leftarrow> next_of head h;
       h \<leftarrow> list_splice_between lst head n h;
       INIT_LIST_HEAD lst h }
     else Some h }"

definition list_splice_tail_init :: "ptr \<Rightarrow> ptr \<Rightarrow> lists \<Rightarrow> lists option" where
  "list_splice_tail_init lst head h = do {
     e \<leftarrow> list_empty lst h;
     if \<not> e then do {
       p \<leftarrow> prev_of head h;
       h \<leftarrow> list_splice_between lst p head h;
       INIT_LIST_HEAD lst h }
     else Some h }"

section \<open>Entries of a list\<close>

definition list_first_entry :: "ptr \<Rightarrow> ptr \<Rightarrow> lists \<Rightarrow> ptr option" where
  "list_first_entry p off h = do { n \<leftarrow> next_of p h; Some (container_of n off) }"

definition list_last_entry :: "ptr \<Rightarrow> ptr \<Rightarrow> lists \<Rightarrow> ptr option" where
  "list_last_entry p off h = do { n \<leftarrow> prev_of p h; Some (container_of n off) }"

definition list_first_entry_or_null :: "ptr \<Rightarrow> ptr \<Rightarrow> lists \<Rightarrow> ptr option" where
  "list_first_entry_or_null p off h = do {
     e \<leftarrow> list_empty p h;
     if \<not> e then list_first_entry p off h else Some NULL }"

definition list_next_entry :: "ptr \<Rightarrow> ptr \<Rightarrow> lists \<Rightarrow> ptr option" where
  "list_next_entry pos off h =
     do { n \<leftarrow> next_of (member_of pos off) h; Some (container_of n off) }"

definition list_prev_entry :: "ptr \<Rightarrow> ptr \<Rightarrow> lists \<Rightarrow> ptr option" where
  "list_prev_entry pos off h =
     do { n \<leftarrow> prev_of (member_of pos off) h; Some (container_of n off) }"

section \<open>Iteration\<close>

text \<open>
  A loop macro takes the statement it governs as its body: a function of the cursor and the
  program's state that falls through (\<open>Inl\<close> of the new state) or leaves the loop by
  \<open>break\<close> or \<open>return\<close> (\<open>Inr\<close>). The lists are a part of the state, read by \<open>get\<close>. The macros
  that do not tolerate the removal of the cursor read its link after the body, the \<open>_safe\<close>
  ones before it, into \<open>n\<close>.
\<close>

definition for_list ::
  "(ptr \<Rightarrow> bool) \<Rightarrow> (ptr \<Rightarrow> 's \<Rightarrow> ptr option) \<Rightarrow> (ptr \<Rightarrow> 's \<Rightarrow> ('s + 'r) option) \<Rightarrow>
   ptr \<Rightarrow> 's \<Rightarrow> ('s + 'r) option" where
  "for_list cont step body pos s = loop (\<lambda>(pos, s).
     if \<not> cont pos then Some (Inr (Inl s))
     else do {
       r \<leftarrow> body pos s;
       case r of
         Inr x \<Rightarrow> Some (Inr (Inr x))
       | Inl s \<Rightarrow> do { pos \<leftarrow> step pos s; Some (Inl (pos, s)) } }) (pos, s)"

definition for_list_safe ::
  "(ptr \<Rightarrow> bool) \<Rightarrow> (ptr \<Rightarrow> 's \<Rightarrow> ptr option) \<Rightarrow> (ptr \<Rightarrow> 's \<Rightarrow> ('s + 'r) option) \<Rightarrow>
   ptr \<Rightarrow> ptr \<Rightarrow> 's \<Rightarrow> ('s + 'r) option" where
  "for_list_safe cont step body pos n s = loop (\<lambda>(pos, n, s).
     if \<not> cont pos then Some (Inr (Inl s))
     else do {
       r \<leftarrow> body pos s;
       case r of
         Inr x \<Rightarrow> Some (Inr (Inr x))
       | Inl s \<Rightarrow> do { n' \<leftarrow> step n s; Some (Inl (n, n', s)) } }) (pos, n, s)"

definition list_for_each where
  "list_for_each get head body s = do {
     pos \<leftarrow> next_of head (get s);
     for_list (\<lambda>pos. pos \<noteq> head) (\<lambda>pos s. next_of pos (get s)) body pos s }"

definition list_for_each_prev where
  "list_for_each_prev get head body s = do {
     pos \<leftarrow> prev_of head (get s);
     for_list (\<lambda>pos. pos \<noteq> head) (\<lambda>pos s. prev_of pos (get s)) body pos s }"

definition list_for_each_safe where
  "list_for_each_safe get head body s = do {
     pos \<leftarrow> next_of head (get s);
     n \<leftarrow> next_of pos (get s);
     for_list_safe (\<lambda>pos. pos \<noteq> head) (\<lambda>n s. next_of n (get s)) body pos n s }"

definition list_for_each_prev_safe where
  "list_for_each_prev_safe get head body s = do {
     pos \<leftarrow> prev_of head (get s);
     n \<leftarrow> prev_of pos (get s);
     for_list_safe (\<lambda>pos. pos \<noteq> head) (\<lambda>n s. prev_of n (get s)) body pos n s }"

definition list_for_each_entry where
  "list_for_each_entry get off head body s = do {
     pos \<leftarrow> list_first_entry head off (get s);
     for_list (\<lambda>pos. member_of pos off \<noteq> head) (\<lambda>pos s. list_next_entry pos off (get s))
       body pos s }"

definition list_for_each_entry_reverse where
  "list_for_each_entry_reverse get off head body s = do {
     pos \<leftarrow> list_last_entry head off (get s);
     for_list (\<lambda>pos. member_of pos off \<noteq> head) (\<lambda>pos s. list_prev_entry pos off (get s))
       body pos s }"

definition list_prepare_entry :: "ptr \<Rightarrow> ptr \<Rightarrow> ptr \<Rightarrow> ptr" where
  "list_prepare_entry pos head off = (if pos \<noteq> NULL then pos else container_of head off)"

definition list_for_each_entry_continue where
  "list_for_each_entry_continue get off head body pos s = do {
     pos \<leftarrow> list_next_entry pos off (get s);
     for_list (\<lambda>pos. member_of pos off \<noteq> head) (\<lambda>pos s. list_next_entry pos off (get s))
       body pos s }"

definition list_for_each_entry_continue_reverse where
  "list_for_each_entry_continue_reverse get off head body pos s = do {
     pos \<leftarrow> list_prev_entry pos off (get s);
     for_list (\<lambda>pos. member_of pos off \<noteq> head) (\<lambda>pos s. list_prev_entry pos off (get s))
       body pos s }"

definition list_for_each_entry_from where
  "list_for_each_entry_from get off head body pos s =
     for_list (\<lambda>pos. member_of pos off \<noteq> head) (\<lambda>pos s. list_next_entry pos off (get s))
       body pos s"

definition list_for_each_entry_safe where
  "list_for_each_entry_safe get off head body s = do {
     pos \<leftarrow> list_first_entry head off (get s);
     n \<leftarrow> list_next_entry pos off (get s);
     for_list_safe (\<lambda>pos. member_of pos off \<noteq> head) (\<lambda>n s. list_next_entry n off (get s))
       body pos n s }"

definition list_for_each_entry_safe_continue where
  "list_for_each_entry_safe_continue get off head body pos s = do {
     pos \<leftarrow> list_next_entry pos off (get s);
     n \<leftarrow> list_next_entry pos off (get s);
     for_list_safe (\<lambda>pos. member_of pos off \<noteq> head) (\<lambda>n s. list_next_entry n off (get s))
       body pos n s }"

definition list_for_each_entry_safe_from where
  "list_for_each_entry_safe_from get off head body pos s = do {
     n \<leftarrow> list_next_entry pos off (get s);
     for_list_safe (\<lambda>pos. member_of pos off \<noteq> head) (\<lambda>n s. list_next_entry n off (get s))
       body pos n s }"

definition list_for_each_entry_safe_reverse where
  "list_for_each_entry_safe_reverse get off head body s = do {
     pos \<leftarrow> list_last_entry head off (get s);
     n \<leftarrow> list_prev_entry pos off (get s);
     for_list_safe (\<lambda>pos. member_of pos off \<noteq> head) (\<lambda>n s. list_prev_entry n off (get s))
       body pos n s }"

definition list_safe_reset_next where
  "list_safe_reset_next get off pos s = list_next_entry pos off (get s)"

end
