(* ===== verification/List_Ring.thy ===== *)
theory List_Ring
  imports List_Head Hmp_Index
begin

text \<open>
  The abstraction of the circular lists: \<open>ring h hp xs\<close> says that the entries \<open>xs\<close> hang on
  the list head \<open>hp\<close> in that order, linked both ways. A ring is a closed \<open>chain\<close>; an update
  of one link touches one gap of the chain, so each operation is a cut and a join of chains.
\<close>

section \<open>Chains\<close>

definition linked :: "lists \<Rightarrow> ptr \<Rightarrow> ptr \<Rightarrow> bool" where
  "linked h x y \<longleftrightarrow> next_of x h = Some y \<and> prev_of y h = Some x"

fun chain :: "lists \<Rightarrow> ptr list \<Rightarrow> bool" where
  "chain h (x # y # zs) \<longleftrightarrow> linked h x y \<and> chain h (y # zs)"
| "chain h zs \<longleftrightarrow> True"

definition ring :: "lists \<Rightarrow> ptr \<Rightarrow> ptr list \<Rightarrow> bool" where
  "ring h hp xs \<longleftrightarrow> distinct (hp # xs) \<and> chain h (hp # xs @ [hp])"

lemma in_set_tlD: "x \<in> set (tl zs) \<Longrightarrow> x \<in> set zs"
  by (cases zs) auto

lemma last_notin_butlast: "distinct zs \<Longrightarrow> zs \<noteq> [] \<Longrightarrow> last zs \<notin> set (butlast zs)"
  by (induction zs rule: rev_induct) auto

lemma chain_append:
  "us \<noteq> [] \<Longrightarrow> vs \<noteq> [] \<Longrightarrow>
   chain h (us @ vs) \<longleftrightarrow> chain h us \<and> linked h (last us) (hd vs) \<and> chain h vs"
proof (induction us)
  case (Cons u us)
  then show ?case by (cases us; cases vs) auto
qed simp

lemma chain_frame:
  "(\<And>x. x \<in> set (butlast zs) \<Longrightarrow> next_of x h' = next_of x h) \<Longrightarrow>
   (\<And>x. x \<in> set (tl zs) \<Longrightarrow> prev_of x h' = prev_of x h) \<Longrightarrow> chain h' zs = chain h zs"
proof (induction h zs rule: chain.induct)
  case (1 h x y zs)
  have "chain h' (y # zs) = chain h (y # zs)"
    by (rule "1.IH") (use "1.prems" in \<open>auto dest: in_set_tlD split: if_splits\<close>)
  moreover have "linked h' x y = linked h x y"
    using "1.prems"(1) [of x] "1.prems"(2) [of y] by (simp add: linked_def)
  ultimately show ?case by simp
qed simp_all

section \<open>Link updates\<close>

text \<open>The field writes as total functions, for entries that exist.\<close>

definition put_next :: "ptr \<Rightarrow> ptr \<Rightarrow> lists \<Rightarrow> lists" where
  "put_next p q h = (case h p of None \<Rightarrow> h | Some v \<Rightarrow> h(p \<mapsto> v\<lparr>lh_next := q\<rparr>))"

definition put_prev :: "ptr \<Rightarrow> ptr \<Rightarrow> lists \<Rightarrow> lists" where
  "put_prev p q h = (case h p of None \<Rightarrow> h | Some v \<Rightarrow> h(p \<mapsto> v\<lparr>lh_prev := q\<rparr>))"

definition alive :: "lists \<Rightarrow> ptr \<Rightarrow> bool" where
  "alive h p \<longleftrightarrow> p \<noteq> NULL \<and> h p \<noteq> None"

lemma put_alive [simp]:
  "alive (put_next p q h) r = alive h r" "alive (put_prev p q h) r = alive h r"
  by (auto simp: alive_def put_next_def put_prev_def split: option.splits)

lemma set_put [simp]:
  "alive h p \<Longrightarrow> set_next p q h = Some (put_next p q h)"
  "alive h p \<Longrightarrow> set_prev p q h = Some (put_prev p q h)"
  by (auto simp: alive_def set_next_def set_prev_def put_next_def put_prev_def)

lemma put_reads [simp]:
  "alive h p \<Longrightarrow> next_of r (put_next p q h) = (if r = p then Some q else next_of r h)"
  "prev_of r (put_next p q h) = prev_of r h"
  "next_of r (put_prev p q h) = next_of r h"
  "alive h p \<Longrightarrow> prev_of r (put_prev p q h) = (if r = p then Some q else prev_of r h)"
  by (auto simp: alive_def next_of_def prev_of_def put_next_def put_prev_def load_def
      split: option.splits)

lemma put_frame:
  "p \<notin> A \<Longrightarrow> agree_on A h (put_next p q h)" "p \<notin> A \<Longrightarrow> agree_on A h (put_prev p q h)"
  by (auto simp: agree_on_def put_next_def put_prev_def split: option.splits)

lemma put_same [simp]:
  "r \<noteq> p \<Longrightarrow> put_next p q h r = h r" "r \<noteq> p \<Longrightarrow> put_prev p q h r = h r"
  by (auto simp: put_next_def put_prev_def split: option.splits)

lemma agree_put:
  "p \<notin> A \<Longrightarrow> agree_on A h h' \<Longrightarrow> agree_on A h (put_next p q h')"
  "p \<notin> A \<Longrightarrow> agree_on A h h' \<Longrightarrow> agree_on A h (put_prev p q h')"
  by (auto simp: agree_on_def put_next_def put_prev_def split: option.splits)

lemma next_of_alive: "next_of p h = Some q \<Longrightarrow> alive h p"
  by (auto simp: next_of_def alive_def load_def split: if_splits)

lemma prev_of_alive: "prev_of p h = Some q \<Longrightarrow> alive h p"
  by (auto simp: prev_of_def alive_def load_def split: if_splits)

lemma chain_alive: "chain h zs \<Longrightarrow> length zs > 1 \<Longrightarrow> p \<in> set zs \<Longrightarrow> alive h p"
proof (induction h zs rule: chain.induct)
  case (1 h x y zs)
  then show ?case
    by (cases zs) (auto simp: linked_def dest: next_of_alive prev_of_alive)
qed simp_all

lemma chain_agree:
  "chain h zs \<Longrightarrow> agree_on (set zs) h h' \<Longrightarrow> chain h' zs"
  by (subst chain_frame)
    (auto simp: agree_on_def next_of_def prev_of_def load_def dest: in_set_butlastD in_set_tlD)

lemma ring_agree: "ring h hp xs \<Longrightarrow> agree_on (set (hp # xs)) h h' \<Longrightarrow> ring h' hp xs"
  unfolding ring_def by (auto intro: chain_agree)

lemma ring_alive: "ring h hp xs \<Longrightarrow> p \<in> insert hp (set xs) \<Longrightarrow> alive h p"
  using chain_alive [of h "hp # xs @ [hp]" p] by (auto simp: ring_def)

lemma ring_NULL: "ring h hp xs \<Longrightarrow> hp \<noteq> NULL \<and> NULL \<notin> set xs"
  using ring_alive [of h hp xs] by (auto simp: alive_def)

lemma ring_Nil: "ring h hp [] \<longleftrightarrow> next_of hp h = Some hp \<and> prev_of hp h = Some hp"
  by (simp add: ring_def linked_def)

text \<open>A ring, opened at a gap.\<close>

lemma ring_gap:
  "ring h hp (xs @ ys) \<longleftrightarrow> distinct (hp # xs @ ys) \<and> chain h (hp # xs) \<and>
     linked h (last (hp # xs)) (hd (ys @ [hp])) \<and> chain h (ys @ [hp])"
  using chain_append [of "hp # xs" "ys @ [hp]" h] by (auto simp: ring_def)

lemma ring_at:
  "ring h hp (xs @ x # ys) \<longleftrightarrow> distinct (hp # xs @ x # ys) \<and> chain h (hp # xs) \<and>
     linked h (last (hp # xs)) x \<and> linked h x (hd (ys @ [hp])) \<and> chain h (ys @ [hp])"
proof -
  have "chain h (x # ys @ [hp]) \<longleftrightarrow> linked h x (hd (ys @ [hp])) \<and> chain h (ys @ [hp])"
    by (cases ys) auto
  then show ?thesis
    using ring_gap [of h hp xs "x # ys"] by auto
qed

lemma ring_start: "ring h hp xs \<Longrightarrow> next_of hp h = Some (hd (xs @ [hp]))"
  using ring_gap [of h hp "[]" xs] by (auto simp: linked_def)

lemma ring_end: "ring h hp xs \<Longrightarrow> prev_of hp h = Some (last (hp # xs))"
  using ring_gap [of h hp xs "[]"] by (auto simp: linked_def)

lemma ring_next: "ring h hp (xs @ x # ys) \<Longrightarrow> next_of x h = Some (hd (ys @ [hp]))"
  by (simp add: ring_at linked_def)

lemma ring_prev: "ring h hp (xs @ x # ys) \<Longrightarrow> prev_of x h = Some (last (hp # xs))"
  by (simp add: ring_at linked_def)

text \<open>Any entry of a ring may serve as its head.\<close>

lemma ring_rotate:
  assumes "ring h hp (xs @ x # ys)"
  shows "ring h x (ys @ hp # xs)"
proof -
  have a: "chain h ((x # ys) @ hp # xs @ [x]) \<longleftrightarrow>
      chain h (x # ys) \<and> linked h (last (x # ys)) hp \<and> chain h (hp # xs @ [x])"
    using chain_append [of "x # ys" "hp # xs @ [x]" h] by simp
  have b: "chain h ((hp # xs) @ [x]) \<longleftrightarrow> chain h (hp # xs) \<and> linked h (last (hp # xs)) x"
    using chain_append [of "hp # xs" "[x]" h] by simp
  have c: "chain h ((x # ys) @ [hp]) \<longleftrightarrow> chain h (x # ys) \<and> linked h (last (x # ys)) hp"
    using chain_append [of "x # ys" "[hp]" h] by simp
  have d: "chain h (x # ys @ [hp]) \<longleftrightarrow> linked h x (hd (ys @ [hp])) \<and> chain h (ys @ [hp])"
    by (cases ys) auto
  show ?thesis
    unfolding ring_def using assms [unfolded ring_at] a b c d by (auto simp del: chain.simps)
qed

section \<open>Insertion\<close>

text \<open>The four writes of \<open>__list_add\<close>, at any gap of the ring.\<close>

lemma add_between_ring:
  assumes r: "ring h hp (xs @ ys)" and new: "alive h x" "x \<notin> set (hp # xs @ ys)"
    and p: "p = last (hp # xs)" and q: "q = hd (ys @ [hp])"
  shows "\<exists>h'. list_add_between x p q h = Some h' \<and> ring h' hp (xs @ x # ys) \<and>
    agree_on (- set (hp # xs @ x # ys)) h h'"
proof -
  have pin: "p \<in> set (hp # xs)" and qin: "q \<in> set (ys @ [hp])"
    using p q by (simp_all, cases ys, auto)
  have al: "alive h p" "alive h q"
    using ring_alive [OF r] pin qin by auto
  define h' where "h' = put_next p x (put_prev x p (put_next x q (put_prev q x h)))"
  have ev: "list_add_between x p q h = Some h'"
    using al new(1) by (simp add: list_add_between_def h'_def)
  have d: "distinct (hp # xs @ ys)" "x \<notin> set (hp # xs)" "x \<notin> set (ys @ [hp])"
    using r new(2) by (auto simp: ring_def)
  have pb: "p \<notin> set (butlast (hp # xs))" "p \<notin> set ys"
    using last_notin_butlast [of "hp # xs"] d(1) p pin by auto
  have qb: "q \<notin> set xs" "q \<notin> set (tl (ys @ [hp]))"
    using d(1) q by (cases ys; auto)+
  have xb: "x \<notin> set (butlast (hp # xs))"
    using d(2) by (blast dest: in_set_butlastD)
  have "chain h' (hp # xs) = chain h (hp # xs)"
    using al new(1) d pb qb xb by (intro chain_frame) (auto simp: h'_def)
  moreover have "chain h' (ys @ [hp]) = chain h (ys @ [hp])"
    using al new(1) d pb qb
    by (intro chain_frame) (auto simp: h'_def dest: in_set_butlastD in_set_tlD)
  moreover have "linked h' p x" "linked h' x q"
    using al new(1) pin qin d by (auto simp: linked_def h'_def)
  ultimately have "ring h' hp (xs @ x # ys)"
    using r d p q by (auto simp: ring_gap [of h] ring_at)
  moreover have "agree_on (- set (hp # xs @ x # ys)) h h'"
    unfolding h'_def using pin qin by (intro agree_put agree_on_refl) auto
  ultimately show ?thesis using ev by blast
qed

lemma list_add_ring:
  assumes "ring h hp (xs @ ys)" "alive h x" "x \<notin> set (hp # xs @ ys)"
  shows "\<exists>h'. list_add x (last (hp # xs)) h = Some h' \<and> ring h' hp (xs @ x # ys) \<and>
    agree_on (- set (hp # xs @ x # ys)) h h'"
proof -
  have "next_of (last (hp # xs)) h = Some (hd (ys @ [hp]))"
    using assms(1) by (simp add: ring_gap linked_def)
  with add_between_ring [OF assms refl refl] show ?thesis by (simp add: list_add_def)
qed

lemma list_add_tail_ring:
  assumes "ring h hp (xs @ ys)" "alive h x" "x \<notin> set (hp # xs @ ys)"
  shows "\<exists>h'. list_add_tail x (hd (ys @ [hp])) h = Some h' \<and> ring h' hp (xs @ x # ys) \<and>
    agree_on (- set (hp # xs @ x # ys)) h h'"
proof -
  have "prev_of (hd (ys @ [hp])) h = Some (last (hp # xs))"
    using assms(1) by (simp add: ring_gap linked_def)
  with add_between_ring [OF assms refl refl] show ?thesis by (simp add: list_add_tail_def)
qed

lemma init_ring:
  assumes "alive h p"
  shows "\<exists>h'. INIT_LIST_HEAD p h = Some h' \<and> ring h' p [] \<and> agree_on (- {p}) h h'"
proof -
  have "INIT_LIST_HEAD p h = Some (put_prev p p (put_next p p h))"
    using assms by (simp add: INIT_LIST_HEAD_def)
  moreover have "ring (put_prev p p (put_next p p h)) p []"
    using assms by (simp add: ring_Nil)
  moreover have "agree_on (- {p}) h (put_prev p p (put_next p p h))"
    by (intro agree_put agree_on_refl) auto
  ultimately show ?thesis by blast
qed

section \<open>Removal\<close>

lemma del_between_ring:
  assumes r: "ring h hp (xs @ x # ys)"
    and p: "p = last (hp # xs)" and q: "q = hd (ys @ [hp])"
  shows "\<exists>h'. list_del_between p q h = Some h' \<and> ring h' hp (xs @ ys) \<and>
    agree_on (- set (hp # xs @ ys)) h h'"
proof -
  have pin: "p \<in> set (hp # xs)" and qin: "q \<in> set (ys @ [hp])"
    using p q by (simp_all, cases ys, auto)
  have al: "alive h p" "alive h q"
    using ring_alive [OF r] pin qin by auto
  define h' where "h' = put_next p q (put_prev q p h)"
  have ev: "list_del_between p q h = Some h'"
    using al by (simp add: list_del_between_def h'_def)
  have d: "distinct (hp # xs @ ys)"
    using r by (auto simp: ring_def)
  have pb: "p \<notin> set (butlast (hp # xs))" "p \<notin> set ys"
    using last_notin_butlast [of "hp # xs"] d p pin by auto
  have qb: "q \<notin> set xs" "q \<notin> set (tl (ys @ [hp]))"
    using d q by (cases ys; auto)+
  have "chain h' (hp # xs) = chain h (hp # xs)"
    using al pb qb by (intro chain_frame) (auto simp: h'_def)
  moreover have "chain h' (ys @ [hp]) = chain h (ys @ [hp])"
    using al pb qb by (intro chain_frame) (auto simp: h'_def dest: in_set_butlastD)
  moreover have "linked h' p q"
    using al by (auto simp: linked_def h'_def)
  ultimately have "ring h' hp (xs @ ys)"
    using r [unfolded ring_at] d p q by (auto simp: ring_gap)
  moreover have "agree_on (- set (hp # xs @ ys)) h h'"
    unfolding h'_def using pin qin by (intro agree_put agree_on_refl) auto
  ultimately show ?thesis using ev by blast
qed

lemma del_entry_ring:
  assumes "ring h hp (xs @ x # ys)"
  shows "\<exists>h'. list_del_entry x h = Some h' \<and> ring h' hp (xs @ ys) \<and> alive h' x \<and>
    agree_on (- set (hp # xs @ ys)) h h'"
proof -
  from del_between_ring [OF assms refl refl] obtain h' where
    h': "list_del_between (last (hp # xs)) (hd (ys @ [hp])) h = Some h'" "ring h' hp (xs @ ys)"
      "agree_on (- set (hp # xs @ ys)) h h'" by blast
  have "x \<notin> set (hp # xs @ ys)"
    using assms by (auto simp: ring_def)
  with h'(3) ring_alive [OF assms, of x] have "alive h' x"
    by (auto simp: agree_on_def alive_def)
  with h' ring_next [OF assms] ring_prev [OF assms] show ?thesis
    by (simp add: list_del_entry_def)
qed

lemma list_del_ring:
  assumes "ring h hp (xs @ x # ys)"
  shows "\<exists>h'. list_del x h = Some h' \<and> ring h' hp (xs @ ys) \<and>
    next_of x h' = Some LIST_POISON1 \<and> prev_of x h' = Some LIST_POISON2 \<and>
    agree_on (- set (hp # xs @ x # ys)) h h'"
proof -
  from del_entry_ring [OF assms] obtain h1 where
    h1: "list_del_entry x h = Some h1" "ring h1 hp (xs @ ys)" "alive h1 x"
      "agree_on (- set (hp # xs @ ys)) h h1" by blast
  let ?h = "put_prev x LIST_POISON2 (put_next x LIST_POISON1 h1)"
  have "x \<notin> set (hp # xs @ ys)"
    using assms by (auto simp: ring_def)
  then have "ring ?h hp (xs @ ys)"
    by (intro ring_agree [OF h1(2)] agree_put agree_on_refl) auto
  moreover have "agree_on (- set (hp # xs @ x # ys)) h ?h"
    using h1(4) by (intro agree_put) (auto intro: agree_on_mono)
  moreover have "list_del x h = Some ?h"
    using h1(1,3) ring_next [OF assms] ring_prev [OF assms]
    by (simp add: list_del_def list_del_entry_def)
  ultimately show ?thesis
    using h1(3) by simp
qed

lemma list_del_init_ring:
  assumes "ring h hp (xs @ x # ys)"
  shows "\<exists>h'. list_del_init x h = Some h' \<and> ring h' hp (xs @ ys) \<and> ring h' x [] \<and>
    agree_on (- set (hp # xs @ x # ys)) h h'"
proof -
  from del_entry_ring [OF assms] obtain h1 where
    h1: "list_del_entry x h = Some h1" "ring h1 hp (xs @ ys)" "alive h1 x"
      "agree_on (- set (hp # xs @ ys)) h h1" by blast
  from init_ring [OF h1(3)] obtain h2 where
    h2: "INIT_LIST_HEAD x h1 = Some h2" "ring h2 x []" "agree_on (- {x}) h1 h2" by blast
  have "x \<notin> set (hp # xs @ ys)"
    using assms by (auto simp: ring_def)
  then have "ring h2 hp (xs @ ys)"
    using h2(3) by (intro ring_agree [OF h1(2)]) (auto intro: agree_on_mono)
  moreover have "agree_on (- set (hp # xs @ x # ys)) h h2"
    by (rule agree_on_trans [of _ _ h1]) (use h1(4) h2(3) in \<open>auto intro: agree_on_mono\<close>)
  ultimately show ?thesis
    using h1(1) h2 by (simp add: list_del_init_def)
qed

text \<open>An entry that is alone (after \<open>list_del_init\<close>) may be deleted again.\<close>

lemma list_del_alone:
  assumes "ring h x []"
  shows "\<exists>h'. list_del x h = Some h' \<and> next_of x h' = Some LIST_POISON1 \<and>
    prev_of x h' = Some LIST_POISON2 \<and> agree_on (- {x}) h h'"
proof -
  have al: "alive h x"
    using ring_alive [OF assms] by simp
  let ?h = "put_prev x LIST_POISON2 (put_next x LIST_POISON1 (put_next x x (put_prev x x h)))"
  have "list_del x h = Some ?h"
    using assms al by (simp add: list_del_def list_del_between_def ring_Nil)
  moreover have "agree_on (- {x}) h ?h"
    by (intro agree_put agree_on_refl) auto
  ultimately show ?thesis using al by simp
qed

section \<open>Replacement and moves\<close>

lemma list_replace_ring:
  assumes r: "ring h hp (xs @ x # ys)" and y: "alive h y" "y \<notin> set (hp # xs @ x # ys)"
  shows "\<exists>h'. list_replace x y h = Some h' \<and> ring h' hp (xs @ y # ys) \<and> alive h' x \<and>
    agree_on (- set (hp # xs @ y # ys)) h h'"
proof -
  let ?p = "last (hp # xs)"
  let ?q = "hd (ys @ [hp])"
  have pin: "?p \<in> set (hp # xs)" and qin: "?q \<in> set (ys @ [hp])"
    by (simp_all, cases ys, auto)
  have al: "alive h ?p" "alive h ?q" "alive h x"
    using ring_alive [OF r] pin qin by auto
  have d: "distinct (hp # xs @ ys)" "y \<notin> set (hp # xs)" "y \<notin> set (ys @ [hp])"
      "x \<noteq> y" "x \<noteq> ?p" "x \<noteq> ?q" "y \<noteq> ?p" "y \<noteq> ?q"
    using r y pin qin by (auto simp: ring_def)
  define h' where "h' = put_next ?p y (put_prev y ?p (put_prev ?q y (put_next y ?q h)))"
  have ev: "list_replace x y h = Some h'"
    using al y(1) d ring_next [OF r] ring_prev [OF r]
    by (simp add: list_replace_def h'_def del: last.simps)
  have pb: "?p \<notin> set (butlast (hp # xs))" "?p \<notin> set ys"
    using last_notin_butlast [of "hp # xs"] d(1) pin by auto
  have qb: "?q \<notin> set xs" "?q \<notin> set (tl (ys @ [hp]))"
    using d(1) by (cases ys; auto)+
  have yb: "y \<notin> set (butlast (hp # xs))"
    using d(2) by (blast dest: in_set_butlastD)
  have "chain h' (hp # xs) = chain h (hp # xs)"
    using al y(1) d pb qb yb by (intro chain_frame) (auto simp: h'_def simp del: last.simps)
  moreover have "chain h' (ys @ [hp]) = chain h (ys @ [hp])"
    using al y(1) d pb qb
    by (intro chain_frame) (auto simp: h'_def dest: in_set_butlastD in_set_tlD simp del: last.simps)
  moreover have "linked h' ?p y" "linked h' y ?q"
    using al y(1) pin qin d by (auto simp: linked_def h'_def simp del: last.simps)
  ultimately have "ring h' hp (xs @ y # ys)"
    using r [unfolded ring_at] d unfolding ring_at by auto
  moreover have "agree_on (- set (hp # xs @ y # ys)) h h'"
    unfolding h'_def using pin qin by (intro agree_put agree_on_refl) auto
  moreover have "alive h' x"
    using al(3) by (simp add: h'_def)
  ultimately show ?thesis using ev by blast
qed

text \<open>The documented case of \<open>list_replace\<close>: an empty list makes the new head empty.\<close>

lemma list_replace_empty:
  assumes "ring h x []" "alive h y" "y \<noteq> x"
  shows "\<exists>h'. list_replace x y h = Some h' \<and> ring h' y []"
proof -
  have al: "alive h x"
    using ring_alive [OF assms(1)] by simp
  have "list_replace x y h =
      Some (put_next y y (put_prev y y (put_prev x y (put_next y x h))))"
    using assms al by (simp add: list_replace_def ring_Nil)
  then show ?thesis
    using assms al by (simp add: ring_Nil)
qed

lemma list_replace_init_ring:
  assumes "ring h hp (xs @ x # ys)" "alive h y" "y \<notin> set (hp # xs @ x # ys)"
  shows "\<exists>h'. list_replace_init x y h = Some h' \<and> ring h' hp (xs @ y # ys) \<and> ring h' x []"
proof -
  from list_replace_ring [OF assms] obtain h1 where
    h1: "list_replace x y h = Some h1" "ring h1 hp (xs @ y # ys)" "alive h1 x" by blast
  from init_ring [OF h1(3)] obtain h2 where
    h2: "INIT_LIST_HEAD x h1 = Some h2" "ring h2 x []" "agree_on (- {x}) h1 h2" by blast
  have "x \<notin> set (hp # xs @ y # ys)"
    using assms by (auto simp: ring_def)
  then have "ring h2 hp (xs @ y # ys)"
    using h2(3) by (intro ring_agree [OF h1(2)]) (auto intro: agree_on_mono)
  with h1 h2 show ?thesis by (simp add: list_replace_init_def)
qed

text \<open>Moves within one list, to its front or to its end.\<close>

lemma list_move_ring:
  assumes "ring h hp (xs @ x # ys)"
  shows "\<exists>h'. list_move x hp h = Some h' \<and> ring h' hp (x # xs @ ys)"
proof -
  from del_entry_ring [OF assms] obtain h1 where
    h1: "list_del_entry x h = Some h1" "ring h1 hp ([] @ xs @ ys)" "alive h1 x" by auto
  moreover have "x \<notin> set (hp # [] @ xs @ ys)"
    using assms by (auto simp: ring_def)
  ultimately show ?thesis
    using list_add_ring [OF h1(2,3)] by (auto simp: list_move_def)
qed

lemma list_move_tail_ring:
  assumes "ring h hp (xs @ x # ys)"
  shows "\<exists>h'. list_move_tail x hp h = Some h' \<and> ring h' hp (xs @ ys @ [x])"
proof -
  from del_entry_ring [OF assms] obtain h1 where
    h1: "list_del_entry x h = Some h1" "ring h1 hp ((xs @ ys) @ [])" "alive h1 x" by auto
  moreover have "x \<notin> set (hp # (xs @ ys) @ [])"
    using assms by (auto simp: ring_def)
  ultimately show ?thesis
    using list_add_tail_ring [OF h1(2,3)] by (auto simp: list_move_tail_def)
qed

text \<open>Moves from one list to another.\<close>

lemma list_move_across:
  assumes "ring h hp (xs @ x # ys)" "ring h hq zs" "set (hp # xs @ x # ys) \<inter> set (hq # zs) = {}"
  shows "\<exists>h'. list_move x hq h = Some h' \<and> ring h' hp (xs @ ys) \<and> ring h' hq (x # zs)"
proof -
  from del_entry_ring [OF assms(1)] obtain h1 where
    h1: "list_del_entry x h = Some h1" "ring h1 hp (xs @ ys)" "alive h1 x"
      "agree_on (- set (hp # xs @ ys)) h h1" by blast
  have "ring h1 hq ([] @ zs)"
    using assms(3) h1(4) by (auto intro!: ring_agree [OF assms(2)] agree_on_mono [OF h1(4)])
  moreover have "x \<notin> set (hq # [] @ zs)"
    using assms(3) by auto
  ultimately obtain h2 where h2: "list_add x hq h1 = Some h2" "ring h2 hq (x # zs)"
      "agree_on (- set (hq # x # zs)) h1 h2"
    using list_add_ring [of h1 hq "[]" zs x] h1(3) by auto
  have "x \<notin> set (hp # xs @ ys)"
    using assms(1) by (auto simp: ring_def)
  with assms(3) have "ring h2 hp (xs @ ys)"
    by (intro ring_agree [OF h1(2)] agree_on_mono [OF h2(3)]) auto
  with h1 h2 show ?thesis by (auto simp: list_move_def)
qed

lemma list_rotate_left_ring:
  assumes "ring h hp xs"
  shows "\<exists>h'. list_rotate_left hp h = Some h' \<and> ring h' hp (rotate1 xs)"
proof (cases xs)
  case Nil
  with assms ring_start [OF assms] show ?thesis
    by (auto simp: list_rotate_left_def list_empty_def)
next
  case (Cons x ys)
  with assms have r: "ring h hp ([] @ x # ys)" by simp
  have "x \<noteq> hp"
    using r by (auto simp: ring_def)
  with ring_start [OF assms] Cons list_move_tail_ring [OF r] show ?thesis
    by (auto simp: list_rotate_left_def list_empty_def)
qed

section \<open>Tests\<close>

lemma list_empty_ring: "ring h hp xs \<Longrightarrow> list_empty hp h = Some (xs = [])"
  using ring_start [of h hp xs] by (cases xs) (auto simp: list_empty_def ring_def)

lemma list_empty_careful_ring: "ring h hp xs \<Longrightarrow> list_empty_careful hp h = Some (xs = [])"
  using ring_start [of h hp xs] ring_end [of h hp xs]
  by (cases xs) (auto simp: list_empty_careful_def ring_def)

lemma list_is_last_ring:
  "ring h hp (xs @ x # ys) \<Longrightarrow> list_is_last x hp h = Some (ys = [])"
  using ring_next [of h hp xs x ys] by (cases ys) (auto simp: list_is_last_def ring_def)

lemma list_is_singular_ring: "ring h hp xs \<Longrightarrow> list_is_singular hp h = Some (length xs = 1)"
proof -
  assume r: "ring h hp xs"
  then have "hd (xs @ [hp]) = last (hp # xs) \<longleftrightarrow> length xs = 1" if "xs \<noteq> []"
    using that by (cases xs; cases "tl xs" rule: rev_cases) (auto simp: ring_def)
  with r show ?thesis
    using list_empty_ring [OF r] ring_start [OF r] ring_end [OF r]
    by (cases "xs = []") (auto simp: list_is_singular_def simp del: last.simps)
qed

lemma first_or_null_ring:
  "ring h hp xs \<Longrightarrow>
   list_first_entry_or_null hp off h = Some (if xs = [] then NULL else hd xs - off)"
  using list_empty_ring [of h hp xs] ring_start [of h hp xs]
  by (auto simp: list_first_entry_or_null_def list_first_entry_def container_of_def hd_append)

end
