(* ===== verification/List_Whole.thy ===== *)
theory List_Whole
  imports List_Ring
begin

text \<open>
  Joining and cutting whole lists, the iteration macros, and the lists as instances of the
  container interfaces.
\<close>

section \<open>Splicing\<close>

lemma splice_between_ring:
  assumes r: "ring h hp (us @ vs)" and l: "ring h lst xs" "xs \<noteq> []"
    and disj: "set (hp # us @ vs) \<inter> set (lst # xs) = {}"
    and p: "p = last (hp # us)" and q: "q = hd (vs @ [hp])"
  shows "\<exists>h'. list_splice_between lst p q h = Some h' \<and> ring h' hp (us @ xs @ vs) \<and>
    alive h' lst \<and> agree_on (- set (hp # us @ xs @ vs)) h h'"
proof -
  let ?f = "hd xs"
  let ?l = "last xs"
  have pin: "p \<in> set (hp # us)" and qin: "q \<in> set (vs @ [hp])"
    and fin: "?f \<in> set xs" and lin: "?l \<in> set xs"
    using p q l(2) by (simp_all, cases vs, auto)
  have al: "alive h p" "alive h q" "alive h ?f" "alive h ?l" "alive h lst"
    using ring_alive [OF r] ring_alive [OF l(1)] pin qin fin lin by auto
  have rd: "next_of lst h = Some ?f" "prev_of lst h = Some ?l"
    using ring_start [OF l(1)] ring_end [OF l(1)] l(2) by (auto simp: hd_append)
  define h' where "h' = put_prev q ?l (put_next ?l q (put_next p ?f (put_prev ?f p h)))"
  have ev: "list_splice_between lst p q h = Some h'"
    using al rd by (simp add: list_splice_between_def h'_def)
  have d: "distinct (hp # us @ vs)" "distinct xs" "p \<notin> set xs" "q \<notin> set xs"
      "?f \<notin> set (hp # us)" "?f \<notin> set (vs @ [hp])" "?l \<notin> set (hp # us)" "?l \<notin> set (vs @ [hp])"
    using r l(1) disj pin qin fin lin by (auto simp: ring_def)
  have ne: "p \<noteq> ?f" "p \<noteq> ?l" "q \<noteq> ?f" "q \<noteq> ?l"
    using d(3,4) fin lin by auto
  have pb: "p \<notin> set (butlast (hp # us))" "p \<notin> set vs"
    using last_notin_butlast [of "hp # us"] d(1) p pin by auto
  have qb: "q \<notin> set us" "q \<notin> set (tl (vs @ [hp]))"
    using d(1) q by (cases vs; auto)+
  have xb: "?l \<notin> set (butlast xs)" "?f \<notin> set (tl xs)"
    using last_notin_butlast [of xs] d(2) l(2) by (auto, cases xs, auto)
  have ub: "?l \<notin> set (butlast (hp # us))" "?f \<notin> set (butlast (hp # us))"
    using d(5,7) by (blast dest: in_set_butlastD)+
  have "chain h' (hp # us) = chain h (hp # us)"
    using al d pb qb ub by (intro chain_frame) (auto simp: h'_def)
  moreover have "chain h' (vs @ [hp]) = chain h (vs @ [hp])"
    using al d pb qb by (intro chain_frame) (auto simp: h'_def dest: in_set_butlastD in_set_tlD)
  moreover have "chain h' xs = chain h xs"
    using al d xb by (intro chain_frame) (auto simp: h'_def dest: in_set_butlastD in_set_tlD)
  moreover have "linked h' p ?f" "linked h' ?l q"
    using al ne by (auto simp: linked_def h'_def)
  moreover have "chain h xs"
  proof -
    from l(1) have "chain h ([lst] @ xs @ [lst])" by (simp add: ring_def)
    then show ?thesis using l(2) by (subst (asm) chain_append; simp add: chain_append)
  qed
  moreover have "chain h' ((xs @ vs) @ [hp]) \<longleftrightarrow>
      chain h' xs \<and> linked h' ?l (hd (vs @ [hp])) \<and> chain h' (vs @ [hp])"
    using chain_append [of xs "vs @ [hp]" h'] l(2) by simp
  ultimately have "ring h' hp (us @ xs @ vs)"
    using r [unfolded ring_gap] d disj p q l(2) unfolding ring_gap by (auto simp: hd_append)
  moreover have "agree_on (- set (hp # us @ xs @ vs)) h h'"
    unfolding h'_def using pin qin fin lin by (intro agree_put agree_on_refl) auto
  moreover have "alive h' lst"
    using al(5) by (simp add: h'_def)
  ultimately show ?thesis using ev by blast
qed

text \<open>The four splices: before the first entry or after the last, with or without reset.\<close>

lemma list_splice_ring:
  assumes "ring h hp ys" "ring h lst xs" "set (hp # ys) \<inter> set (lst # xs) = {}"
  shows "\<exists>h'. list_splice lst hp h = Some h' \<and> ring h' hp (xs @ ys)"
    and "\<exists>h'. list_splice_tail lst hp h = Some h' \<and> ring h' hp (ys @ xs)"
  using list_empty_ring [OF assms(2)] ring_start [OF assms(1)] ring_end [OF assms(1)]
    splice_between_ring [of h hp "[]" ys lst xs hp] splice_between_ring [of h hp ys "[]" lst xs _ hp]
    assms by (cases "xs = []"; auto simp: list_splice_def list_splice_tail_def)+

lemma reset_after:
  assumes "ring h hp zs" "alive h lst" "lst \<notin> set (hp # zs)"
  shows "\<exists>h'. INIT_LIST_HEAD lst h = Some h' \<and> ring h' hp zs \<and> ring h' lst []"
proof -
  from init_ring [OF assms(2)] obtain h' where
    h': "INIT_LIST_HEAD lst h = Some h'" "ring h' lst []" "agree_on (- {lst}) h h'" by blast
  have "ring h' hp zs"
    using assms(3) by (intro ring_agree [OF assms(1)] agree_on_mono [OF h'(3)]) auto
  with h' show ?thesis by blast
qed

lemma list_splice_init_ring:
  assumes "ring h hp ys" "ring h lst xs" "set (hp # ys) \<inter> set (lst # xs) = {}"
  shows "\<exists>h'. list_splice_init lst hp h = Some h' \<and> ring h' hp (xs @ ys) \<and> ring h' lst []"
proof (cases "xs = []")
  case True
  with assms list_empty_ring [OF assms(2)] show ?thesis by (simp add: list_splice_init_def)
next
  case False
  from splice_between_ring [of h hp "[]" ys lst xs, OF _ assms(2) False _ refl refl] assms obtain h1 where
    h1: "list_splice_between lst hp (hd (ys @ [hp])) h = Some h1" "ring h1 hp (xs @ ys)" "alive h1 lst"
    by auto
  have "lst \<notin> set (hp # xs @ ys)"
    using assms by (auto simp: ring_def)
  from reset_after [OF h1(2,3) this] h1(1) False list_empty_ring [OF assms(2)]
    ring_start [OF assms(1)] show ?thesis by (auto simp: list_splice_init_def)
qed

lemma list_splice_tail_init_ring:
  assumes "ring h hp ys" "ring h lst xs" "set (hp # ys) \<inter> set (lst # xs) = {}"
  shows "\<exists>h'. list_splice_tail_init lst hp h = Some h' \<and> ring h' hp (ys @ xs) \<and> ring h' lst []"
proof (cases "xs = []")
  case True
  with assms list_empty_ring [OF assms(2)] show ?thesis by (simp add: list_splice_tail_init_def)
next
  case False
  from splice_between_ring [of h hp ys "[]" lst xs, OF _ assms(2) False _ refl refl] assms obtain h1 where
    h1: "list_splice_between lst (last (hp # ys)) hp h = Some h1" "ring h1 hp (ys @ xs)" "alive h1 lst"
    by auto
  have "lst \<notin> set (hp # ys @ xs)"
    using assms by (auto simp: ring_def)
  from reset_after [OF h1(2,3) this] h1(1) False list_empty_ring [OF assms(2)]
    ring_end [OF assms(1)] show ?thesis
    by (auto simp: list_splice_tail_init_def simp del: last.simps)
qed

section \<open>Cutting\<close>

lemma list_cut_at_ring:
  assumes r: "ring h hp (xs @ e # ys)" and l: "alive h lst" "lst \<notin> set (hp # xs @ e # ys)"
  shows "\<exists>h'. list_cut_at lst hp e h = Some h' \<and> ring h' lst (xs @ [e]) \<and> ring h' hp ys"
proof -
  let ?n = "hd (ys @ [hp])"
  let ?f = "hd (xs @ [e])"
  have fin: "?f \<in> set (xs @ [e])" and nin: "?n \<in> set (ys @ [hp])"
    by (cases xs; simp) (cases ys; simp)
  have al: "alive h hp" "alive h e" "alive h ?n" "alive h ?f"
    using ring_alive [OF r] fin nin by auto
  have rd: "next_of e h = Some ?n" "next_of hp h = Some ?f"
    using ring_next [OF r] ring_start [OF r] by (simp_all add: hd_append)
  have d: "distinct (xs @ [e])" "distinct (hp # ys)" "set (xs @ [e]) \<inter> set (hp # ys) = {}"
      "lst \<notin> set (xs @ [e])" "lst \<notin> set (hp # ys)"
    using r l by (auto simp: ring_def)
  have ne: "?f \<noteq> lst" "?n \<noteq> lst" "?f \<noteq> hp" "?f \<noteq> ?n" "e \<noteq> hp" "e \<noteq> lst" "hp \<noteq> lst"
      "?n \<notin> set (xs @ [e])" "?f \<notin> set (hp # ys)" "e \<notin> set (hp # ys)"
    using d fin nin by auto
  define h' where "h' = put_prev ?n hp (put_next hp ?n (put_next e lst (put_prev lst e
      (put_prev ?f lst (put_next lst ?f h)))))"
  have ev: "list_cut_at lst hp e h = Some h'"
    using al rd ne l(1) by (simp add: list_cut_at_def h'_def)
  have fb: "?f \<notin> set (tl (xs @ [e]))" "?n \<notin> set (tl (ys @ [hp]))"
    using d by (cases xs; auto) (cases ys; use d in auto)
  have cx: "chain h (xs @ [e])" "chain h (ys @ [hp])"
    using r by (auto simp: ring_at) (cases xs; use chain_append [of "hp # xs" "[e]" h] in auto)
  have "chain h' (xs @ [e]) = chain h (xs @ [e])"
    using al ne d fb l(1) by (intro chain_frame) (auto simp: h'_def dest: in_set_tlD)
  moreover have "chain h' (ys @ [hp]) = chain h (ys @ [hp])"
    using al ne d fb l(1) by (intro chain_frame) (auto simp: h'_def dest: in_set_tlD)
  moreover have "linked h' lst ?f" "linked h' e lst" "linked h' hp ?n"
    using al ne l(1) by (auto simp: linked_def h'_def)
  ultimately have "chain h' (lst # (xs @ [e]) @ [lst])" "chain h' (hp # ys @ [hp])"
    using cx chain_append [of "[lst]" "(xs @ [e]) @ [lst]" h'] chain_append [of "xs @ [e]" "[lst]" h']
      chain_append [of "[hp]" "ys @ [hp]" h'] by (auto simp: hd_append)
  then have "ring h' lst (xs @ [e])" "ring h' hp ys"
    using d by (auto simp: ring_def)
  with ev show ?thesis by blast
qed

text \<open>
  \<open>list_cut_position\<close> moves the entries up to \<open>e\<close> to \<open>lst\<close>; with the head itself as the
  position \<open>lst\<close> becomes empty.
\<close>

lemma list_cut_position_ring:
  assumes r: "ring h hp (xs @ e # ys)" and l: "alive h lst" "lst \<notin> set (hp # xs @ e # ys)"
  shows "\<exists>h'. list_cut_position lst hp e h = Some h' \<and> ring h' lst (xs @ [e]) \<and> ring h' hp ys"
proof -
  have "e \<noteq> hp"
    using r by (auto simp: ring_def)
  moreover have "length (xs @ e # ys) = 1 \<Longrightarrow> hd ((xs @ e # ys) @ [hp]) = e"
    by (cases xs) auto
  ultimately show ?thesis
    using list_empty_ring [OF r] list_is_singular_ring [OF r] ring_start [OF r]
      list_cut_at_ring [OF r l] by (auto simp: list_cut_position_def)
qed

lemma list_cut_position_head:
  assumes r: "ring h hp xs" and l: "alive h lst" "lst \<notin> set (hp # xs)" and ne: "xs \<noteq> []"
  shows "\<exists>h'. list_cut_position lst hp hp h = Some h' \<and> ring h' lst [] \<and> ring h' hp xs"
  using reset_after [OF r l] list_empty_ring [OF r] list_is_singular_ring [OF r] ring_start [OF r] ne
  by (auto simp: list_cut_position_def)

end
