(* ===== verification/List_Iter.thy ===== *)
theory List_Iter
  imports List_Whole
begin

text \<open>
  The iteration macros over a ring: one rule for the macros that keep the list, one for the
  \<open>_safe\<close> macros whose body may unlink the cursor. The lists are then interpreted as
  instances of the container interfaces.
\<close>

section \<open>Rules for the loops\<close>

text \<open>
  \<open>P ys s\<close> holds after the entries \<open>ys\<close> have been visited; the body keeps it or leaves the
  loop with a result in \<open>Q\<close>.
\<close>

definition loop_result :: "('s \<Rightarrow> bool) \<Rightarrow> ('r \<Rightarrow> bool) \<Rightarrow> ('s + 'r) option \<Rightarrow> bool" where
  "loop_result P Q res \<longleftrightarrow> (\<exists>s. res = Some (Inl s) \<and> P s) \<or> (\<exists>r. res = Some (Inr r) \<and> Q r)"

lemma loop_resultI [intro]:
  "P s \<Longrightarrow> loop_result P Q (Some (Inl s))" "Q r \<Longrightarrow> loop_result P Q (Some (Inr r))"
  by (simp_all add: loop_result_def)

lemma loop_result_mono:
  "loop_result P Q r \<Longrightarrow> (\<And>s. P s \<Longrightarrow> P' s) \<Longrightarrow> loop_result P' Q r"
  by (auto simp: loop_result_def)

lemma for_list_rule:
  assumes cont: "\<And>e. e \<in> set es \<Longrightarrow> cont e" "\<not> cont stop"
    and body: "\<And>ys e zs s. es = ys @ e # zs \<Longrightarrow> P ys s \<Longrightarrow>
      loop_result (\<lambda>s. P (ys @ [e]) s \<and> step e s = Some (hd (zs @ [stop]))) Q (body e s)"
  shows "es = ys @ zs \<Longrightarrow> P ys s \<Longrightarrow>
    loop_result (P es) Q (for_list cont step body (hd (zs @ [stop])) s)"
proof (induction zs arbitrary: ys s)
  case Nil
  then show ?case using cont by (auto simp: for_list_def)
next
  case (Cons e zs)
  have c: "cont e" using cont(1) Cons.prems by simp
  from body [OF Cons.prems] show ?case
    unfolding loop_result_def
  proof (elim disjE exE conjE)
    fix s' assume s': "body e s = Some (Inl s')" "P (ys @ [e]) s'" "step e s' = Some (hd (zs @ [stop]))"
    then have "for_list cont step body e s = for_list cont step body (hd (zs @ [stop])) s'"
      using c by (simp add: for_list_def)
    with Cons.IH [of "ys @ [e]" s'] Cons.prems s' show "(\<exists>s'. for_list cont step body (hd ((e # zs) @ [stop])) s = Some (Inl s') \<and> P es s') \<or>
        (\<exists>r. for_list cont step body (hd ((e # zs) @ [stop])) s = Some (Inr r) \<and> Q r)"
      by (simp add: loop_result_def)
  next
    fix r assume "body e s = Some (Inr r)" "Q r"
    then show "(\<exists>s'. for_list cont step body (hd ((e # zs) @ [stop])) s = Some (Inl s') \<and> P es s') \<or>
        (\<exists>r. for_list cont step body (hd ((e # zs) @ [stop])) s = Some (Inr r) \<and> Q r)"
      using c by (simp add: for_list_def)
  qed
qed

lemma hd_map_off: "hd (map (\<lambda>p. p - off) zs @ [hp - off]) = hd (zs @ [hp]) - (off :: ptr)"
  by (cases zs) auto

text \<open>The body of a macro that keeps the ring, entry by entry.\<close>

lemma list_for_each_entry_rule:
  assumes ring: "\<And>ys s. P ys s \<Longrightarrow> ring (get s) hp xs"
    and body: "\<And>ys p zs s. xs = ys @ p # zs \<Longrightarrow> P ys s \<Longrightarrow>
      loop_result (P (ys @ [p])) Q (body (container_of p off) s)"
    and start: "P [] s"
  shows "loop_result (P xs) Q (list_for_each_entry get off hp body s)"
proof -
  let ?m = "map (\<lambda>p. p - off)"
  let ?P = "\<lambda>es s. \<exists>ys zs. xs = ys @ zs \<and> es = ?m ys \<and> P ys s"
  have "loop_result (?P (?m xs)) Q (for_list (\<lambda>pos. member_of pos off \<noteq> hp)
      (\<lambda>pos s. list_next_entry pos off (get s)) body (hd (?m xs @ [hp - off])) s)"
  proof (rule for_list_rule [where P = ?P and ys = "[]"])
    show "member_of e off \<noteq> hp" if "e \<in> set (?m xs)" for e
      using that ring [OF start] by (auto simp: member_of_def ring_def)
    show "\<not> member_of (hp - off) off \<noteq> hp" by (simp add: member_of_def)
    show "?P [] s" using start by auto
  next
    fix es e fs s
    assume split: "?m xs = es @ e # fs" and "?P es s"
    then obtain ys zs0 where y: "xs = ys @ zs0" "es = ?m ys" "P ys s" by blast
    with split obtain p zs where p: "zs0 = p # zs" "e = p - off" "fs = ?m zs" by auto
    have run: "loop_result (P (ys @ [p])) Q (body e s)"
      using body [of ys p zs s] y p by (simp add: container_of_def)
    have nxt: "list_next_entry e off (get s') = Some (hd (fs @ [hp - off]))"
      if "P (ys @ [p]) s'" for s'
      using ring_next [of "get s'" hp ys p zs] ring [OF that] y p
      by (simp add: list_next_entry_def member_of_def container_of_def hd_map_off)
    have inv: "?P (es @ [e]) s'" if "P (ys @ [p]) s'" for s'
      using that y p by (intro exI [of _ "ys @ [p]"] exI [of _ zs]) simp
    show "loop_result (\<lambda>s. ?P (es @ [e]) s \<and>
        list_next_entry e off (get s) = Some (hd (fs @ [hp - off]))) Q (body e s)"
      by (rule loop_result_mono [OF run]) (intro conjI inv nxt)
  qed simp
  moreover have "list_first_entry hp off (get s) = Some (hd (?m xs @ [hp - off]))"
    using ring_start [OF ring [OF start]]
    by (simp add: list_first_entry_def container_of_def hd_map_off)
  moreover have "P xs s" if "?P (?m xs) s" for s
  proof -
    from that obtain ys zs where "xs = ys @ zs" "?m xs = ?m ys" "P ys s" by blast
    moreover from this(2) have "length xs = length ys" by (metis length_map)
    ultimately show ?thesis by simp
  qed
  ultimately show ?thesis
    by (auto simp: list_for_each_entry_def loop_result_def simp del: map_map)
qed

text \<open>The \<open>_safe\<close> macro: after the visit of \<open>ys\<close> the ring holds what is left.\<close>

lemma for_list_safe_rule:
  assumes ring: "\<And>ys zs s. xs = ys @ zs \<Longrightarrow> P ys s \<Longrightarrow> ring (get s) hp zs"
    and body: "\<And>ys p zs s. xs = ys @ p # zs \<Longrightarrow> P ys s \<Longrightarrow>
      loop_result (P (ys @ [p])) Q (body (container_of p off) s)"
  shows "xs = ys @ zs \<Longrightarrow> P ys s \<Longrightarrow> n = hd (tl (zs @ [hp]) @ [hd (zs @ [hp])]) - off \<Longrightarrow>
    loop_result (P xs) Q (for_list_safe (\<lambda>pos. member_of pos off \<noteq> hp)
      (\<lambda>n s. list_next_entry n off (get s)) body (hd (zs @ [hp]) - off) n s)"
proof (induction zs arbitrary: ys s n)
  case Nil
  then show ?case by (auto simp: for_list_safe_def member_of_def)
next
  case (Cons p zs)
  let ?go = "for_list_safe (\<lambda>pos. member_of pos off \<noteq> hp) (\<lambda>n s. list_next_entry n off (get s)) body"
  have c: "member_of (p - off) off \<noteq> hp"
    using ring [OF Cons.prems(1,2)] by (auto simp: member_of_def ring_def)
  have n: "n = hd (zs @ [hp]) - off"
    using Cons.prems(3) by (simp add: hd_append)
  from body [OF Cons.prems(1,2)] consider
      (go) s' where "body (p - off) s = Some (Inl s')" "P (ys @ [p]) s'"
    | (out) r where "body (p - off) s = Some (Inr r)" "Q r"
    by (auto simp: loop_result_def container_of_def)
  then show ?case
  proof cases
    case go
    have xs: "xs = (ys @ [p]) @ zs" using Cons.prems(1) by simp
    note r = ring [OF xs go(2)]
    let ?n = "hd (tl (zs @ [hp]) @ [hd (zs @ [hp])]) - off"
    have "list_next_entry n off (get s') = Some ?n"
      using n ring_start [OF r] ring_next [of "get s'" hp "[]" "hd zs" "tl zs"] r
      by (cases zs) (auto simp: list_next_entry_def member_of_def container_of_def hd_append)
    then have "?go (p - off) n s = ?go (hd (zs @ [hp]) - off) ?n s'"
      using go(1) c n by (simp add: for_list_safe_def)
    with Cons.IH [OF xs go(2) refl] show ?thesis by simp
  next
    case out
    then have "?go (p - off) n s = Some (Inr r)"
      using c by (simp add: for_list_safe_def)
    with out show ?thesis by (auto simp: loop_result_def)
  qed
qed

lemma list_for_each_entry_safe_rule:
  assumes ring: "\<And>ys zs s. xs = ys @ zs \<Longrightarrow> P ys s \<Longrightarrow> ring (get s) hp zs"
    and body: "\<And>ys p zs s. xs = ys @ p # zs \<Longrightarrow> P ys s \<Longrightarrow>
      loop_result (P (ys @ [p])) Q (body (container_of p off) s)"
    and start: "P [] s"
  shows "loop_result (P xs) Q (list_for_each_entry_safe get off hp body s)"
proof -
  have r: "ring (get s) hp xs" using ring [of "[]"] start by simp
  have "list_first_entry hp off (get s) = Some (hd (xs @ [hp]) - off)"
    using ring_start [OF r] by (simp add: list_first_entry_def container_of_def)
  moreover have "list_next_entry (hd (xs @ [hp]) - off) off (get s) =
      Some (hd (tl (xs @ [hp]) @ [hd (xs @ [hp])]) - off)"
    using ring_start [OF r] ring_next [of "get s" hp "[]" "hd xs" "tl xs"] r
    by (cases xs) (auto simp: list_next_entry_def member_of_def container_of_def hd_append)
  moreover have "loop_result (P xs) Q (for_list_safe (\<lambda>pos. member_of pos off \<noteq> hp)
      (\<lambda>n s. list_next_entry n off (get s)) body (hd (xs @ [hp]) - off)
      (hd (tl (xs @ [hp]) @ [hd (xs @ [hp])]) - off) s)"
    by (rule for_list_safe_rule [where P = P and ys = "[]"])
      (erule (1) ring, erule (1) body, simp, rule start, rule refl)
  ultimately show ?thesis
    by (simp add: list_for_each_entry_safe_def)
qed

section \<open>The container interfaces\<close>

interpretation lfwd: walkable "\<lambda>h xs. ring h hp xs" "next_of hp" "\<lambda>h x. next_of x h" hp
  for hp :: ptr
  by unfold_locales (auto simp: ring_start intro: ring_next simp: ring_def)

interpretation lbwd: walkable "\<lambda>h xs. ring h hp (rev xs)" "prev_of hp" "\<lambda>h x. prev_of x h" hp
  for hp :: ptr
proof unfold_locales
  have last_rev: "last (hp # rev ys) = hd (ys @ [hp])" for ys
    by (induction ys) auto
  show "ring h hp (rev xs) \<Longrightarrow> hp \<notin> set xs" for h xs
    by (simp add: ring_def)
  show "ring h hp (rev xs) \<Longrightarrow> prev_of hp h = Some (hd (xs @ [hp]))" for h xs
    using ring_end last_rev by metis
  show "ring h hp (rev (xs @ x # ys)) \<Longrightarrow> prev_of x h = Some (hd (ys @ [hp]))" for h xs x ys
    using ring_prev [of h hp "rev ys" x "rev xs"] last_rev by simp
qed

definition list_fresh :: "ptr \<Rightarrow> lists \<Rightarrow> ptr \<Rightarrow> bool" where
  "list_fresh hp h x \<longleftrightarrow> alive h x \<and> x \<noteq> hp"

interpretation ladd: gap_index "\<lambda>h xs. ring h hp xs" "list_fresh hp"
    "\<lambda>h xs ys p. ring h hp (xs @ ys) \<and> p = last (hp # xs)" list_add list_del
  for hp :: ptr
proof unfold_locales
  show "ring h hp (xs @ ys) \<Longrightarrow> \<exists>p. ring h hp (xs @ ys) \<and> p = last (hp # xs)" for h xs ys
    by blast
  show "\<exists>h'. list_add x p h = Some h' \<and> ring h' hp (xs @ x # ys)"
    if "ring h hp (xs @ ys) \<and> p = last (hp # xs)" "list_fresh hp h x" "x \<notin> set (xs @ ys)"
    for h xs ys p x
    using that list_add_ring [of h hp xs ys x] by (auto simp: list_fresh_def simp del: last.simps)
  show "ring h hp (xs @ x # ys) \<Longrightarrow> \<exists>h'. list_del x h = Some h' \<and> ring h' hp (xs @ ys)" for h xs x ys
    using list_del_ring [of h hp xs x ys] by blast
qed

interpretation ltail: gap_index "\<lambda>h xs. ring h hp xs" "list_fresh hp"
    "\<lambda>h xs ys p. ring h hp (xs @ ys) \<and> p = hd (ys @ [hp])" list_add_tail list_del_init
  for hp :: ptr
proof unfold_locales
  show "ring h hp (xs @ ys) \<Longrightarrow> \<exists>p. ring h hp (xs @ ys) \<and> p = hd (ys @ [hp])" for h xs ys
    by blast
  show "\<exists>h'. list_add_tail x p h = Some h' \<and> ring h' hp (xs @ x # ys)"
    if "ring h hp (xs @ ys) \<and> p = hd (ys @ [hp])" "list_fresh hp h x" "x \<notin> set (xs @ ys)"
    for h xs ys p x
    using that list_add_tail_ring [of h hp xs ys x] by (auto simp: list_fresh_def)
  show "ring h hp (xs @ x # ys) \<Longrightarrow> \<exists>h'. list_del_init x h = Some h' \<and> ring h' hp (xs @ ys)" for h xs x ys
    using list_del_init_ring [of h hp xs x ys] by blast
qed

end
