(* ===== verification/List_Props.thy ===== *)
theory List_Props
  imports List_Iter
begin

text \<open>The contract of \<open>src/linux/list.h\<close>, property by property, over the rings.\<close>

section \<open>A concrete heap for the instances\<close>

text \<open>The head 16 with the entries 32, 48 and 64, an empty head 80 and a loose entry 96.\<close>

definition ex_lists :: lists where
  "ex_lists = [16 \<mapsto> \<lparr>lh_next = 32, lh_prev = 64\<rparr>, 32 \<mapsto> \<lparr>lh_next = 48, lh_prev = 16\<rparr>,
     48 \<mapsto> \<lparr>lh_next = 64, lh_prev = 32\<rparr>, 64 \<mapsto> \<lparr>lh_next = 16, lh_prev = 48\<rparr>,
     80 \<mapsto> \<lparr>lh_next = 80, lh_prev = 80\<rparr>, 96 \<mapsto> \<lparr>lh_next = 0, lh_prev = 0\<rparr>]"

lemma ex_ring: "ring ex_lists 16 [32, 48, 64]" "ring ex_lists 80 []"
  "alive ex_lists 96" "alive ex_lists 80"
  by (simp_all add: ring_def ex_lists_def linked_def next_of_def prev_of_def alive_def)

section \<open>Properties\<close>

text \<open>Insertion into a list. At every gap of a list, \<open>list_add\<close> after the entry on its
  left and \<open>list_add_tail\<close> before the entry on its right are the same change: both succeed,
  give the list with the new entry at the gap, linked both ways, and touch no other entry.\<close>

theorem list_insert_correct:
  assumes "ring h hp (xs @ ys)" "alive h x" "x \<notin> set (hp # xs @ ys)"
  shows "\<exists>h'. list_add x (last (hp # xs)) h = Some h' \<and>
    list_add_tail x (hd (ys @ [hp])) h = Some h' \<and> ring h' hp (xs @ x # ys) \<and>
    agree_on (- set (hp # xs @ x # ys)) h h'"
proof -
  have "next_of (last (hp # xs)) h = Some (hd (ys @ [hp]))"
      "prev_of (hd (ys @ [hp])) h = Some (last (hp # xs))"
    using assms(1) by (simp_all add: ring_gap linked_def)
  with add_between_ring [OF assms refl refl] show ?thesis
    by (simp add: list_add_def list_add_tail_def)
qed

theorem list_insert_correct_witness:
  "\<exists>h'. list_add 96 32 ex_lists = Some h' \<and> list_add_tail 96 48 ex_lists = Some h' \<and>
    ring h' 16 [32, 96, 48, 64] \<and> agree_on (- {16, 32, 96, 48, 64}) ex_lists h'"
  using list_insert_correct [of ex_lists 16 "[32]" "[48, 64]" 96] ex_ring by simp

text \<open>Removal from a list. \<open>list_del\<close> takes out exactly the entry, closes the gap and
  leaves the two poison values in the entry; \<open>list_del_init\<close> leaves the entry as an empty
  list, so that deleting it once more is harmless, which is what the device clean-up does.\<close>

theorem list_delete_correct:
  assumes "ring h hp (xs @ x # ys)"
  shows "\<exists>h1 h2 h3. list_del x h = Some h1 \<and> ring h1 hp (xs @ ys) \<and>
    next_of x h1 = Some LIST_POISON1 \<and> prev_of x h1 = Some LIST_POISON2 \<and>
    list_del_init x h = Some h2 \<and> ring h2 hp (xs @ ys) \<and> list_empty x h2 = Some True \<and>
    list_del x h2 = Some h3 \<and> ring h3 hp (xs @ ys)"
proof -
  from list_del_init_ring [OF assms] obtain h2 where
    h2: "list_del_init x h = Some h2" "ring h2 hp (xs @ ys)" "ring h2 x []" by blast
  from list_del_alone [OF h2(3)] obtain h3 where
    h3: "list_del x h2 = Some h3" "agree_on (- {x}) h2 h3" by blast
  have "x \<notin> set (hp # xs @ ys)"
    using assms by (auto simp: ring_def)
  then have "ring h3 hp (xs @ ys)"
    by (intro ring_agree [OF h2(2)] agree_on_mono [OF h3(2)]) auto
  moreover obtain h1 where "list_del x h = Some h1" "ring h1 hp (xs @ ys)"
      "next_of x h1 = Some LIST_POISON1" "prev_of x h1 = Some LIST_POISON2"
    using list_del_ring [OF assms] by blast
  ultimately show ?thesis
    using h2 h3 list_empty_ring [OF h2(3)] by simp
qed

theorem list_delete_correct_witness:
  "\<exists>h1 h2 h3. list_del 48 ex_lists = Some h1 \<and> ring h1 16 [32, 64] \<and>
    next_of 48 h1 = Some LIST_POISON1 \<and> prev_of 48 h1 = Some LIST_POISON2 \<and>
    list_del_init 48 ex_lists = Some h2 \<and> ring h2 16 [32, 64] \<and> list_empty 48 h2 = Some True \<and>
    list_del 48 h2 = Some h3 \<and> ring h3 16 [32, 64]"
  using list_delete_correct [of ex_lists 16 "[32]" 48 "[64]"] ex_ring by simp

text \<open>C32. Cutting and splicing. \<open>list_cut_position\<close> moves exactly the entries up to the
  given one, in order, to the other list; \<open>list_splice\<close> of that list undoes the cut, and
  \<open>list_splice_tail_init\<close> instead appends it and leaves its head empty.\<close>

theorem list_cut_splice_roundtrip:
  assumes "ring h hp (xs @ e # ys)" "alive h lst" "lst \<notin> set (hp # xs @ e # ys)"
  shows "\<exists>h1 h2 h3. list_cut_position lst hp e h = Some h1 \<and>
    ring h1 lst (xs @ [e]) \<and> ring h1 hp ys \<and>
    list_splice lst hp h1 = Some h2 \<and> ring h2 hp (xs @ e # ys) \<and>
    list_splice_tail_init lst hp h1 = Some h3 \<and> ring h3 hp (ys @ xs @ [e]) \<and> ring h3 lst []"
proof -
  from list_cut_position_ring [OF assms] obtain h1 where
    h1: "list_cut_position lst hp e h = Some h1" "ring h1 lst (xs @ [e])" "ring h1 hp ys" by blast
  have "set (hp # ys) \<inter> set (lst # xs @ [e]) = {}"
    using assms by (auto simp: ring_def)
  from list_splice_ring(1) [OF h1(3,2) this] list_splice_tail_init_ring [OF h1(3,2) this] h1
  show ?thesis by auto
qed

theorem list_cut_splice_roundtrip_witness:
  "\<exists>h1 h2 h3. list_cut_position 80 16 48 ex_lists = Some h1 \<and>
    ring h1 80 [32, 48] \<and> ring h1 16 [64] \<and>
    list_splice 80 16 h1 = Some h2 \<and> ring h2 16 [32, 48, 64] \<and>
    list_splice_tail_init 80 16 h1 = Some h3 \<and> ring h3 16 [64, 32, 48] \<and> ring h3 80 []"
  using list_cut_splice_roundtrip [of ex_lists 16 "[32]" 48 "[64]" 80] ex_ring by simp

text \<open>C29. Draining a list. The loop \<open>list_for_each_entry_safe\<close> whose body deletes the cursor
  ends without a fault, although it destroys the links it walks on: every entry has been
  deleted (both of its links are poison) and the list is empty.\<close>

theorem list_drain_complete:
  assumes "ring h hp xs"
  shows "\<exists>h'. list_for_each_entry_safe (\<lambda>h. h) off hp
      (\<lambda>pos h. map_option Inl (list_del (member_of pos off) h)) h =
      (Some (Inl h') :: (lists + unit) option) \<and>
    ring h' hp [] \<and> (\<forall>x\<in>set xs. next_of x h' = Some LIST_POISON1)"
proof -
  let ?P = "\<lambda>ys h. \<exists>zs. xs = ys @ zs \<and> ring h hp zs \<and>
    (\<forall>x\<in>set ys. next_of x h = Some LIST_POISON1)"
  have "loop_result (?P xs) (\<lambda>_ :: unit. False) (list_for_each_entry_safe (\<lambda>h. h) off hp
      (\<lambda>pos h. map_option Inl (list_del (member_of pos off) h)) h)"
  proof (rule list_for_each_entry_safe_rule [where P = ?P])
    show "ring h hp zs" if "xs = ys @ zs" "?P ys h" for ys zs h using that by auto
    show "?P [] h" using assms by simp
    fix ys p zs h
    assume xs: "xs = ys @ p # zs" and "?P ys h"
    then have r: "ring h hp ([] @ p # zs)" and ys: "\<forall>x\<in>set ys. next_of x h = Some LIST_POISON1"
      by auto
    from list_del_ring [OF r] obtain h' where
      h': "list_del p h = Some h'" "ring h' hp zs" "next_of p h' = Some LIST_POISON1"
        "agree_on (- set (hp # p # zs)) h h'" by auto
    have "set ys \<subseteq> - set (hp # p # zs)"
      using assms xs by (auto simp: ring_def)
    with ys h'(4) have "\<forall>x\<in>set ys. next_of x h' = Some LIST_POISON1"
      by (auto simp: agree_on_def next_of_def load_def subset_iff)
    with h' xs show "loop_result (?P (ys @ [p])) (\<lambda>_ :: unit. False)
        (map_option Inl (list_del (member_of (container_of p off) off) h))"
      by (auto simp: member_of_def container_of_def)
  qed
  then show ?thesis by (auto simp: loop_result_def)
qed

theorem list_drain_complete_witness:
  "\<exists>h'. list_for_each_entry_safe (\<lambda>h. h) 8 16
      (\<lambda>pos h. map_option Inl (list_del (member_of pos 8) h)) ex_lists =
      (Some (Inl h') :: (lists + unit) option) \<and>
    ring h' 16 [] \<and> (\<forall>x\<in>set [32, 48, 64]. next_of x h' = Some LIST_POISON1)"
  using list_drain_complete [OF ex_ring(1), of 8] by simp

text \<open>Walking a list. \<open>list_for_each_entry\<close> runs its body once for the structure around
  every entry, in list order, and ends; following \<open>prev\<close> from the head gives the entries in
  the reverse order.\<close>

theorem list_walk_complete:
  assumes "ring h hp xs" "length xs < n"
  shows "list_for_each_entry fst off hp (\<lambda>pos (h, seen). Some (Inl (h, seen @ [pos]))) (h, []) =
      (Some (Inl (h, map (\<lambda>p. container_of p off) xs)) :: ((lists \<times> ptr list) + unit) option) \<and>
    do { p \<leftarrow> prev_of hp h; visit n (\<lambda>x. prev_of x h) hp p } = Some (rev xs)"
proof
  let ?P = "\<lambda>ys (h', seen). h' = h \<and> seen = map (\<lambda>p. container_of p off) ys"
  have "loop_result (?P xs) (\<lambda>_ :: unit. False)
      (list_for_each_entry fst off hp (\<lambda>pos (h, seen). Some (Inl (h, seen @ [pos]))) (h, []))"
    by (rule list_for_each_entry_rule [where P = ?P]) (use assms in auto)
  then show "list_for_each_entry fst off hp (\<lambda>pos (h, seen). Some (Inl (h, seen @ [pos]))) (h, []) =
      (Some (Inl (h, map (\<lambda>p. container_of p off) xs)) :: ((lists \<times> ptr list) + unit) option)"
    by (auto simp: loop_result_def)
  show "do { p \<leftarrow> prev_of hp h; visit n (\<lambda>x. prev_of x h) hp p } = Some (rev xs)"
    using lbwd.visit_all [of h hp "rev xs" n] assms by simp
qed

theorem list_walk_complete_witness:
  "list_for_each_entry fst 8 16 (\<lambda>pos (h, seen). Some (Inl (h, seen @ [pos]))) (ex_lists, []) =
      (Some (Inl (ex_lists, [24, 40, 56])) :: ((lists \<times> ptr list) + unit) option) \<and>
    do { p \<leftarrow> prev_of 16 ex_lists; visit 4 (\<lambda>x. prev_of x ex_lists) 16 p } = Some [64, 48, 32]"
  using list_walk_complete [OF ex_ring(1), of 4 8] by (simp add: container_of_def)

end
