(* ===== verification/List_Hash.thy ===== *)
theory List_Hash
  imports List_Iter
begin

text \<open>
  The second kind of list of \<open>src/linux/list.h\<close>: \<open>hlist\<close>, doubly linked with a single pointer
  as its head. A node does not point back at its predecessor but at the cell that points at it
  (\<open>pprev\<close>), which is the head's \<open>first\<close> or a node's \<open>next\<close>; so the state is the heap of these
  pointer cells. The cell \<open>next\<close> of a node is at its address and \<open>pprev\<close> 8 bytes behind, the
  cell \<open>first\<close> of a head is at the head's address.
\<close>

section \<open>Cells\<close>

type_synonym cells = "ptr heap"

definition pprev_off :: ptr where
  "pprev_off = 8"

definition hl_next :: "ptr \<Rightarrow> cells \<Rightarrow> ptr option" where
  "hl_next n m = load m n"

definition hl_pprev :: "ptr \<Rightarrow> cells \<Rightarrow> ptr option" where
  "hl_pprev n m = (if n = NULL then None else load m (n + pprev_off))"

definition hl_first :: "ptr \<Rightarrow> cells \<Rightarrow> ptr option" where
  "hl_first h m = load m h"

definition put_cell :: "ptr \<Rightarrow> ptr \<Rightarrow> cells \<Rightarrow> cells option" where
  "put_cell c v m = modify (\<lambda>_. v) c m"

definition put_pprev :: "ptr \<Rightarrow> ptr \<Rightarrow> cells \<Rightarrow> cells option" where
  "put_pprev n v m = (if n = NULL then None else put_cell (n + pprev_off) v m)"

section \<open>Operations\<close>

definition HLIST_HEAD_INIT :: ptr where
  "HLIST_HEAD_INIT = NULL"

definition HLIST_HEAD :: "ptr \<Rightarrow> cells \<Rightarrow> cells" where
  "HLIST_HEAD h m = m(h \<mapsto> NULL)"

definition INIT_HLIST_HEAD :: "ptr \<Rightarrow> cells \<Rightarrow> cells option" where
  "INIT_HLIST_HEAD h m = put_cell h NULL m"

definition INIT_HLIST_NODE :: "ptr \<Rightarrow> cells \<Rightarrow> cells option" where
  "INIT_HLIST_NODE n m = do { m \<leftarrow> put_cell n NULL m; put_pprev n NULL m }"

definition hlist_unhashed :: "ptr \<Rightarrow> cells \<Rightarrow> bool option" where
  "hlist_unhashed n m = do { c \<leftarrow> hl_pprev n m; Some (c = NULL) }"

definition hlist_empty :: "ptr \<Rightarrow> cells \<Rightarrow> bool option" where
  "hlist_empty h m = do { p \<leftarrow> hl_first h m; Some (p = NULL) }"

text \<open>\<open>__hlist_del\<close>\<close>

definition hlist_unlink :: "ptr \<Rightarrow> cells \<Rightarrow> cells option" where
  "hlist_unlink n m = do {
     next \<leftarrow> hl_next n m;
     pprev \<leftarrow> hl_pprev n m;
     m \<leftarrow> put_cell pprev next m;
     if next \<noteq> NULL then put_pprev next pprev m else Some m }"

definition hlist_del :: "ptr \<Rightarrow> cells \<Rightarrow> cells option" where
  "hlist_del n m = do {
     m \<leftarrow> hlist_unlink n m;
     m \<leftarrow> put_cell n LIST_POISON1 m;
     put_pprev n LIST_POISON2 m }"

definition hlist_del_init :: "ptr \<Rightarrow> cells \<Rightarrow> cells option" where
  "hlist_del_init n m = do {
     u \<leftarrow> hlist_unhashed n m;
     if \<not> u then do { m \<leftarrow> hlist_unlink n m; INIT_HLIST_NODE n m } else Some m }"

definition hlist_add_head :: "ptr \<Rightarrow> ptr \<Rightarrow> cells \<Rightarrow> cells option" where
  "hlist_add_head n h m = do {
     first \<leftarrow> hl_first h m;
     m \<leftarrow> put_cell n first m;
     m \<leftarrow> (if first \<noteq> NULL then put_pprev first n m else Some m);
     m \<leftarrow> put_cell h n m;
     put_pprev n h m }"

definition hlist_add_before :: "ptr \<Rightarrow> ptr \<Rightarrow> cells \<Rightarrow> cells option" where
  "hlist_add_before n next m = do {
     c \<leftarrow> hl_pprev next m;
     m \<leftarrow> put_pprev n c m;
     m \<leftarrow> put_cell n next m;
     m \<leftarrow> put_pprev next n m;
     c \<leftarrow> hl_pprev n m;
     put_cell c n m }"

definition hlist_add_behind :: "ptr \<Rightarrow> ptr \<Rightarrow> cells \<Rightarrow> cells option" where
  "hlist_add_behind n prev m = do {
     next \<leftarrow> hl_next prev m;
     m \<leftarrow> put_cell n next m;
     m \<leftarrow> put_cell prev n m;
     m \<leftarrow> put_pprev n prev m;
     next \<leftarrow> hl_next n m;
     if next \<noteq> NULL then put_pprev next n m else Some m }"

definition hlist_add_fake :: "ptr \<Rightarrow> cells \<Rightarrow> cells option" where
  "hlist_add_fake n m = put_pprev n n m"

definition hlist_move_list :: "ptr \<Rightarrow> ptr \<Rightarrow> cells \<Rightarrow> cells option" where
  "hlist_move_list old new m = do {
     f \<leftarrow> hl_first old m;
     m \<leftarrow> put_cell new f m;
     f \<leftarrow> hl_first new m;
     m \<leftarrow> (if f \<noteq> NULL then put_pprev f new m else Some m);
     put_cell old NULL m }"

section \<open>Iteration\<close>

definition hlist_entry :: "ptr \<Rightarrow> ptr \<Rightarrow> ptr" where
  "hlist_entry p off = container_of p off"

definition hlist_entry_safe :: "ptr \<Rightarrow> ptr \<Rightarrow> ptr" where
  "hlist_entry_safe p off = (if p \<noteq> NULL then hlist_entry p off else NULL)"

definition hlist_for_each where
  "hlist_for_each get h body s = do {
     pos \<leftarrow> hl_first h (get s);
     for_list (\<lambda>pos. pos \<noteq> NULL) (\<lambda>pos s. hl_next pos (get s)) body pos s }"

text \<open>The \<open>_safe\<close> macros read the link of the cursor before the body, in the loop's condition.\<close>

definition for_hlist_safe ::
  "(ptr \<Rightarrow> 's \<Rightarrow> ptr option) \<Rightarrow> (ptr \<Rightarrow> ptr) \<Rightarrow> (ptr \<Rightarrow> 's \<Rightarrow> ('s + 'r) option) \<Rightarrow>
   ptr \<Rightarrow> 's \<Rightarrow> ('s + 'r) option" where
  "for_hlist_safe next entry body pos s = loop (\<lambda>(pos, s).
     if pos = NULL then Some (Inr (Inl s))
     else do {
       n \<leftarrow> next pos s;
       r \<leftarrow> body pos s;
       case r of
         Inr x \<Rightarrow> Some (Inr (Inr x))
       | Inl s \<Rightarrow> Some (Inl (entry n, s)) }) (pos, s)"

definition hlist_for_each_safe where
  "hlist_for_each_safe get h body s = do {
     pos \<leftarrow> hl_first h (get s);
     for_hlist_safe (\<lambda>pos s. hl_next pos (get s)) (\<lambda>n. n) body pos s }"

definition hlist_next_entry :: "ptr \<Rightarrow> ptr \<Rightarrow> cells \<Rightarrow> ptr option" where
  "hlist_next_entry off pos m = do { p \<leftarrow> hl_next (member_of pos off) m; Some (hlist_entry_safe p off) }"

definition hlist_for_each_entry where
  "hlist_for_each_entry get off h body s = do {
     p \<leftarrow> hl_first h (get s);
     for_list (\<lambda>pos. pos \<noteq> NULL) (\<lambda>pos s. hlist_next_entry off pos (get s)) body
       (hlist_entry_safe p off) s }"

definition hlist_for_each_entry_continue where
  "hlist_for_each_entry_continue get off body pos s = do {
     pos \<leftarrow> hlist_next_entry off pos (get s);
     for_list (\<lambda>pos. pos \<noteq> NULL) (\<lambda>pos s. hlist_next_entry off pos (get s)) body pos s }"

definition hlist_for_each_entry_from where
  "hlist_for_each_entry_from get off body pos s =
     for_list (\<lambda>pos. pos \<noteq> NULL) (\<lambda>pos s. hlist_next_entry off pos (get s)) body pos s"

definition hlist_for_each_entry_safe where
  "hlist_for_each_entry_safe get off h body s = do {
     p \<leftarrow> hl_first h (get s);
     for_hlist_safe (\<lambda>pos s. hl_next (member_of pos off) (get s)) (\<lambda>n. hlist_entry_safe n off) body
       (hlist_entry_safe p off) s }"

section \<open>The list that is represented\<close>

text \<open>\<open>links m c xs\<close>: from the cell \<open>c\<close> the nodes \<open>xs\<close> hang in this order, to the cell that ends them.\<close>

fun hangs :: "cells \<Rightarrow> ptr \<Rightarrow> ptr list \<Rightarrow> bool" where
  "hangs m c [] \<longleftrightarrow> True"
| "hangs m c (x # xs) \<longleftrightarrow> c \<noteq> NULL \<and> m c = Some x \<and> x \<noteq> NULL \<and> x + pprev_off \<noteq> NULL \<and>
     m (x + pprev_off) = Some c \<and> hangs m x xs"

fun node_cells :: "ptr list \<Rightarrow> ptr list" where
  "node_cells [] = []"
| "node_cells (x # xs) = x # (x + pprev_off) # node_cells xs"

definition hlist :: "cells \<Rightarrow> ptr \<Rightarrow> ptr list \<Rightarrow> bool" where
  "hlist m h xs \<longleftrightarrow> h \<noteq> NULL \<and> hangs m h xs \<and> m (last (h # xs)) = Some NULL \<and>
     distinct (h # node_cells xs)"

text \<open>A node that can be linked in: its two cells exist and belong to nobody.\<close>

definition hnode :: "cells \<Rightarrow> ptr \<Rightarrow> bool" where
  "hnode m n \<longleftrightarrow> n \<noteq> NULL \<and> n + pprev_off \<noteq> NULL \<and> n \<in> dom m \<and> n + pprev_off \<in> dom m"

lemma node_cells_append [simp]: "node_cells (xs @ ys) = node_cells xs @ node_cells ys"
  by (induction xs) auto

lemma node_cells_mem [simp]: "set xs \<subseteq> set (node_cells xs)"
  by (induction xs) auto

lemma in_node_cells: "x \<in> set xs \<Longrightarrow> x \<in> set (node_cells xs) \<and> x + pprev_off \<in> set (node_cells xs)"
  by (induction xs) auto

lemma hangs_append: "hangs m c (xs @ ys) \<longleftrightarrow> hangs m c xs \<and> hangs m (last (c # xs)) ys"
  by (induction xs arbitrary: c) auto

lemma last_cell: "last (c # xs) \<in> set (c # node_cells xs)"
  by (induction xs arbitrary: c) auto

text \<open>The cells a segment depends on: its nodes' and the first, but not the cell that ends it.\<close>

lemma hangs_agree:
  "hangs m c xs \<Longrightarrow> agree_on (set (butlast (c # xs)) \<union> (\<lambda>x. x + pprev_off) ` set xs) m m' \<Longrightarrow>
   hangs m' c xs"
proof (induction xs arbitrary: c)
  case (Cons x xs)
  then have "hangs m' x xs"
    by (intro Cons.IH) (auto simp: agree_on_def split: if_splits)
  with Cons.prems show ?case by (auto simp: agree_on_def)
qed simp

lemma end_cell_apart:
  "distinct (c # node_cells xs) \<Longrightarrow>
   last (c # xs) \<notin> set (butlast (c # xs)) \<union> (\<lambda>x. x + pprev_off) ` set xs"
proof (induction xs arbitrary: c)
  case (Cons x xs)
  have "last (x # xs) \<noteq> c" "last (x # xs) \<noteq> x + pprev_off"
    using last_cell [of x xs] Cons.prems by auto
  with Cons show ?case by auto
qed simp

lemma hlist_cells: "hlist m h xs \<Longrightarrow> set (h # node_cells xs) \<subseteq> dom m - {NULL}"
proof -
  have "hangs m c xs \<Longrightarrow> m (last (c # xs)) \<noteq> None \<Longrightarrow> c \<noteq> NULL \<Longrightarrow>
    set (c # node_cells xs) \<subseteq> dom m - {NULL}" for c
    by (induction xs arbitrary: c) (auto split: if_splits)
  then show "hlist m h xs \<Longrightarrow> set (h # node_cells xs) \<subseteq> dom m - {NULL}"
    by (auto simp: hlist_def)
qed

lemma hlist_next:
  "hlist m h (xs @ ys) \<Longrightarrow> load m (last (h # xs)) = Some (hd (ys @ [NULL]))"
  using hlist_cells [of m h "xs @ ys"] last_cell [of h xs]
  by (cases ys) (auto simp: hlist_def hangs_append load_def simp del: last.simps)

lemma hlist_pprev: "hlist m h (xs @ y # ys) \<Longrightarrow> hl_pprev y m = Some (last (h # xs)) \<and> y \<noteq> NULL"
  by (auto simp: hlist_def hangs_append hl_pprev_def simp del: last.simps)

section \<open>Linking and unlinking\<close>

text \<open>The heap after a node has been linked in at a cell, and after one has been taken out.\<close>

definition linked_in :: "ptr \<Rightarrow> ptr \<Rightarrow> ptr \<Rightarrow> cells \<Rightarrow> cells" where
  "linked_in n c nx m = (let m = m(n \<mapsto> nx, n + pprev_off \<mapsto> c, c \<mapsto> n)
     in if nx \<noteq> NULL then m(nx + pprev_off \<mapsto> n) else m)"

definition taken_out :: "ptr \<Rightarrow> ptr \<Rightarrow> cells \<Rightarrow> cells" where
  "taken_out c nx m = (if nx \<noteq> NULL then m(c \<mapsto> nx, nx + pprev_off \<mapsto> c) else m(c \<mapsto> nx))"

lemma hlist_linked_in:
  assumes "hlist m h (xs @ ys)" "hnode m n"
    and new: "{n, n + pprev_off} \<inter> set (h # node_cells (xs @ ys)) = {}"
  shows "hlist (linked_in n (last (h # xs)) (hd (ys @ [NULL])) m) h (xs @ n # ys)"
    (is "hlist ?m h _")
proof -
  let ?c = "last (h # xs)"
  have d: "distinct (h # node_cells xs @ node_cells ys)" and h: "h \<noteq> NULL"
    and xs: "hangs m h xs" and ys: "hangs m ?c ys" and e: "m (last (h # xs @ ys)) = Some NULL"
    using assms(1) by (auto simp: hlist_def hangs_append simp del: last.simps)
  have c: "?c \<in> set (h # node_cells xs)" by (rule last_cell)
  have apart: "?c \<notin> set (butlast (h # xs)) \<union> (\<lambda>x. x + pprev_off) ` set xs"
    using d by (intro end_cell_apart) auto
  have sub: "set (butlast (h # xs)) \<union> (\<lambda>x. x + pprev_off) ` set xs \<subseteq> set (h # node_cells xs)"
    using in_node_cells [of _ xs] by (auto dest: in_set_butlastD split: if_splits)
  have n: "n \<noteq> NULL" "n + pprev_off \<noteq> NULL" "n \<noteq> n + pprev_off"
    using assms(2) by (auto simp: hnode_def pprev_off_def)
  show ?thesis
  proof (cases ys)
    case Nil
    then have m: "?m = m(n \<mapsto> NULL, n + pprev_off \<mapsto> ?c, ?c \<mapsto> n)"
      by (simp add: linked_in_def Let_def)
    have "hangs ?m h xs"
      using xs apart sub new Nil unfolding m
      by (intro hangs_agree [OF xs]) (auto simp: agree_on_def image_iff simp del: last.simps butlast.simps)
    moreover have "?c \<noteq> NULL"
      using hlist_cells [OF assms(1)] c by auto
    ultimately show ?thesis
      using Nil d h n new c unfolding m
      by (auto simp: hlist_def hangs_append simp del: last.simps)
        (auto simp: last.simps)
  next
    case (Cons y zs)
    have y: "y \<noteq> NULL" "m ?c = Some y" "hangs m y zs" "?c \<noteq> NULL" "y + pprev_off \<noteq> NULL"
      using ys Cons by auto
    then have m: "?m = m(n \<mapsto> y, n + pprev_off \<mapsto> ?c, ?c \<mapsto> n, y + pprev_off \<mapsto> n)"
      using Cons by (simp add: linked_in_def Let_def)
    have 1: "hangs ?m h xs"
      using xs apart sub new Cons d unfolding m
      by (intro hangs_agree [OF xs]) (auto simp: agree_on_def image_iff simp del: last.simps butlast.simps)
    have suby: "set (butlast (y # zs)) \<union> (\<lambda>x. x + pprev_off) ` set zs \<subseteq> set (y # node_cells zs)"
      using in_node_cells [of _ zs] by (auto dest: in_set_butlastD split: if_splits)
    have dy: "y + pprev_off \<notin> set (y # node_cells zs)" "?c \<notin> set (y # node_cells zs)"
        "?c \<noteq> y + pprev_off"
      using d Cons c by (auto simp: pprev_off_def)
    have 2: "hangs ?m y zs"
      using suby new Cons dy unfolding m
      by (intro hangs_agree [OF y(3)]) (auto simp: agree_on_def image_iff simp del: last.simps butlast.simps)
    have last: "last (h # xs @ ys) = last (y # zs)" "last (h # xs @ n # ys) = last (y # zs)"
      using Cons by simp_all
    have "last (y # zs) \<in> set (y # node_cells zs)" by (rule last_cell)
    then have 3: "?m (last (y # zs)) = Some NULL"
      using e dy new Cons unfolding m last by (auto simp del: last.simps)
    have "?m ?c = Some n" "?m n = Some y" "?m (n + pprev_off) = Some ?c" "?m (y + pprev_off) = Some n"
      using dy new Cons c n unfolding m by (auto simp del: last.simps)
    with 1 2 3 y n h d new show ?thesis
      unfolding hlist_def last(2) by (auto simp: hangs_append Cons simp del: last.simps)
  qed
qed

lemma hlist_taken_out:
  assumes "hlist m h (xs @ n # ys)"
  shows "hlist (taken_out (last (h # xs)) (hd (ys @ [NULL])) m) h (xs @ ys)" (is "hlist ?m h _")
proof -
  let ?c = "last (h # xs)"
  have d: "distinct (h # node_cells xs @ n # (n + pprev_off) # node_cells ys)" and h: "h \<noteq> NULL"
    and xs: "hangs m h xs" and n: "hangs m ?c (n # ys)" and e: "m (last (h # xs @ n # ys)) = Some NULL"
    using assms by (auto simp: hlist_def hangs_append simp del: last.simps)
  have c: "?c \<in> set (h # node_cells xs)" by (rule last_cell)
  have apart: "?c \<notin> set (butlast (h # xs)) \<union> (\<lambda>x. x + pprev_off) ` set xs"
    using d by (intro end_cell_apart) auto
  have sub: "set (butlast (h # xs)) \<union> (\<lambda>x. x + pprev_off) ` set xs \<subseteq> set (h # node_cells xs)"
    using in_node_cells [of _ xs] by (auto dest: in_set_butlastD split: if_splits)
  show ?thesis
  proof (cases ys)
    case Nil
    then have m: "?m = m(?c \<mapsto> NULL)" by (simp add: taken_out_def)
    have "hangs ?m h xs"
      using xs apart unfolding m
      by (intro hangs_agree [OF xs]) (auto simp: agree_on_def image_iff simp del: last.simps butlast.simps)
    then show ?thesis
      using Nil d h unfolding m by (auto simp: hlist_def simp del: last.simps)
  next
    case (Cons y zs)
    have y: "y \<noteq> NULL" "hangs m y zs" "?c \<noteq> NULL" "y + pprev_off \<noteq> NULL"
      using n Cons by auto
    then have m: "?m = m(?c \<mapsto> y, y + pprev_off \<mapsto> ?c)"
      using Cons by (simp add: taken_out_def)
    have dy: "y + pprev_off \<notin> set (y # node_cells zs)" "?c \<notin> set (y # node_cells zs)"
        "?c \<noteq> y + pprev_off"
      using d Cons c by (auto simp: pprev_off_def)
    have 1: "hangs ?m h xs"
      using xs apart sub Cons d unfolding m
      by (intro hangs_agree [OF xs]) (auto simp: agree_on_def image_iff simp del: last.simps butlast.simps)
    have suby: "set (butlast (y # zs)) \<union> (\<lambda>x. x + pprev_off) ` set zs \<subseteq> set (y # node_cells zs)"
      using in_node_cells [of _ zs] by (auto dest: in_set_butlastD split: if_splits)
    have 2: "hangs ?m y zs"
      using suby dy unfolding m
      by (intro hangs_agree [OF y(2)]) (auto simp: agree_on_def image_iff simp del: last.simps butlast.simps)
    have last: "last (h # xs @ n # ys) = last (y # zs)" "last (h # xs @ ys) = last (y # zs)"
      using Cons by simp_all
    have "last (y # zs) \<in> set (y # node_cells zs)" by (rule last_cell)
    then have 3: "?m (last (y # zs)) = Some NULL"
      using e dy unfolding m last by (auto simp del: last.simps)
    have "?m ?c = Some y" "?m (y + pprev_off) = Some ?c"
      using dy unfolding m by (auto simp del: last.simps)
    with 1 2 3 y h d show ?thesis
      unfolding hlist_def last(2) by (auto simp: hangs_append Cons simp del: last.simps)
  qed
qed

section \<open>What the operations do\<close>

lemma put_cell_Some [simp]: "c \<noteq> NULL \<Longrightarrow> m c = Some w \<Longrightarrow> put_cell c v m = Some (m(c \<mapsto> v))"
  by (simp add: put_cell_def)

lemma put_pprev_Some [simp]:
  "n \<noteq> NULL \<Longrightarrow> n + pprev_off \<noteq> NULL \<Longrightarrow> m (n + pprev_off) = Some w \<Longrightarrow>
   put_pprev n v m = Some (m(n + pprev_off \<mapsto> v))"
  by (simp add: put_pprev_def)

lemma hlist_add_linked_in:
  assumes l: "hlist m h (xs @ ys)" and n: "hnode m n"
    and new: "{n, n + pprev_off} \<inter> set (h # node_cells (xs @ ys)) = {}"
  shows "xs = [] \<Longrightarrow> hlist_add_head n h m = Some (linked_in n h (hd (ys @ [NULL])) m)"
    and "ys = y # zs \<Longrightarrow> hlist_add_before n y m = Some (linked_in n (last (h # xs)) y m)"
    and "xs \<noteq> [] \<Longrightarrow>
      hlist_add_behind n (last xs) m = Some (linked_in n (last xs) (hd (ys @ [NULL])) m)"
proof -
  obtain v w where nv: "m n = Some v" "m (n + pprev_off) = Some w" "n \<noteq> NULL" "n + pprev_off \<noteq> NULL"
      "n \<noteq> n + pprev_off"
    using n by (auto simp: hnode_def pprev_off_def)
  have cells: "set (h # node_cells (xs @ ys)) \<subseteq> dom m - {NULL}" by (rule hlist_cells [OF l])
  have d: "distinct (h # node_cells (xs @ ys))" using l by (simp add: hlist_def)
  have next_c: "load m (last (h # xs)) = Some (hd (ys @ [NULL]))" by (rule hlist_next [OF l])
  have c: "last (h # xs) \<in> set (h # node_cells xs)" by (rule last_cell)
  show "hlist_add_head n h m = Some (linked_in n h (hd (ys @ [NULL])) m)" if "xs = []"
    using that next_c nv cells d new
    by (cases ys)
      (auto simp: hlist_add_head_def hl_first_def linked_in_def Let_def load_def fun_eq_iff)
  show "hlist_add_before n y m = Some (linked_in n (last (h # xs)) y m)" if "ys = y # zs"
  proof -
    have "hl_pprev y m = Some (last (h # xs))" "y \<noteq> NULL"
      using hlist_pprev [of m h xs y zs] l that by auto
    moreover have "last (h # xs) \<noteq> n" "last (h # xs) \<noteq> n + pprev_off" "last (h # xs) \<noteq> y + pprev_off"
        "last (h # xs) \<noteq> NULL" "m (last (h # xs)) = Some y"
      using c new d that cells next_c by (auto simp: load_def simp del: last.simps split: if_splits)
    ultimately show ?thesis
      using that nv cells d new
      by (auto simp: hlist_add_before_def linked_in_def Let_def hl_pprev_def load_def fun_eq_iff
        simp del: last.simps split: if_splits)
  qed
  show "hlist_add_behind n (last xs) m = Some (linked_in n (last xs) (hd (ys @ [NULL])) m)"
    if "xs \<noteq> []"
  proof -
    have "last xs \<noteq> n" "last xs \<noteq> n + pprev_off" "last xs \<noteq> NULL"
        "m (last xs) = Some (hd (ys @ [NULL]))"
      using c new that cells next_c by (auto simp: load_def split: if_splits)
    moreover have "last xs \<noteq> hd ys + pprev_off" if "ys \<noteq> []"
      using c \<open>xs \<noteq> []\<close> d that by (cases ys) auto
    ultimately show ?thesis
      using that nv cells d new
      by (cases ys)
        (auto simp: hlist_add_behind_def linked_in_def Let_def hl_next_def load_def fun_eq_iff)
  qed
qed

lemma hlist_unlink_taken_out:
  assumes "hlist m h (xs @ n # ys)"
  shows "hlist_unlink n m = Some (taken_out (last (h # xs)) (hd (ys @ [NULL])) m)"
proof -
  have "hl_next n m = Some (hd (ys @ [NULL]))"
    using hlist_next [of m h "xs @ [n]" ys] assms by (simp add: hl_next_def)
  moreover have "hl_pprev n m = Some (last (h # xs))" using hlist_pprev [OF assms] by blast
  moreover have "last (h # xs) \<in> dom m - {NULL}"
    using hlist_cells [OF assms] last_cell [of h xs] by auto
  moreover have "ys \<noteq> [] \<Longrightarrow> hd ys \<in> dom m - {NULL} \<and> hd ys + pprev_off \<in> dom m - {NULL}"
    using hlist_cells [OF assms] by (cases ys) auto
  moreover have "last (h # xs) \<noteq> hd ys + pprev_off" if "ys \<noteq> []"
    using assms last_cell [of h xs] that by (cases ys) (auto simp: hlist_def)
  ultimately show ?thesis
    by (cases ys) (auto simp: hlist_unlink_def taken_out_def simp del: last.simps)
qed

section \<open>The container interfaces\<close>

interpretation hfwd: walkable "\<lambda>m xs. hlist m h xs" "hl_first h" "\<lambda>m x. hl_next x m" NULL
  for h :: ptr
proof unfold_locales
  show "hlist m h xs \<Longrightarrow> NULL \<notin> set xs" for m xs
    using hlist_cells [of m h xs] in_node_cells [of _ xs] by fastforce
  show "hlist m h xs \<Longrightarrow> hl_first h m = Some (hd (xs @ [NULL]))" for m xs
    using hlist_next [of m h "[]" xs] by (simp add: hl_first_def)
  show "hlist m h (xs @ x # ys) \<Longrightarrow> hl_next x m = Some (hd (ys @ [NULL]))" for m xs x ys
    using hlist_next [of m h "xs @ [x]" ys] by (simp add: hl_next_def)
qed

section \<open>Properties\<close>

lemma taken_out_linked_in:
  assumes "hlist m h (xs @ ys)" "hnode m n"
    and "{n, n + pprev_off} \<inter> set (h # node_cells (xs @ ys)) = {}"
  shows "agree_on (- {n, n + pprev_off}) m
    (taken_out (last (h # xs)) (hd (ys @ [NULL])) (linked_in n (last (h # xs)) (hd (ys @ [NULL])) m))"
proof -
  have c: "m (last (h # xs)) = Some (hd (ys @ [NULL]))"
    using hlist_next [OF assms(1)] by (simp add: load_def del: last.simps split: if_splits)
  have nx: "m (hd ys + pprev_off) = Some (last (h # xs))" if "ys \<noteq> []"
    using hlist_pprev [of m h xs "hd ys" "tl ys"] assms(1) that
    by (auto simp: hl_pprev_def load_def simp del: last.simps split: if_splits)
  from c nx show ?thesis
    by (cases ys) (auto simp: agree_on_def taken_out_def linked_in_def Let_def simp del: last.simps)
qed

lemma hlist_agree:
  assumes "hlist m h zs" "agree_on (set (h # node_cells zs)) m m'"
  shows "hlist m' h zs"
proof -
  have "set (butlast (h # zs)) \<union> (\<lambda>x. x + pprev_off) ` set zs \<subseteq> set (h # node_cells zs)"
    using in_node_cells [of _ zs] by (auto dest: in_set_butlastD split: if_splits)
  note agree = agree_on_mono [OF assms(2) this]
  have "hangs m h zs" using assms(1) by (simp add: hlist_def)
  then have "hangs m' h zs" using agree by (rule hangs_agree)
  moreover have "m' (last (h # zs)) = m (last (h # zs))"
    using assms(2) last_cell [of h zs] unfolding agree_on_def by blast
  ultimately show ?thesis using assms(1) by (simp add: hlist_def)
qed

lemma hlist_clear_node:
  assumes "hlist m h zs" "{n, n + pprev_off} \<inter> set (h # node_cells zs) = {}"
  shows "hlist (m(n \<mapsto> a, n + pprev_off \<mapsto> b)) h zs"
  by (rule hlist_agree [OF assms(1)]) (use assms(2) in \<open>auto simp: agree_on_def\<close>)

lemma hlist_member_node:
  "hlist m h (xs @ n # ys) \<Longrightarrow>
   hnode m n \<and> {n, n + pprev_off} \<inter> set (h # node_cells (xs @ ys)) = {}"
  using hlist_cells [of m h "xs @ n # ys"] by (auto simp: hlist_def hnode_def)

lemma taken_out_hnode: "hnode m n \<Longrightarrow> hnode (taken_out c nx m) n"
  by (auto simp: hnode_def taken_out_def)

text \<open>Both deletions: the links are cut, and the node's own cells are set.\<close>

lemma hlist_del_both:
  assumes "hlist m h (xs @ n # ys)"
  defines "m' \<equiv> taken_out (last (h # xs)) (hd (ys @ [NULL])) m"
  shows "hlist_del n m = Some (m'(n \<mapsto> LIST_POISON1, n + pprev_off \<mapsto> LIST_POISON2))"
    and "hlist_del_init n m = Some (m'(n \<mapsto> NULL, n + pprev_off \<mapsto> NULL))"
    and "hlist (m'(n \<mapsto> a, n + pprev_off \<mapsto> b)) h (xs @ ys)"
proof -
  note mem = hlist_member_node [OF assms(1)]
  then have n: "n \<noteq> NULL" "n + pprev_off \<noteq> NULL" "n \<noteq> n + pprev_off"
    by (auto simp: hnode_def pprev_off_def)
  have m': "hnode m' n" unfolding m'_def by (rule taken_out_hnode) (use mem in blast)
  note u = hlist_unlink_taken_out [OF assms(1), folded m'_def]
  have "hlist_unhashed n m = Some False"
    using hlist_pprev [OF assms(1)] hlist_cells [OF assms(1)] last_cell [of h xs]
    by (auto simp: hlist_unhashed_def simp del: last.simps)
  with m' n u show "hlist_del_init n m = Some (m'(n \<mapsto> NULL, n + pprev_off \<mapsto> NULL))"
    by (auto simp: hlist_del_init_def INIT_HLIST_NODE_def hnode_def)
  from m' n u show "hlist_del n m = Some (m'(n \<mapsto> LIST_POISON1, n + pprev_off \<mapsto> LIST_POISON2))"
    by (auto simp: hlist_del_def hnode_def)
  from hlist_clear_node [OF hlist_taken_out [OF assms(1)]] mem
  show "hlist (m'(n \<mapsto> a, n + pprev_off \<mapsto> b)) h (xs @ ys)"
    unfolding m'_def by blast
qed

lemma hlist_move_list_hlist:
  assumes "hlist m old xs" "m new = Some v" "new \<noteq> NULL" "new \<notin> set (old # node_cells xs)"
  shows "\<exists>m'. hlist_move_list old new m = Some m' \<and> hlist m' new xs \<and> hlist m' old []"
proof (cases xs)
  case Nil
  with assms show ?thesis
    by (auto simp: hlist_move_list_def hl_first_def hlist_def load_def)
next
  case (Cons x ys)
  have x: "m old = Some x" "x \<noteq> NULL" "x + pprev_off \<noteq> NULL" "hangs m x ys" "old \<noteq> NULL"
      "distinct (old # x # (x + pprev_off) # node_cells ys)" "m (last (x # ys)) = Some NULL"
      "m (x + pprev_off) = Some old"
    using assms(1) Cons by (auto simp: hlist_def)
  let ?m = "m(new \<mapsto> x, x + pprev_off \<mapsto> new, old \<mapsto> NULL)"
  have "set (butlast (x # ys)) \<union> (\<lambda>x. x + pprev_off) ` set ys \<subseteq> set (x # node_cells ys)"
    using in_node_cells [of _ ys] by (auto dest: in_set_butlastD split: if_splits)
  then have "hangs ?m x ys"
    using x assms(4) Cons
    by (intro hangs_agree [OF x(4)]) (auto simp: agree_on_def image_iff simp del: butlast.simps)
  moreover have "hlist_move_list old new m = Some ?m"
    using x assms Cons by (auto simp: hlist_move_list_def hl_first_def)
  moreover have "last (x # ys) \<noteq> old" "last (x # ys) \<noteq> new" "last (x # ys) \<noteq> x + pprev_off"
    using last_cell [of x ys] x assms(4) Cons by auto
  ultimately show ?thesis
    using x assms Cons by (auto simp: hlist_def)
qed

text \<open>C33. Linking a node into an \<open>hlist\<close>. \<open>hlist_add_head\<close>, \<open>hlist_add_before\<close> and
  \<open>hlist_add_behind\<close> are the same change where they apply to the same gap: the node is in the
  list exactly there. \<open>hlist_del\<close> and \<open>hlist_del_init\<close> undo it: the list is the old one, no cell
  but the node's own two differs from before, the first leaves poison in them, the second leaves
  a node that counts as unhashed and that a second \<open>hlist_del_init\<close> does not touch.\<close>

theorem hlist_link_unlink:
  assumes "hlist m h (xs @ ys)" "hnode m n"
    and "{n, n + pprev_off} \<inter> set (h # node_cells (xs @ ys)) = {}"
  shows "\<exists>m' m1 m2.
    (xs = [] \<longrightarrow> hlist_add_head n h m = Some m') \<and>
    (ys \<noteq> [] \<longrightarrow> hlist_add_before n (hd ys) m = Some m') \<and>
    (xs \<noteq> [] \<longrightarrow> hlist_add_behind n (last xs) m = Some m') \<and>
    hlist m' h (xs @ n # ys) \<and>
    hlist_del n m' = Some m1 \<and> hlist m1 h (xs @ ys) \<and>
    m1 n = Some LIST_POISON1 \<and> m1 (n + pprev_off) = Some LIST_POISON2 \<and>
    hlist_del_init n m' = Some m2 \<and> hlist m2 h (xs @ ys) \<and>
    hlist_unhashed n m2 = Some True \<and> hlist_del_init n m2 = Some m2 \<and>
    agree_on (- {n, n + pprev_off}) m m1 \<and> agree_on (- {n, n + pprev_off}) m m2"
proof -
  let ?m = "linked_in n (last (h # xs)) (hd (ys @ [NULL])) m"
  let ?t = "taken_out (last (h # xs)) (hd (ys @ [NULL])) ?m"
  let ?p = "?t(n \<mapsto> LIST_POISON1, n + pprev_off \<mapsto> LIST_POISON2)"
  let ?i = "?t(n \<mapsto> NULL, n + pprev_off \<mapsto> NULL)"
  have n: "n \<noteq> NULL" "n + pprev_off \<noteq> NULL" "n \<noteq> n + pprev_off"
    using assms(2) by (auto simp: hnode_def pprev_off_def)
  note add = hlist_add_linked_in [OF assms]
  have in_list: "hlist ?m h (xs @ n # ys)" by (rule hlist_linked_in [OF assms])
  note del = hlist_del_both [OF in_list]
  have ag: "agree_on (- {n, n + pprev_off}) m ?t" by (rule taken_out_linked_in [OF assms])
  then have "agree_on (- {n, n + pprev_off}) m (?t(n \<mapsto> a, n + pprev_off \<mapsto> b))" for a b
    by (simp add: agree_on_def)
  moreover have "hlist_add_before n (hd ys) m = Some ?m" if "ys \<noteq> []"
    using add(2) [of "hd ys" "tl ys"] that by (cases ys) auto
  moreover have "hlist_unhashed n ?i = Some True" "hlist_del_init n ?i = Some ?i"
    using n by (simp_all add: hlist_unhashed_def hlist_del_init_def hl_pprev_def)
  moreover have "?p n = Some LIST_POISON1" "?p (n + pprev_off) = Some LIST_POISON2"
    using n by simp_all
  moreover have "xs = [] \<Longrightarrow> hlist_add_head n h m = Some ?m" using add(1) by simp
  moreover have "xs \<noteq> [] \<Longrightarrow> hlist_add_behind n (last xs) m = Some ?m" using add(3) by simp
  ultimately show ?thesis
    using in_list del by (intro exI [of _ ?m] exI [of _ ?p] exI [of _ ?i]) blast
qed

definition ex_cells :: cells where
  "ex_cells = [16 \<mapsto> 32, 32 \<mapsto> 48, 40 \<mapsto> 16, 48 \<mapsto> 0, 56 \<mapsto> 32, 64 \<mapsto> 0, 72 \<mapsto> 0]"

lemma ex_hlist: "hlist ex_cells 16 [32, 48]"
  by (simp add: hlist_def ex_cells_def pprev_off_def)

lemma ex_hnode: "hnode ex_cells 64"
  by (simp add: hnode_def ex_cells_def pprev_off_def)

theorem hlist_link_unlink_witness:
  "\<exists>m' m1 m2.
    hlist_add_before 64 48 ex_cells = Some m' \<and> hlist_add_behind 64 32 ex_cells = Some m' \<and>
    hlist m' 16 [32, 64, 48] \<and>
    hlist_del 64 m' = Some m1 \<and> hlist m1 16 [32, 48] \<and> m1 64 = Some LIST_POISON1 \<and>
    hlist_del_init 64 m' = Some m2 \<and> hlist m2 16 [32, 48] \<and> hlist_unhashed 64 m2 = Some True"
  using hlist_link_unlink [of ex_cells 16 "[32]" "[48]" 64] ex_hlist ex_hnode
  by (simp add: pprev_off_def) blast

text \<open>The rule of the \<open>_safe\<close> loop: after the visit of \<open>ys\<close> the list holds what is left.\<close>

lemma for_hlist_safe_rule:
  assumes h: "\<And>ys zs s. xs = ys @ zs \<Longrightarrow> P ys s \<Longrightarrow> hlist (get s) h zs"
    and off: "off \<notin> set xs"
    and body: "\<And>ys p zs s. xs = ys @ p # zs \<Longrightarrow> P ys s \<Longrightarrow>
      loop_result (P (ys @ [p])) Q (body (container_of p off) s)"
  shows "xs = ys @ zs \<Longrightarrow> P ys s \<Longrightarrow>
    loop_result (P xs) Q (for_hlist_safe (\<lambda>pos s. hl_next (member_of pos off) (get s))
      (\<lambda>n. hlist_entry_safe n off) body (hlist_entry_safe (hd (zs @ [NULL])) off) s)"
proof (induction zs arbitrary: ys s)
  case Nil
  then show ?case by (auto simp: for_hlist_safe_def hlist_entry_safe_def)
next
  case (Cons p zs)
  let ?go = "for_hlist_safe (\<lambda>pos s. hl_next (member_of pos off) (get s))
    (\<lambda>n. hlist_entry_safe n off) body"
  note l = h [OF Cons.prems]
  have p: "p \<noteq> NULL" "p \<noteq> off"
    using hfwd.stop_new [OF l] off Cons.prems(1) by auto
  then have pos: "hlist_entry_safe (hd ((p # zs) @ [NULL])) off = p - off" "p - off \<noteq> NULL"
    by (simp_all add: hlist_entry_safe_def hlist_entry_def container_of_def)
  have nx: "hl_next (member_of (p - off) off) (get s) = Some (hd (zs @ [NULL]))"
    using hfwd.step_hd [of "get s" h "[]" p zs] l by (simp add: member_of_def)
  have xs: "xs = (ys @ [p]) @ zs" using Cons.prems(1) by simp
  from body [OF Cons.prems] consider
      (go) s' where "body (p - off) s = Some (Inl s')" "P (ys @ [p]) s'"
    | (out) r where "body (p - off) s = Some (Inr r)" "Q r"
    by (auto simp: loop_result_def container_of_def)
  then show ?case
  proof cases
    case go
    then have "?go (p - off) s = ?go (hlist_entry_safe (hd (zs @ [NULL])) off) s'"
      using pos nx by (simp add: for_hlist_safe_def)
    with Cons.IH [OF xs go(2)] pos show ?thesis by simp
  next
    case out
    then have "?go (p - off) s = Some (Inr r)"
      using pos nx by (simp add: for_hlist_safe_def)
    with out pos show ?thesis by (auto simp: loop_result_def)
  qed
qed

text \<open>Draining an \<open>hlist\<close>. \<open>hlist_for_each_entry_safe\<close> with a body that unlinks the cursor
  visits the structure around every node once, in list order, and ends with the head empty and
  every node unhashed.\<close>

theorem hlist_drain_complete:
  assumes "hlist m h xs" "off \<notin> set xs"
  shows "\<exists>m'. hlist_for_each_entry_safe fst off h
      (\<lambda>pos (m, seen). do { m \<leftarrow> hlist_del_init (member_of pos off) m; Some (Inl (m, seen @ [pos])) })
      (m, []) =
      (Some (Inl (m', map (\<lambda>p. container_of p off) xs)) :: ((cells \<times> ptr list) + unit) option) \<and>
    hlist_empty h m' = Some True \<and> (\<forall>x\<in>set xs. hlist_unhashed x m' = Some True)"
proof -
  let ?P = "\<lambda>ys (m', seen). seen = map (\<lambda>p. container_of p off) ys \<and>
    (\<exists>zs. xs = ys @ zs \<and> hlist m' h zs) \<and> (\<forall>x\<in>set ys. m' (x + pprev_off) = Some NULL)"
  let ?body = "\<lambda>pos (m, seen). do { m \<leftarrow> hlist_del_init (member_of pos off) m;
    Some (Inl (m, seen @ [pos])) :: ((cells \<times> ptr list) + unit) option }"
  have d: "distinct (node_cells xs)" using assms(1) by (simp add: hlist_def)
  have nz: "x \<noteq> NULL" "x + pprev_off \<noteq> NULL" if "x \<in> set xs" for x
    using that hlist_cells [OF assms(1)] in_node_cells [OF that] by auto
  have "loop_result (?P xs) (\<lambda>_. False) (for_hlist_safe (\<lambda>pos s. hl_next (member_of pos off) (fst s))
      (\<lambda>n. hlist_entry_safe n off) ?body (hlist_entry_safe (hd (xs @ [NULL])) off) (m, []))"
  proof (rule for_hlist_safe_rule [where P = ?P and ys = "[]" and get = fst])
    show "hlist (fst s) h zs" if "xs = ys @ zs" "?P ys s" for ys zs and s :: "cells \<times> ptr list"
      using that by (cases s) auto
    fix ys p zs and s :: "cells \<times> ptr list"
    assume xs: "xs = ys @ p # zs" and "?P ys s"
    then obtain m1 where s: "s = (m1, map (\<lambda>p. container_of p off) ys)" and l: "hlist m1 h ([] @ p # zs)"
        and ys: "\<forall>x\<in>set ys. m1 (x + pprev_off) = Some NULL"
      by (cases s) auto
    let ?m = "(taken_out (last (h # [])) (hd (zs @ [NULL])) m1)(p \<mapsto> NULL, p + pprev_off \<mapsto> NULL)"
    note del = hlist_del_both(2) [OF l] hlist_del_both(3) [OF l, of NULL NULL]
    have "x + pprev_off \<notin> set (h # node_cells (p # zs))" if "x \<in> set ys" for x
      using that assms(1) xs in_node_cells [OF that] by (auto simp: hlist_def)
    then have "\<forall>x\<in>set (ys @ [p]). ?m (x + pprev_off) = Some NULL"
      using ys in_node_cells [of _ zs] xs by (cases zs) (auto simp: taken_out_def)
    with del xs s show "loop_result (?P (ys @ [p])) (\<lambda>_. False) (?body (container_of p off) s)"
      by (auto simp: member_of_def container_of_def loop_result_def)
  qed (use assms in auto)
  then obtain m' where m': "for_hlist_safe (\<lambda>pos s. hl_next (member_of pos off) (fst s))
      (\<lambda>n. hlist_entry_safe n off) ?body (hlist_entry_safe (hd (xs @ [NULL])) off) (m, []) =
      Some (Inl (m', map (\<lambda>p. container_of p off) xs))" "hlist m' h []"
      "\<forall>x\<in>set xs. m' (x + pprev_off) = Some NULL"
    by (auto simp: loop_result_def)
  then show ?thesis
    using hfwd.start_hd [OF assms(1)] hfwd.start_hd [OF m'(2)] nz
    by (intro exI [of _ m']) (auto simp: hlist_for_each_entry_safe_def hlist_empty_def
      hlist_unhashed_def hl_pprev_def)
qed

theorem hlist_drain_complete_witness:
  "\<exists>m'. hlist_for_each_entry_safe fst 8 16
      (\<lambda>pos (m, seen). do { m \<leftarrow> hlist_del_init (member_of pos 8) m; Some (Inl (m, seen @ [pos])) })
      (ex_cells, []) =
      (Some (Inl (m', [24, 40])) :: ((cells \<times> ptr list) + unit) option) \<and>
    hlist_empty 16 m' = Some True \<and> (\<forall>x\<in>set [32, 48]. hlist_unhashed x m' = Some True)"
  using hlist_drain_complete [OF ex_hlist, of 8] by (simp add: container_of_def)

end
