(* ===== verification/Murmur_Hash.thy ===== *)
theory Murmur_Hash
  imports Hmp_Prelude
begin

text \<open>
  \<open>src/hmp_murmur_hash.c\<close>: MurmurHash3 (32 bit, seed 0), which places the nodes on the hash
  ring. The key is the byte string the pointer refers to; a read outside it is \<open>None\<close>. Words
  are read little-endian, as on the x86-64 machines the program is built for. The theory also
  holds the reference definition by structural recursion and the proof that they agree.
\<close>

section \<open>The code\<close>

definition rotl32 :: "32 word \<Rightarrow> nat \<Rightarrow> 32 word" where
  "rotl32 x r = push_bit r x OR drop_bit (32 - r) x"

definition byte_at :: "8 word list \<Rightarrow> int \<Rightarrow> 8 word option" where
  "byte_at key i = (if 0 \<le> i \<and> nat i < length key then Some (key ! nat i) else None)"

definition le32 :: "8 word \<Rightarrow> 8 word \<Rightarrow> 8 word \<Rightarrow> 8 word \<Rightarrow> 32 word" where
  "le32 a b c d =
     ucast a OR push_bit 8 (ucast b) OR push_bit 16 (ucast c) OR push_bit 24 (ucast d)"

text \<open>\<open>p[i]\<close> for the array of words that starts at byte \<open>p\<close> of the key.\<close>

definition getblock32 :: "8 word list \<Rightarrow> int \<Rightarrow> int \<Rightarrow> 32 word option" where
  "getblock32 key p i = do {
     a \<leftarrow> byte_at key (p + 4 * i);
     b \<leftarrow> byte_at key (p + 4 * i + 1);
     c \<leftarrow> byte_at key (p + 4 * i + 2);
     d \<leftarrow> byte_at key (p + 4 * i + 3);
     Some (le32 a b c d) }"

definition fmix32 :: "32 word \<Rightarrow> 32 word" where
  "fmix32 h =
     (let h = h XOR drop_bit 16 h;
          h = h * 0x85ebca6b;
          h = h XOR drop_bit 13 h;
          h = h * 0xc2b2ae35;
          h = h XOR drop_bit 16 h
      in h)"

definition mur_c1 :: "32 word" where
  "mur_c1 = 0xcc9e2d51"

definition mur_c2 :: "32 word" where
  "mur_c2 = 0x1b873593"

text \<open>\<open>k1 *= c1; k1 = ROTL32(k1,15); k1 *= c2;\<close>, in the body and in the tail.\<close>

definition mur_k1 :: "32 word \<Rightarrow> 32 word" where
  "mur_k1 k1 = rotl32 (k1 * mur_c1) 15 * mur_c2"

definition mur_round :: "32 word \<Rightarrow> 32 word \<Rightarrow> 32 word" where
  "mur_round h1 k1 = rotl32 (h1 XOR mur_k1 k1) 13 * 5 + 0xe6546b64"

definition mur_body :: "8 word list \<Rightarrow> int \<Rightarrow> int \<times> 32 word \<Rightarrow> (int \<times> 32 word + 32 word) option" where
  "mur_body key blocks = (\<lambda>(i, h1).
     if i = 0 then Some (Inr h1)
     else do { k1 \<leftarrow> getblock32 key blocks i; Some (Inl (i + 1, mur_round h1 k1)) })"

text \<open>The \<open>switch\<close> without breaks: case 3 runs all three steps, case 0 none.\<close>

definition mur_tail :: "8 word list \<Rightarrow> int \<Rightarrow> 64 word \<Rightarrow> 32 word \<Rightarrow> 32 word option" where
  "mur_tail key tail len h1 = (let sw = unat (len AND 3); k1 = 0 in do {
     k1 \<leftarrow> (if sw = 3
          then do { b \<leftarrow> byte_at key (tail + 2); Some (k1 XOR push_bit 16 (ucast b)) }
          else Some k1);
     k1 \<leftarrow> (if sw \<ge> 2
          then do { b \<leftarrow> byte_at key (tail + 1); Some (k1 XOR push_bit 8 (ucast b)) }
          else Some k1);
     if sw \<ge> 1
     then do { b \<leftarrow> byte_at key tail; Some (h1 XOR mur_k1 (k1 XOR ucast b)) }
     else Some h1 })"

text \<open>\<open>nblocks\<close> is an \<open>int\<close>, so the division's result is cut to 32 bits and read as signed.\<close>

definition murmur_hash :: "8 word list \<Rightarrow> 64 word \<Rightarrow> 32 word option" where
  "murmur_hash key len = (let nblocks = sint (ucast (len div 4) :: 32 word) in do {
     h1 \<leftarrow> loop (mur_body key (nblocks * 4)) (- nblocks, 0);
     h1 \<leftarrow> mur_tail key (nblocks * 4) len h1;
     Some (fmix32 (h1 XOR ucast len)) })"

section \<open>The reference definition\<close>

fun ref_blocks :: "32 word \<Rightarrow> 8 word list \<Rightarrow> 32 word \<times> 8 word list" where
  "ref_blocks h (a # b # c # d # bs) = ref_blocks (mur_round h (le32 a b c d)) bs"
| "ref_blocks h bs = (h, bs)"

fun ref_tail :: "32 word \<Rightarrow> 8 word list \<Rightarrow> 32 word" where
  "ref_tail h [a] = h XOR mur_k1 (le32 a 0 0 0)"
| "ref_tail h [a, b] = h XOR mur_k1 (le32 a b 0 0)"
| "ref_tail h [a, b, c] = h XOR mur_k1 (le32 a b c 0)"
| "ref_tail h bs = h"

definition murmur3_ref :: "8 word list \<Rightarrow> 32 word" where
  "murmur3_ref bs =
     (case ref_blocks 0 bs of (h, rest) \<Rightarrow>
        fmix32 (ref_tail h rest XOR of_nat (length bs)))"

section \<open>The code computes the reference\<close>

lemma byte_at_nat [simp]: "i < length key \<Longrightarrow> byte_at key (int i) = Some (key ! i)"
  by (simp add: byte_at_def)

lemma getblock32_block:
  assumes "key = pre @ [a, b, c, d] @ rest" "p + 4 * i = int (length pre)"
  shows "getblock32 key p i = Some (le32 a b c d)"
proof -
  have "byte_at key (int (length pre)) = Some a" "byte_at key (int (length pre) + 1) = Some b"
    "byte_at key (int (length pre) + 2) = Some c" "byte_at key (int (length pre) + 3) = Some d"
    using assms(1) by (auto simp: byte_at_def nat_add_distrib nth_append numeral_eq_Suc)
  with assms(2) show ?thesis by (simp add: getblock32_def)
qed

lemma mur_body_ref:
  "key = pre @ mid @ rest \<Longrightarrow> length mid = 4 * n \<Longrightarrow> length rest < 4 \<Longrightarrow>
   blocks = int (length pre + 4 * n) \<Longrightarrow>
   loop (mur_body key blocks) (- int n, h) = Some (fst (ref_blocks h (mid @ rest))) \<and>
   snd (ref_blocks h (mid @ rest)) = rest"
proof (induction n arbitrary: pre mid h)
  case 0
  then show ?case
    by (cases "(h, rest)" rule: ref_blocks.cases) (auto simp: mur_body_def)
next
  case (Suc n)
  then obtain a b c d mid' where mid: "mid = a # b # c # d # mid'" "length mid' = 4 * n"
    by (auto simp: length_Suc_conv numeral_eq_Suc)
  have "getblock32 key blocks (- int (Suc n)) = Some (le32 a b c d)"
    by (rule getblock32_block [of _ pre]) (use Suc.prems mid in auto)
  then have "loop (mur_body key blocks) (- int (Suc n), h) =
      loop (mur_body key blocks) (- int n, mur_round h (le32 a b c d))"
    by (simp add: mur_body_def)
  with Suc.IH [of "pre @ [a, b, c, d]" mid' "mur_round h (le32 a b c d)"] Suc.prems mid
  show ?case by simp
qed

lemma bit_ucast8: "bit (ucast (a :: 8 word) :: 32 word) n \<longleftrightarrow> n < 8 \<and> bit a n"
  by (auto simp: bit_simps dest: bit_imp_le_length)

lemma tail_bytes:
  fixes a b c :: "8 word"
  shows "(push_bit 8 (ucast b) :: 32 word) XOR ucast a = le32 a b 0 0"
    "(push_bit 16 (ucast c) XOR push_bit 8 (ucast b) :: 32 word) XOR ucast a = le32 a b c 0"
  unfolding le32_def
  by (rule bit_eqI; auto simp: bit_or_iff bit_xor_iff bit_push_bit_iff bit_ucast8)+

lemma mur_tail_ref:
  assumes "key = pre @ rest" "length rest = unat (len AND 3)"
  shows "mur_tail key (int (length pre)) len h = Some (ref_tail h rest)"
proof -
  have at: "byte_at key (int (length pre) + int i) = Some (rest ! i)" if "i < length rest" for i
    using that assms(1) byte_at_nat [of "length pre + i" key] by (simp add: nth_append)
  have "unat (len AND 3) < 4"
    using word_and_le1 [of len 3] by (simp add: word_le_nat_alt le_imp_less_Suc)
  then consider "length rest = 0" | "length rest = 1" | "length rest = 2" | "length rest = 3"
    using assms(2) by linarith
  then show ?thesis
  proof cases
    case 1
    with assms(2) show ?thesis by (simp add: mur_tail_def)
  next
    case 2
    then obtain a where "rest = [a]" by (auto simp: length_Suc_conv numeral_eq_Suc)
    with at [of 0] assms(2) show ?thesis by (simp add: mur_tail_def le32_def)
  next
    case 3
    then obtain a b where "rest = [a, b]" by (auto simp: length_Suc_conv numeral_eq_Suc)
    with at [of 0] at [of 1] assms(2) show ?thesis
      by (simp add: mur_tail_def tail_bytes)
  next
    case 4
    then obtain a b c where "rest = [a, b, c]" by (auto simp: length_Suc_conv numeral_eq_Suc)
    with at [of 0] at [of 1] at [of 2] assms(2) show ?thesis
      by (simp add: mur_tail_def tail_bytes)
  qed
qed


lemma murmur_hash_ref:
  assumes "length key < 2 ^ 33"
  shows "murmur_hash key (of_nat (length key)) = Some (murmur3_ref key)"
proof -
  let ?len = "of_nat (length key) :: 64 word"
  let ?n = "length key div 4"
  have len: "unat ?len = length key"
    using assms by (simp add: unsigned_of_nat take_bit_nat_eq_self)
  have div4: "unat (?len div 4) = ?n"
    using len by (simp add: unat_div_distrib)
  have "?n < 2 ^ 31"
    using assms by simp
  have "unat (ucast (?len div 4) :: 32 word) = ?n"
    using div4 \<open>?n < 2 ^ 31\<close> by (simp add: unsigned_ucast_eq take_bit_nat_eq_self)
  then have nb: "sint (ucast (?len div 4) :: 32 word) = int ?n"
    using \<open>?n < 2 ^ 31\<close> by (simp add: sint_uint uint_nat signed_take_bit_int_eq_self)
  have mod4: "unat (?len AND 3) = length key mod 4"
  proof -
    have "?len AND 3 = take_bit 2 ?len"
      by (simp add: take_bit_eq_mask mask_eq_exp_minus_1)
    then show ?thesis
      using len by (simp add: take_bit_eq_mod unat_mod_distrib)
  qed
  let ?mid = "take (4 * ?n) key"
  let ?rest = "drop (4 * ?n) key"
  have key: "key = [] @ ?mid @ ?rest" by simp
  have lm: "length ?mid = 4 * ?n" by simp
  have lr: "length ?rest = length key mod 4"
    using mult_div_mod_eq [of 4 "length key"] by (simp only: length_drop)
  then have "length ?rest < 4" by simp
  with mur_body_ref [OF key lm, of "int (4 * ?n)" 0] obtain h where
    h: "loop (mur_body key (int ?n * 4)) (- int ?n, 0) = Some h" "ref_blocks 0 key = (h, ?rest)"
    by (cases "ref_blocks 0 (?mid @ ?rest)") (auto simp: mult.commute)
  have "mur_tail key (int (length ?mid)) ?len h = Some (ref_tail h ?rest)"
    by (rule mur_tail_ref [OF key [simplified append_Nil]]) (simp only: lr mod4)
  moreover have "ucast ?len = (of_nat (length key) :: 32 word)"
    using assms by (simp add: unsigned_of_nat take_bit_nat_eq_self)
  ultimately show ?thesis
    using h nb lm by (simp add: murmur_hash_def murmur3_ref_def Let_def mult.commute)
qed

section \<open>The final mix loses nothing\<close>

definition unfmix32 :: "32 word \<Rightarrow> 32 word" where
  "unfmix32 h =
     (let h = h XOR drop_bit 16 h;
          h = h * 0x7ed1b41d;
          h = h XOR drop_bit 13 h XOR drop_bit 26 h;
          h = h * 0xa5cb9243;
          h = h XOR drop_bit 16 h
      in h)"

lemma drop_bit_32 [simp]: "32 \<le> n \<Longrightarrow> drop_bit n (h :: 32 word) = 0"
  by (rule bit_eqI) (auto simp: bit_drop_bit_eq dest: bit_imp_le_length)

lemma xorshift16: "(h XOR drop_bit 16 h) XOR drop_bit 16 (h XOR drop_bit 16 h) = (h :: 32 word)"
  by (simp add: drop_bit_xor drop_bit_drop_bit xor.assoc)

lemma xorshift13:
  "(h XOR drop_bit 13 h) XOR drop_bit 13 (h XOR drop_bit 13 h) XOR
     drop_bit 26 (h XOR drop_bit 13 h) = (h :: 32 word)"
  by (simp add: drop_bit_xor drop_bit_drop_bit xor.assoc)

lemma mul_inverse32:
  fixes h :: "32 word"
  shows "h * 0x85ebca6b * 0xa5cb9243 = h" "h * 0xc2b2ae35 * 0x7ed1b41d = h"
proof -
  have "(0x85ebca6b * 0xa5cb9243 :: 32 word) = 1" "(0xc2b2ae35 * 0x7ed1b41d :: 32 word) = 1"
    by simp_all
  then show "h * 0x85ebca6b * 0xa5cb9243 = h" "h * 0xc2b2ae35 * 0x7ed1b41d = h"
    by (simp_all only: mult.assoc mult_1_right)
qed

lemma unfmix32_fmix32: "unfmix32 (fmix32 h) = h"
  by (simp only: unfmix32_def fmix32_def Let_def xorshift16 xorshift13 mul_inverse32)


lemma fmix32_unfmix32: "fmix32 (unfmix32 h) = h"
proof -
  have x13: "(h XOR drop_bit 13 h XOR drop_bit 26 h) XOR
      drop_bit 13 (h XOR drop_bit 13 h XOR drop_bit 26 h) = h" for h :: "32 word"
    by (simp add: drop_bit_xor drop_bit_drop_bit xor.assoc)
  have m: "h * 0xa5cb9243 * 0x85ebca6b = h" "h * 0x7ed1b41d * 0xc2b2ae35 = h" for h :: "32 word"
    using mul_inverse32 [of h] by (simp_all only: mult.assoc mult.commute mult.left_commute)
  show ?thesis
    by (simp only: unfmix32_def fmix32_def Let_def xorshift16 x13 m)
qed

section \<open>No collisions between keys that differ in one block\<close>

lemma bit_rotl32:
  assumes "r < 32" "n < 32"
  shows "bit (rotl32 x r) n = bit x (if r \<le> n then n - r else n + 32 - r)"
proof -
  have "\<not> bit x m" if "32 \<le> m" for m
    using that bit_imp_le_length [of x m] by auto
  with assms show ?thesis
    by (auto simp: rotl32_def bit_or_iff bit_push_bit_iff bit_drop_bit_eq add.commute)
qed

lemma rotl32_inj:
  assumes "r < 32" "rotl32 x r = rotl32 y r"
  shows "x = y"
proof (rule bit_word_eqI)
  fix n assume "n < LENGTH(32)"
  then have n: "n < 32" by simp
  let ?m = "if n + r < 32 then n + r else n + r - 32"
  have "?m < 32" and "(if r \<le> ?m then ?m - r else ?m + 32 - r) = n"
    using n assms(1) by auto
  with bit_rotl32 [OF assms(1), of ?m x] bit_rotl32 [OF assms(1), of ?m y] assms(2)
  show "bit x n \<longleftrightarrow> bit y n" by simp
qed

lemma mul_inj:
  fixes x y :: "32 word"
  assumes "x * c = y * c" "c * d = 1"
  shows "x = y"
proof -
  have "x * (c * d) = y * (c * d)"
    using assms(1) by (simp only: mult.assoc [symmetric])
  with assms(2) show ?thesis by simp
qed

lemma mur_k1_inj:
  assumes "mur_k1 x = mur_k1 y"
  shows "x = y"
proof -
  have "rotl32 (x * mur_c1) 15 = rotl32 (y * mur_c1) 15"
    by (rule mul_inj [where c = mur_c2 and d = "0x56ed309b"])
      (use assms in \<open>simp_all add: mur_k1_def mur_c2_def\<close>)
  then have "x * mur_c1 = y * mur_c1" by (rule rotl32_inj [rotated]) simp
  then show ?thesis
    by (rule mul_inj [where d = "0xdee13bb1"]) (simp add: mur_c1_def)
qed

lemma mur_round_inj:
  assumes "mur_round h x = mur_round h y"
  shows "x = y"
proof -
  have "rotl32 (h XOR mur_k1 x) 13 = rotl32 (h XOR mur_k1 y) 13"
    by (rule mul_inj [where c = 5 and d = "0xcccccccd"])
      (use assms in \<open>simp_all add: mur_round_def\<close>)
  then have "h XOR mur_k1 x = h XOR mur_k1 y" by (rule rotl32_inj [rotated]) simp
  then have "h XOR (h XOR mur_k1 x) = h XOR (h XOR mur_k1 y)" by simp
  then have "mur_k1 x = mur_k1 y" by (simp add: xor.assoc [symmetric])
  then show ?thesis by (rule mur_k1_inj)
qed

lemma le32_inj:
  assumes "le32 a b c d = le32 a' b' c' d'"
  shows "a = a' \<and> b = b' \<and> c = c' \<and> d = d'"
proof -
  have bits: "bit (le32 a b c d) n = bit (le32 a' b' c' d') n" for n
    using assms by simp
  have r: "bit (le32 a b c d) n = bit a n" "bit (le32 a b c d) (n + 8) = bit b n"
    "bit (le32 a b c d) (n + 16) = bit c n" "bit (le32 a b c d) (n + 24) = bit d n"
    if "n < 8" for n a b c d
    using that by (auto simp: le32_def bit_or_iff bit_push_bit_iff bit_ucast8 dest: bit_imp_le_length)
  have "a = a'" "b = b'" "c = c'" "d = d'"
    by (rule bit_word_eqI; use bits r in \<open>simp; metis\<close>)+
  then show ?thesis by simp
qed


lemma fmix32_inj: "fmix32 x = fmix32 y \<Longrightarrow> x = y"
  using unfmix32_fmix32 by metis

lemma xor_cancel:
  fixes x y z :: "32 word"
  assumes "x XOR z = y XOR z"
  shows "x = y"
proof -
  have "(x XOR z) XOR z = (y XOR z) XOR z"
    using assms by simp
  then show ?thesis by (simp add: xor.assoc)
qed

lemma xor_left_cancel: "z XOR x = z XOR y \<Longrightarrow> x = (y :: 32 word)"
  by (rule xor_cancel [of x z]) (simp add: xor.commute)

lemma ref_blocks_append:
  "length p mod 4 = 0 \<Longrightarrow> ref_blocks h (p @ xs) = ref_blocks (fst (ref_blocks h p)) xs"
  by (induction h p rule: ref_blocks.induct) auto

section \<open>Properties\<close>



text \<open>C39. No collision inside one block. Two keys of equal length that agree but for their last
  block, of one to four bytes, have different hashes; so nodes whose address and port strings
  have the same length and differ only there never share a key of the hash ring.\<close>

theorem murmur_hash_no_collision:
  assumes "length p mod 4 = 0" "length xs = length ys" "length xs \<le> 4"
    "length (p @ xs) < 2 ^ 33"
    "murmur_hash (p @ xs) (of_nat (length (p @ xs))) = murmur_hash (p @ ys) (of_nat (length (p @ ys)))"
  shows "xs = ys"
proof -
  let ?h = "fst (ref_blocks 0 p)"
  have "murmur3_ref (p @ xs) = murmur3_ref (p @ ys)"
    using assms murmur_hash_ref [of "p @ xs"] murmur_hash_ref [of "p @ ys"] by simp
  then have eq: "(case ref_blocks ?h xs of (h, r) \<Rightarrow> ref_tail h r) =
      (case ref_blocks ?h ys of (h, r) \<Rightarrow> ref_tail h r)"
    using assms(1,2)
    by (auto simp: murmur3_ref_def ref_blocks_append split: prod.splits
        dest!: fmix32_inj xor_cancel)
  consider "xs = []" | a where "xs = [a]" | a b where "xs = [a, b]" | a b c where "xs = [a, b, c]"
    | a b c d where "xs = [a, b, c, d]"
    using assms(3) by (auto simp: le_Suc_eq numeral_eq_Suc length_Suc_conv)
  then show ?thesis
  proof cases
    case 1
    with assms(2) show ?thesis by simp
  next
    case (2 a)
    with assms(2) [symmetric] obtain a' where "ys = [a']" by (auto simp: length_Suc_conv)
    with 2 eq show ?thesis by (auto dest!: xor_left_cancel mur_k1_inj le32_inj)
  next
    case (3 a b)
    with assms(2) [symmetric] obtain a' b' where "ys = [a', b']" by (auto simp: length_Suc_conv)
    with 3 eq show ?thesis by (auto dest!: xor_left_cancel mur_k1_inj le32_inj)
  next
    case (4 a b c)
    with assms(2) [symmetric] obtain a' b' c' where "ys = [a', b', c']" by (auto simp: length_Suc_conv)
    with 4 eq show ?thesis by (auto dest!: xor_left_cancel mur_k1_inj le32_inj)
  next
    case (5 a b c d)
    with assms(2) [symmetric] obtain a' b' c' d' where "ys = [a', b', c', d']" by (auto simp: length_Suc_conv)
    with 5 eq show ?thesis by (auto dest!: mur_round_inj le32_inj)
  qed
qed

theorem murmur_hash_no_collision_witness:
  "murmur_hash ([49, 57, 50, 46] @ [49, 0]) 6 \<noteq> murmur_hash ([49, 57, 50, 46] @ [50, 0]) 6"
  using murmur_hash_no_collision [of "[49, 57, 50, 46]" "[49, 0]" "[50, 0]"] by auto

text \<open>Known values: the empty key, ``hello'', and the two nodes of \<open>config.xml\<close>
  (address, port and the terminating NUL byte, as \<open>hmp_hash_init\<close> passes them).\<close>

theorem murmur_hash_vectors:
  "murmur_hash [] 0 = Some 0 \<and>
   murmur_hash [104, 101, 108, 108, 111] 5 = Some 0x248bfa47 \<and>
   murmur_hash [49, 57, 50, 46, 49, 54, 56, 46, 51, 49, 46, 49, 56, 50, 50, 51, 52, 53, 0] 19 =
     Some 0x26f85dbc \<and>
   murmur_hash [49, 57, 50, 46, 49, 54, 56, 46, 51, 49, 46, 49, 56, 51, 50, 51, 52, 53, 0] 19 =
     Some 0x4e06d69d"
  using murmur_hash_ref [of "[]"] murmur_hash_ref [of "[104, 101, 108, 108, 111]"]
    murmur_hash_ref [of "[49, 57, 50, 46, 49, 54, 56, 46, 51, 49, 46, 49, 56, 50, 50, 51, 52, 53, 0]"]
    murmur_hash_ref [of "[49, 57, 50, 46, 49, 54, 56, 46, 51, 49, 46, 49, 56, 51, 50, 51, 52, 53, 0]"]
  by (simp_all add: murmur3_ref_def fmix32_def mur_k1_def mur_round_def rotl32_def le32_def
      mur_c1_def mur_c2_def Let_def)

end
