(* ===== verification/Verbs_Types.thy ===== *)
theory Verbs_Types
  imports Hmp_Prelude
begin

text \<open>
  The part of the RDMA interface (\<open>src/infiniband/verbs.h\<close>, \<open>src/rdma/rdma_cma.h\<close>) that the
  program touches: the enumerations it switches on and the structures whose fields it reads
  or fills. Structures the program only passes around (queue pairs, protection domains,
  completion queues) are pointers. The functions of the interface live in shared libraries
  outside the repository; \<open>Hmp_State\<close> makes their answers a parameter of the model.
\<close>

section \<open>Work completions\<close>

datatype ibv_wc_status =
    IBV_WC_SUCCESS
  | IBV_WC_LOC_LEN_ERR
  | IBV_WC_LOC_QP_OP_ERR
  | IBV_WC_LOC_EEC_OP_ERR
  | IBV_WC_LOC_PROT_ERR
  | IBV_WC_WR_FLUSH_ERR
  | IBV_WC_MW_BIND_ERR
  | IBV_WC_BAD_RESP_ERR
  | IBV_WC_LOC_ACCESS_ERR
  | IBV_WC_REM_INV_REQ_ERR
  | IBV_WC_REM_ACCESS_ERR
  | IBV_WC_REM_OP_ERR
  | IBV_WC_RETRY_EXC_ERR
  | IBV_WC_RNR_RETRY_EXC_ERR
  | IBV_WC_LOC_RDD_VIOL_ERR
  | IBV_WC_REM_INV_RD_REQ_ERR
  | IBV_WC_REM_ABORT_ERR
  | IBV_WC_INV_EECN_ERR
  | IBV_WC_INV_EEC_STATE_ERR
  | IBV_WC_FATAL_ERR
  | IBV_WC_RESP_TIMEOUT_ERR
  | IBV_WC_GENERAL_ERR
  | IBV_WC_TM_ERR
  | IBV_WC_TM_RNDV_INCOMPLETE

datatype ibv_wc_opcode =
    IBV_WC_SEND
  | IBV_WC_RDMA_WRITE
  | IBV_WC_RDMA_READ
  | IBV_WC_COMP_SWAP
  | IBV_WC_FETCH_ADD
  | IBV_WC_BIND_MW
  | IBV_WC_LOCAL_INV
  | IBV_WC_TSO
  | IBV_WC_RECV
  | IBV_WC_RECV_RDMA_WITH_IMM
  | IBV_WC_TM_ADD
  | IBV_WC_TM_DEL
  | IBV_WC_TM_SYNC
  | IBV_WC_TM_RECV
  | IBV_WC_TM_NO_TAG

text \<open>The fields the handlers read.\<close>

record ibv_wc =
  wc_wr_id :: "64 word"
  wc_status :: ibv_wc_status
  wc_opcode :: ibv_wc_opcode

section \<open>Work requests\<close>

datatype ibv_wr_opcode =
    IBV_WR_RDMA_WRITE
  | IBV_WR_RDMA_WRITE_WITH_IMM
  | IBV_WR_SEND
  | IBV_WR_SEND_WITH_IMM
  | IBV_WR_RDMA_READ
  | IBV_WR_ATOMIC_CMP_AND_SWP
  | IBV_WR_ATOMIC_FETCH_AND_ADD
  | IBV_WR_LOCAL_INV
  | IBV_WR_BIND_MW
  | IBV_WR_SEND_WITH_INV
  | IBV_WR_TSO

definition IBV_SEND_SIGNALED :: "32 word" where
  "IBV_SEND_SIGNALED = push_bit 1 1"

record ibv_sge =
  ibv_addr :: "64 word"
  ibv_length :: "32 word"
  ibv_lkey :: "32 word"

text \<open>The program posts one request at a time (\<open>next\<close> is NULL), with one scatter element.\<close>

record ibv_send_wr =
  swr_wr_id :: "64 word"
  swr_sge :: ibv_sge
  swr_num_sge :: int
  swr_opcode :: ibv_wr_opcode
  swr_send_flags :: "32 word"
  swr_remote_addr :: "64 word"
  swr_rkey :: "32 word"

record ibv_recv_wr =
  rwr_wr_id :: "64 word"
  rwr_sge :: ibv_sge
  rwr_num_sge :: int

section \<open>Queue pairs, memory regions and devices\<close>

datatype ibv_qp_type =
    IBV_QPT_RC | IBV_QPT_UC | IBV_QPT_UD | IBV_QPT_RAW_PACKET | IBV_QPT_XRC_SEND | IBV_QPT_XRC_RECV

record ibv_qp_cap =
  max_send_wr :: "32 word"
  max_recv_wr :: "32 word"
  max_send_sge :: "32 word"
  max_recv_sge :: "32 word"
  max_inline_data :: "32 word"

record ibv_qp_init_attr =
  qp_context :: ptr
  send_cq :: ptr
  recv_cq :: ptr
  srq :: ptr
  qp_cap :: ibv_qp_cap
  qp_type :: ibv_qp_type
  sq_sig_all :: int

definition IBV_ACCESS_LOCAL_WRITE :: "32 word" where
  "IBV_ACCESS_LOCAL_WRITE = 1"

definition IBV_ACCESS_REMOTE_WRITE :: "32 word" where
  "IBV_ACCESS_REMOTE_WRITE = push_bit 1 1"

definition IBV_ACCESS_REMOTE_READ :: "32 word" where
  "IBV_ACCESS_REMOTE_READ = push_bit 2 1"

record ibv_mr =
  mr_addr :: ptr
  mr_length :: "64 word"
  mr_lkey :: "32 word"
  mr_rkey :: "32 word"

text \<open>The limits the program looks at (both are C ints).\<close>

record ibv_device_attr =
  max_sge :: int
  max_cqe :: int

section \<open>Connection management\<close>

datatype rdma_cm_event_type =
    RDMA_CM_EVENT_ADDR_RESOLVED
  | RDMA_CM_EVENT_ADDR_ERROR
  | RDMA_CM_EVENT_ROUTE_RESOLVED
  | RDMA_CM_EVENT_ROUTE_ERROR
  | RDMA_CM_EVENT_CONNECT_REQUEST
  | RDMA_CM_EVENT_CONNECT_RESPONSE
  | RDMA_CM_EVENT_CONNECT_ERROR
  | RDMA_CM_EVENT_UNREACHABLE
  | RDMA_CM_EVENT_REJECTED
  | RDMA_CM_EVENT_ESTABLISHED
  | RDMA_CM_EVENT_DISCONNECTED
  | RDMA_CM_EVENT_DEVICE_REMOVAL
  | RDMA_CM_EVENT_MULTICAST_JOIN
  | RDMA_CM_EVENT_MULTICAST_ERROR
  | RDMA_CM_EVENT_ADDR_CHANGE
  | RDMA_CM_EVENT_TIMEWAIT_EXIT

record sockaddr_in =
  sin_family :: int
  sin_port :: "16 word"
  sin_addr :: "32 word"

definition AF_INET :: int where
  "AF_INET = 2"

text \<open>\<open>htons\<close> on a little-endian machine; the argument is cut to 16 bits first.\<close>

definition htons :: "int \<Rightarrow> 16 word" where
  "htons p = (let w = word_of_int p :: 16 word in push_bit 8 w OR drop_bit 8 w)"

text \<open>A connection identifier: the fields the program reads or writes.\<close>

record rdma_cm_id =
  id_verbs :: ptr
  id_context :: ptr
  id_qp :: ptr
  id_src_sin :: sockaddr_in
  id_dst_sin :: sockaddr_in

record rdma_conn_param =
  responder_resources :: "8 word"
  initiator_depth :: "8 word"
  retry_count :: "8 word"
  rnr_retry_count :: "8 word"

definition conn_param_zero :: rdma_conn_param where
  "conn_param_zero =
     \<lparr>responder_resources = 0, initiator_depth = 0, retry_count = 0, rnr_retry_count = 0\<rparr>"

record rdma_cm_event =
  ev_id :: ptr
  ev_listen_id :: ptr
  ev_event :: rdma_cm_event_type
  ev_status :: int

end
