(* ===== verification/Hmp_Bytes.thy ===== *)
theory Hmp_Bytes
  imports Hmp_Prelude
begin

text \<open>
  Byte memory: the buffers registered with the RDMA device, message payloads and the
  caller's buffers. \<open>memcpy\<close> and the casts that read or write an integer through a
  \<open>void *\<close> are byte reads and writes here, little-endian; an access to a byte that is not
  allocated is \<open>None\<close>.
\<close>

section \<open>Reading and writing runs of bytes\<close>

type_synonym bytes = "8 word heap"

fun read_bytes :: "bytes \<Rightarrow> ptr \<Rightarrow> nat \<Rightarrow> 8 word list option" where
  "read_bytes h p 0 = Some []"
| "read_bytes h p (Suc n) = do { b \<leftarrow> load h p; bs \<leftarrow> read_bytes h (p + 1) n; Some (b # bs) }"

fun write_bytes :: "bytes \<Rightarrow> ptr \<Rightarrow> 8 word list \<Rightarrow> bytes option" where
  "write_bytes h p [] = Some h"
| "write_bytes h p (b # bs) = do { h \<leftarrow> modify (\<lambda>_. b) p h; write_bytes h (p + 1) bs }"

text \<open>\<open>memcpy(dst, src, n)\<close>; as the ranges may not overlap, reading first is the same.\<close>

definition memcpy :: "ptr \<Rightarrow> ptr \<Rightarrow> nat \<Rightarrow> bytes \<Rightarrow> bytes option" where
  "memcpy dst src n h = do { bs \<leftarrow> read_bytes h src n; write_bytes h dst bs }"

text \<open>The addresses of a run, and a block that is allocated.\<close>

definition span :: "ptr \<Rightarrow> nat \<Rightarrow> ptr set" where
  "span p n = (\<lambda>i. p + of_nat i) ` {..<n}"

definition allocated :: "bytes \<Rightarrow> ptr \<Rightarrow> nat \<Rightarrow> bool" where
  "allocated h p n \<longleftrightarrow> span p n \<subseteq> dom h - {NULL}"

lemma span_0 [simp]: "span p 0 = {}"
  by (simp add: span_def)

lemma span_Suc: "span p (Suc n) = insert p (span (p + 1) n)"
proof -
  have "{..<Suc n} = insert 0 (Suc ` {..<n})"
    using lessThan_Suc_eq_insert_0 by auto
  then show ?thesis by (auto simp: span_def image_image add.assoc)
qed

lemma span_first: "n < 2 ^ 64 \<Longrightarrow> p \<notin> span (p + 1) n"
proof
  assume "n < 2 ^ 64" "p \<in> span (p + 1) n"
  then obtain i where "i < n" and "p = p + 1 + of_nat i" by (auto simp: span_def)
  then have "of_nat (Suc i) = (0 :: ptr)" by (simp add: add.assoc)
  then have "2 ^ 64 dvd Suc i"
    by (simp only: word_of_nat_eq_0_iff) simp
  then have "2 ^ 64 \<le> Suc i" by (rule dvd_imp_le) simp
  with \<open>i < n\<close> \<open>n < 2 ^ 64\<close> show False by simp
qed

lemma write_bytes_total:
  "allocated h p (length bs) \<Longrightarrow> \<exists>h'. write_bytes h p bs = Some h'"
proof (induction bs arbitrary: h p)
  case (Cons b bs)
  then obtain v where v: "p \<noteq> NULL" "h p = Some v"
    by (auto simp: allocated_def span_Suc)
  have "allocated (h(p \<mapsto> b)) (p + 1) (length bs)"
    using Cons.prems by (auto simp: allocated_def span_Suc)
  from Cons.IH [OF this] v show ?case by (simp del: fun_upd_apply)
qed simp

lemma write_bytes_dom: "write_bytes h p bs = Some h' \<Longrightarrow> dom h' = dom h"
proof (induction bs arbitrary: h p)
  case (Cons b bs)
  then obtain h1 where "modify (\<lambda>_. b) p h = Some h1" "write_bytes h1 (p + 1) bs = Some h'"
    by (auto simp: Option.bind_eq_Some_conv)
  with Cons.IH modify_dom show ?case by metis
qed simp

lemma write_bytes_frame:
  "write_bytes h p bs = Some h' \<Longrightarrow> agree_on (- span p (length bs)) h h'"
proof (induction bs arbitrary: h p)
  case (Cons b bs)
  then obtain h1 where h1: "modify (\<lambda>_. b) p h = Some h1" "write_bytes h1 (p + 1) bs = Some h'"
    by (auto simp: Option.bind_eq_Some_conv)
  have "agree_on (- span p (length (b # bs))) h h1"
    using h1(1) by (auto simp: modify_eq_Some_iff agree_on_def span_Suc)
  moreover have "agree_on (- span p (length (b # bs))) h1 h'"
    by (rule agree_on_mono [OF Cons.IH [OF h1(2)]]) (auto simp: span_Suc)
  ultimately show ?case by (rule agree_on_trans)
qed simp

lemma read_bytes_agree:
  "agree_on (span p n) h h' \<Longrightarrow> read_bytes h' p n = read_bytes h p n"
proof (induction n arbitrary: p)
  case (Suc n)
  then have "load h' p = load h p" "agree_on (span (p + 1) n) h h'"
    by (auto simp: span_Suc agree_on_def load_def)
  with Suc.IH show ?case by simp
qed simp

lemma read_bytes_length: "read_bytes h p n = Some bs \<Longrightarrow> length bs = n"
  by (induction n arbitrary: p bs) (auto simp: Option.bind_eq_Some_conv)

lemma read_bytes_total: "allocated h p n \<Longrightarrow> \<exists>bs. read_bytes h p n = Some bs"
proof (induction n arbitrary: p)
  case (Suc n)
  then have "allocated h (p + 1) n" "p \<noteq> NULL" "p \<in> dom h"
    by (auto simp: allocated_def span_Suc)
  with Suc.IH [of "p + 1"] show ?case by auto
qed simp

lemma read_write_bytes:
  "write_bytes h p bs = Some h' \<Longrightarrow> length bs \<le> 2 ^ 64 \<Longrightarrow> read_bytes h' p (length bs) = Some bs"
proof (induction bs arbitrary: h p)
  case (Cons b bs)
  then obtain h1 where h1: "modify (\<lambda>_. b) p h = Some h1" "write_bytes h1 (p + 1) bs = Some h'"
    by (auto simp: Option.bind_eq_Some_conv)
  have "p \<notin> span (p + 1) (length bs)"
    using Cons.prems(2) by (intro span_first) simp
  with write_bytes_frame [OF h1(2)] have "h' p = h1 p"
    by (auto simp: agree_on_def)
  with h1(1) have "load h' p = Some b"
    by (auto simp: modify_eq_Some_iff)
  with Cons.IH [OF h1(2)] Cons.prems(2) show ?case by simp
qed simp

lemma read_write_other:
  "write_bytes h p bs = Some h' \<Longrightarrow> span p (length bs) \<inter> span q n = {} \<Longrightarrow>
   read_bytes h' q n = read_bytes h q n"
  by (rule read_bytes_agree, rule agree_on_mono [OF write_bytes_frame]) auto

lemma read_bytes_append:
  "read_bytes h p (m + n) =
     do { xs \<leftarrow> read_bytes h p m; ys \<leftarrow> read_bytes h (p + of_nat m) n; Some (xs @ ys) }"
proof (induction m arbitrary: p)
  case (Suc m)
  have "p + 1 + of_nat m = p + of_nat (Suc m)" by simp
  with Suc.IH [of "p + 1"] show ?case
    by (cases "load h p"; cases "read_bytes h (p + 1) m") (simp_all add: add.assoc)
qed simp

lemma write_bytes_append:
  "write_bytes h p (xs @ ys) =
     do { h \<leftarrow> write_bytes h p xs; write_bytes h (p + of_nat (length xs)) ys }"
proof (induction xs arbitrary: h p)
  case (Cons x xs)
  have "p + 1 + of_nat (length xs) = p + of_nat (length (x # xs))" by simp
  with Cons.IH show ?case
    by (cases "modify (\<lambda>_. x) p h") (simp_all add: add.assoc)
qed simp

section \<open>Integers in memory\<close>

fun to_le :: "nat \<Rightarrow> 'a::len word \<Rightarrow> 8 word list" where
  "to_le 0 w = []"
| "to_le (Suc n) w = ucast w # to_le n (drop_bit 8 w)"

fun from_le :: "8 word list \<Rightarrow> 'a::len word" where
  "from_le [] = 0"
| "from_le (b # bs) = ucast b OR push_bit 8 (from_le bs)"

lemma to_le_length [simp]: "length (to_le n w) = n"
  by (induction n arbitrary: w) auto

lemma from_to_le:
  fixes w :: "'a::len word"
  assumes "8 \<le> LENGTH('a)"
  shows "from_le (to_le n w) = take_bit (8 * n) w"
proof (induction n arbitrary: w)
  case (Suc n)
  have "ucast (ucast w :: 8 word) OR push_bit 8 (take_bit (8 * n) (drop_bit 8 w)) =
      take_bit (8 * Suc n) w"
  proof (rule bit_word_eqI)
    fix i assume "i < LENGTH('a)"
    then show "bit (ucast (ucast w :: 8 word) OR push_bit 8 (take_bit (8 * n) (drop_bit 8 w))) i \<longleftrightarrow>
        bit (take_bit (8 * Suc n) w) i"
      by (auto simp: bit_simps)
  qed
  with Suc.IH show ?case by simp
qed simp

lemma from_to_le_32 [simp]: "from_le (to_le 4 w) = (w :: 32 word)"
  using from_to_le [of 4 w] take_bit_length_eq [of w] by simp

lemma from_to_le_64 [simp]: "from_le (to_le 8 w) = (w :: 64 word)"
  using from_to_le [of 8 w] take_bit_length_eq [of w] by simp

definition read_u32 :: "bytes \<Rightarrow> ptr \<Rightarrow> 32 word option" where
  "read_u32 h p = map_option from_le (read_bytes h p 4)"

definition read_u64 :: "bytes \<Rightarrow> ptr \<Rightarrow> 64 word option" where
  "read_u64 h p = map_option from_le (read_bytes h p 8)"

end
