(* ===== verification/Hmp_State.thy ===== *)
theory Hmp_State
  imports Verbs_Types Hmp_Bytes List_Head
begin

text \<open>
  The state of one node of the memory pool: the structures of \<open>src/hmp_base.h\<close>,
  \<open>hmp_config.h\<close>, \<open>hmp_context.h\<close>, \<open>hmp_mem.h\<close>, \<open>hmp_node.h\<close>, \<open>hmp_task.h\<close> and
  \<open>hmp_transport.h\<close>, one heap per structure type, the global \<open>curnode\<close>, and the calls the
  program has made to the C library, the kernel and the RDMA libraries.

  Those libraries are not in the repository. Their answers are the parameter \<open>env\<close>: a
  function of the call and of the state it is made in. Every call is recorded, so a property can
  speak of what was called, with which arguments and in which order.
\<close>

section \<open>Constants of \<open>hmp_base.h\<close>, \<open>hmp_mem.h\<close> and \<open>hmp_transport.h\<close>\<close>

definition HMP_NODE_NUM :: nat where
  "HMP_NODE_NUM = 8"

definition HMP_TASK_SIZE :: nat where
  "HMP_TASK_SIZE = 40"

definition HMP_ADDR_LEN :: nat where
  "HMP_ADDR_LEN = 18"

definition HMP_PAGE_SIZE :: int where
  "HMP_PAGE_SIZE = 64"

definition HMP_DRAM_MEM_SIZE :: int where
  "HMP_DRAM_MEM_SIZE = 4 * 1024"

definition MAX_SEND_WR :: "32 word" where
  "MAX_SEND_WR = 128"

definition MAX_RECV_WR :: "32 word" where
  "MAX_RECV_WR = 128"

definition MAX_SEND_SGE :: int where
  "MAX_SEND_SGE = 4"

definition CQE_ALLOC_SIZE :: int where
  "CQE_ALLOC_SIZE = 20"

definition ADDR_RESOLVE_TIMEOUT :: int where
  "ADDR_RESOLVE_TIMEOUT = 500"

definition ROUTE_RESOLVE_TIMEOUT :: int where
  "ROUTE_RESOLVE_TIMEOUT = 500"

definition HMP_EPOLL_SIZE :: int where
  "HMP_EPOLL_SIZE = 1024"

section \<open>Enumerations\<close>

datatype hmp_log_level =
    HMP_LOG_LEVEL_ERROR
  | HMP_LOG_LEVEL_WARN
  | HMP_LOG_LEVEL_INFO
  | HMP_LOG_LEVEL_DEBUG
  | HMP_LOG_LEVEL_TRACE
  | HMP_LOG_LEVEL_LAST

fun log_level_code :: "hmp_log_level \<Rightarrow> nat" where
  "log_level_code HMP_LOG_LEVEL_ERROR = 0"
| "log_level_code HMP_LOG_LEVEL_WARN = 1"
| "log_level_code HMP_LOG_LEVEL_INFO = 2"
| "log_level_code HMP_LOG_LEVEL_DEBUG = 3"
| "log_level_code HMP_LOG_LEVEL_TRACE = 4"
| "log_level_code HMP_LOG_LEVEL_LAST = 5"

datatype hmp_msg_type =
    HMP_MSG_INIT
  | HMP_MSG_NORMAL
  | HMP_MSG_READ
  | HMP_MSG_WRITE
  | HMP_MSG_FINISH
  | HMP_MSG_DONE

text \<open>The number a message type is sent as.\<close>

fun msg_type_code :: "hmp_msg_type \<Rightarrow> 32 word" where
  "msg_type_code HMP_MSG_INIT = 0"
| "msg_type_code HMP_MSG_NORMAL = 1"
| "msg_type_code HMP_MSG_READ = 2"
| "msg_type_code HMP_MSG_WRITE = 3"
| "msg_type_code HMP_MSG_FINISH = 4"
| "msg_type_code HMP_MSG_DONE = 5"

datatype hmp_transport_state =
    HMP_TRANSPORT_STATE_INIT
  | HMP_TRANSPORT_STATE_LISTEN
  | HMP_TRANSPORT_STATE_CONNECTING
  | HMP_TRANSPORT_STATE_CONNECTED
  | HMP_TRANSPORT_STATE_DISCONNECTED
  | HMP_TRANSPORT_STATE_RECONNECT
  | HMP_TRANSPORT_STATE_CLOSED
  | HMP_TRANSPORT_STATE_DESTROYED
  | HMP_TRANSPORT_STATE_ERROR

fun trans_state_code :: "hmp_transport_state \<Rightarrow> nat" where
  "trans_state_code HMP_TRANSPORT_STATE_INIT = 0"
| "trans_state_code HMP_TRANSPORT_STATE_LISTEN = 1"
| "trans_state_code HMP_TRANSPORT_STATE_CONNECTING = 2"
| "trans_state_code HMP_TRANSPORT_STATE_CONNECTED = 3"
| "trans_state_code HMP_TRANSPORT_STATE_DISCONNECTED = 4"
| "trans_state_code HMP_TRANSPORT_STATE_RECONNECT = 5"
| "trans_state_code HMP_TRANSPORT_STATE_CLOSED = 6"
| "trans_state_code HMP_TRANSPORT_STATE_DESTROYED = 7"
| "trans_state_code HMP_TRANSPORT_STATE_ERROR = 8"

text \<open>The states compare as C enumerators do, by their position.\<close>

lemma trans_state_code_inj: "trans_state_code a = trans_state_code b \<Longrightarrow> a = b"
  by (cases a; cases b) simp_all

instantiation hmp_transport_state :: linorder
begin

definition less_eq_hmp_transport_state ::
  "hmp_transport_state \<Rightarrow> hmp_transport_state \<Rightarrow> bool" where
  "less_eq_hmp_transport_state a b \<longleftrightarrow> trans_state_code a \<le> trans_state_code b"

definition less_hmp_transport_state ::
  "hmp_transport_state \<Rightarrow> hmp_transport_state \<Rightarrow> bool" where
  "less_hmp_transport_state a b \<longleftrightarrow> trans_state_code a < trans_state_code b"

instance
  by standard
    (auto simp: less_eq_hmp_transport_state_def less_hmp_transport_state_def
      dest: trans_state_code_inj)

end

lemmas trans_state_order = less_eq_hmp_transport_state_def less_hmp_transport_state_def

datatype hmp_task_type =
    HMP_TASK_INIT
  | HMP_TASK_READ
  | HMP_TASK_WRITE
  | HMP_TASK_DONE

text \<open>The two functions the program registers with the event loop.\<close>

datatype hmp_event_handler = CQ_COMP_CHANNEL_HANDLER | EVENT_CHANNEL_HANDLER

section \<open>Structures\<close>

record hmp_msg =
  msg_type :: "32 word"
  msg_data_size :: int
  msg_data :: ptr

record hmp_sge =
  sge_addr :: ptr
  sge_length :: "32 word"
  sge_lkey :: "32 word"

record hmp_task =
  task_type :: hmp_task_type
  task_sge :: hmp_sge
  task_rdma_trans :: ptr

record hmp_region =
  send_addr :: ptr
  recv_addr :: ptr
  cur_recv :: int

record hmp_transport =
  peer_addr :: sockaddr_in
  local_addr :: sockaddr_in
  nodeptr :: ptr
  trans_node_id :: int
  trans_state :: hmp_transport_state
  trans_ctx :: ptr
  trans_device :: ptr
  trans_hcq :: ptr
  trans_qp :: ptr
  event_channel :: ptr
  trans_cm_id :: ptr
  region :: hmp_region

record hmp_cq =
  hcq_cq :: ptr
  hcq_comp_channel :: ptr
  hcq_device :: ptr
  hcq_ctx :: ptr

text \<open>The link \<open>dev_list_entry\<close> is the first member, at offset 0, in the heap of lists.\<close>

record hmp_device =
  dev_verbs :: ptr
  dev_pd :: ptr
  device_attr :: ibv_device_attr

definition dev_list_entry_off :: ptr where
  "dev_list_entry_off = 0"

record hmp_context =
  epfd :: int
  ctx_stop :: int
  epoll_thread :: int

record hmp_event_data =
  ed_fd :: int
  ed_data :: ptr
  ed_event_handler :: hmp_event_handler

record hmp_mempool =
  base_addr :: ptr
  page_array :: ptr
  page_num :: int
  pool_size :: int
  alloc_size :: "64 word"
  pool_mr :: ptr

record hmp_mr_info =
  mri_addr :: ptr
  mri_length :: "64 word"
  mri_rkey :: "32 word"

text \<open>\<open>addr\<close> is the text before the terminating NUL of the array of \<open>HMP_ADDR_LEN\<close> chars.\<close>

record hmp_node_info =
  ni_addr :: string
  ni_port :: int
  dram_mr :: hmp_mr_info
  nvm_mr :: hmp_mr_info

record hmp_config =
  node_infos :: "hmp_node_info list"
  curnode_id :: int
  node_cnt :: int

text \<open>The link of a hash node follows the key and the node id, at offset 8.\<close>

record hmp_hash_node =
  hn_key :: "32 word"
  hn_node_id :: int

definition hash_node_list_entry_off :: ptr where
  "hash_node_list_entry_off = 8"

record hmp_node =
  config :: hmp_config
  node_ctx :: ptr
  listen_port :: int
  listen_trans :: ptr
  connect_trans :: "ptr list"
  dram_mempool :: ptr
  hybrid_mempool_base :: ptr
  num_devices :: int

section \<open>Calls to the outside and the state\<close>

text \<open>What an allocation is for; it fixes the heap the new object lives in.\<close>

datatype alloc_kind =
    A_device | A_cq | A_transport | A_task | A_context | A_event_data | A_mempool
  | A_hash_node | A_bytes nat | A_page_array nat

datatype mem_call =
    Alloc alloc_kind
  | Free ptr

datatype verbs_call =
    Query_device ptr
  | Alloc_pd ptr
  | Dealloc_pd ptr
  | Reg_mr ptr ptr int "32 word"
  | Create_comp_channel ptr
  | Destroy_comp_channel ptr
  | Create_cq ptr int ptr ptr
  | Destroy_cq ptr
  | Req_notify_cq ptr
  | Get_cq_event ptr
  | Ack_cq_events ptr int
  | Poll_cq ptr
  | Destroy_qp ptr
  | Post_recv ptr ibv_recv_wr
  | Post_send ptr ibv_send_wr

datatype cm_call =
    Get_devices
  | Free_devices
  | Create_qp ptr ptr ibv_qp_init_attr
  | Rdma_destroy_qp ptr
  | Create_event_channel
  | Destroy_event_channel ptr
  | Create_id ptr ptr
  | Destroy_id ptr
  | Bind_addr ptr sockaddr_in
  | Listen ptr int
  | Resolve_addr ptr sockaddr_in int
  | Resolve_route ptr int
  | Connect ptr rdma_conn_param
  | Accept ptr rdma_conn_param
  | Get_cm_event ptr
  | Ack_cm_event

datatype os_call =
    Fcntl_getfl int
  | Fcntl_setfl int int
  | Inet_pton string
  | Epoll_create int
  | Epoll_add int int int ptr
  | Epoll_del int int
  | Epoll_wait int
  | Close int
  | Pthread_create ptr
  | Pthread_join int
  | Xml_parse_file string
  | Xml_free_doc
  | Xml_get_string
  | Xml_free
  | Socket_dgram
  | Siocgifconf int
  | Siocgifflags int string

datatype call = Mem mem_call | Verbs verbs_call | Cm cm_call | Os os_call

record sys =
  curnode :: hmp_node
  transports :: "hmp_transport heap"
  tasks :: "hmp_task heap"
  hcqs :: "hmp_cq heap"
  devices :: "hmp_device heap"
  contexts :: "hmp_context heap"
  event_datas :: "hmp_event_data heap"
  mempools :: "hmp_mempool heap"
  hash_nodes :: "hmp_hash_node heap"
  links :: lists
  mem :: bytes
  blocks :: "nat heap"
  mrs :: "ibv_mr heap"
  cm_ids :: "rdma_cm_id heap"
  chan_fds :: "int heap"
  interest :: "(int \<times> int) \<rightharpoonup> ptr"
  init_once :: bool
  release_once :: bool
  calls :: "call list"
  log :: "(hmp_log_level \<times> string) list"

text \<open>
  The answers of the libraries, which may depend on everything that has happened: an integer
  status (or descriptor), a pointer, and the values written through output parameters, for a
  connection event the identifier it belongs to as the library left it. The last group is data of the process that never
  changes: addresses of globals, names of devices, the content of fresh memory, and the
  texts of \<open>inet_ntoa\<close>.
\<close>

record env =
  e_int :: "sys \<Rightarrow> call \<Rightarrow> int"
  e_ptr :: "sys \<Rightarrow> call \<Rightarrow> ptr"
  e_attr :: "sys \<Rightarrow> ibv_device_attr"
  e_keys :: "sys \<Rightarrow> 32 word \<times> 32 word"
  e_wc :: "sys \<Rightarrow> ibv_wc"
  e_cm_event :: "sys \<Rightarrow> rdma_cm_event"
  e_cm_id :: "sys \<Rightarrow> rdma_cm_id"
  e_errno :: "sys \<Rightarrow> int"
  e_events :: "sys \<Rightarrow> ptr list"
  e_devices :: "sys \<Rightarrow> ptr list option"
  e_sin_addr :: "sys \<Rightarrow> 32 word"
  e_dev_name :: "ptr \<Rightarrow> string"
  e_ntoa :: "32 word \<Rightarrow> string"
  e_junk :: "ptr \<Rightarrow> 8 word"
  e_curnode :: ptr
  e_dev_list :: ptr
  e_hash_list :: ptr

definition record_call :: "call \<Rightarrow> sys \<Rightarrow> sys" where
  "record_call c s = s\<lparr>calls := c # calls s\<rparr>"

definition int_call :: "env \<Rightarrow> call \<Rightarrow> sys \<Rightarrow> int \<times> sys" where
  "int_call E c s = (e_int E s c, record_call c s)"

definition ptr_call :: "env \<Rightarrow> call \<Rightarrow> sys \<Rightarrow> ptr \<times> sys" where
  "ptr_call E c s = (e_ptr E s c, record_call c s)"

section \<open>The log\<close>

text \<open>
  \<open>hmp_log\<close> passes a message on when its level is a real one and not above the global level;
  the models keep the format strings.
\<close>

definition global_log_level :: hmp_log_level where
  "global_log_level = HMP_LOG_LEVEL_TRACE"

definition hmp_log :: "hmp_log_level \<Rightarrow> string \<Rightarrow> sys \<Rightarrow> sys" where
  "hmp_log level fmt s =
     (if log_level_code level < log_level_code HMP_LOG_LEVEL_LAST \<and>
         log_level_code level \<le> log_level_code global_log_level
      then s\<lparr>log := (level, fmt) # log s\<rparr> else s)"

definition ERROR_LOG :: "string \<Rightarrow> sys \<Rightarrow> sys" where
  "ERROR_LOG fmt = hmp_log HMP_LOG_LEVEL_ERROR fmt"

definition INFO_LOG :: "string \<Rightarrow> sys \<Rightarrow> sys" where
  "INFO_LOG fmt = hmp_log HMP_LOG_LEVEL_INFO fmt"

lemma ERROR_LOG_eq: "ERROR_LOG m s = s\<lparr>log := (HMP_LOG_LEVEL_ERROR, m) # log s\<rparr>"
  by (simp add: ERROR_LOG_def hmp_log_def global_log_level_def)

lemma INFO_LOG_eq: "INFO_LOG m s = s\<lparr>log := (HMP_LOG_LEVEL_INFO, m) # log s\<rparr>"
  by (simp add: INFO_LOG_def hmp_log_def global_log_level_def)

section \<open>Fields of the objects\<close>

definition upd_trans :: "(hmp_transport \<Rightarrow> hmp_transport) \<Rightarrow> ptr \<Rightarrow> sys \<Rightarrow> sys option" where
  "upd_trans f p s = do { h \<leftarrow> modify f p (transports s); Some (s\<lparr>transports := h\<rparr>) }"

definition upd_task :: "(hmp_task \<Rightarrow> hmp_task) \<Rightarrow> ptr \<Rightarrow> sys \<Rightarrow> sys option" where
  "upd_task f p s = do { h \<leftarrow> modify f p (tasks s); Some (s\<lparr>tasks := h\<rparr>) }"

definition upd_hcq :: "(hmp_cq \<Rightarrow> hmp_cq) \<Rightarrow> ptr \<Rightarrow> sys \<Rightarrow> sys option" where
  "upd_hcq f p s = do { h \<leftarrow> modify f p (hcqs s); Some (s\<lparr>hcqs := h\<rparr>) }"

definition upd_device :: "(hmp_device \<Rightarrow> hmp_device) \<Rightarrow> ptr \<Rightarrow> sys \<Rightarrow> sys option" where
  "upd_device f p s = do { h \<leftarrow> modify f p (devices s); Some (s\<lparr>devices := h\<rparr>) }"

definition upd_context :: "(hmp_context \<Rightarrow> hmp_context) \<Rightarrow> ptr \<Rightarrow> sys \<Rightarrow> sys option" where
  "upd_context f p s = do { h \<leftarrow> modify f p (contexts s); Some (s\<lparr>contexts := h\<rparr>) }"

definition upd_mempool :: "(hmp_mempool \<Rightarrow> hmp_mempool) \<Rightarrow> ptr \<Rightarrow> sys \<Rightarrow> sys option" where
  "upd_mempool f p s = do { h \<leftarrow> modify f p (mempools s); Some (s\<lparr>mempools := h\<rparr>) }"

definition upd_cm_id :: "(rdma_cm_id \<Rightarrow> rdma_cm_id) \<Rightarrow> ptr \<Rightarrow> sys \<Rightarrow> sys option" where
  "upd_cm_id f p s = do { h \<leftarrow> modify f p (cm_ids s); Some (s\<lparr>cm_ids := h\<rparr>) }"

definition with_links :: "(lists \<Rightarrow> lists option) \<Rightarrow> sys \<Rightarrow> sys option" where
  "with_links f s = do { h \<leftarrow> f (links s); Some (s\<lparr>links := h\<rparr>) }"

definition with_mem :: "(bytes \<Rightarrow> bytes option) \<Rightarrow> sys \<Rightarrow> sys option" where
  "with_mem f s = do { h \<leftarrow> f (mem s); Some (s\<lparr>mem := h\<rparr>) }"

text \<open>Array accesses of the global node; an index outside the array is a fault.\<close>

definition in_nodes :: "int \<Rightarrow> bool" where
  "in_nodes i \<longleftrightarrow> 0 \<le> i \<and> i < int HMP_NODE_NUM"

definition get_info :: "int \<Rightarrow> sys \<Rightarrow> hmp_node_info option" where
  "get_info i s = (if in_nodes i then Some (node_infos (config (curnode s)) ! nat i) else None)"

definition upd_info :: "(hmp_node_info \<Rightarrow> hmp_node_info) \<Rightarrow> int \<Rightarrow> hmp_config \<Rightarrow> hmp_config option" where
  "upd_info f i c =
     (if in_nodes i
      then Some (c\<lparr>node_infos := (node_infos c)[nat i := f (node_infos c ! nat i)]\<rparr>)
      else None)"

definition upd_curnode :: "(hmp_node \<Rightarrow> hmp_node) \<Rightarrow> sys \<Rightarrow> sys" where
  "upd_curnode f s = s\<lparr>curnode := f (curnode s)\<rparr>"

definition get_connect_trans :: "int \<Rightarrow> sys \<Rightarrow> ptr option" where
  "get_connect_trans i s = (if in_nodes i then Some (connect_trans (curnode s) ! nat i) else None)"

definition set_connect_trans :: "int \<Rightarrow> ptr \<Rightarrow> sys \<Rightarrow> sys option" where
  "set_connect_trans i p s =
     (if in_nodes i
      then Some (upd_curnode (\<lambda>n. n\<lparr>connect_trans := (connect_trans n)[nat i := p]\<rparr>) s)
      else None)"

section \<open>Ends of a run other than a return\<close>

text \<open>\<open>exit\<close> and a failed \<open>assert\<close> end the process; they are values, not faults.\<close>

datatype halt = Exited int | Assertion_failed

end
