(* ===== verification/Hmp_Alloc.thy ===== *)
theory Hmp_Alloc
  imports Hmp_State
begin

text \<open>
  The allocator as the program sees it: \<open>calloc\<close> and \<open>malloc\<close> return NULL or the address of
  a new object, \<open>free\<close> ends the life of one. A use of an object after its \<open>free\<close>, and a
  second \<open>free\<close>, are faults, since its heap no longer has the address.
\<close>

section \<open>Zeroed structures\<close>

definition zero_sockaddr :: sockaddr_in where
  "zero_sockaddr = \<lparr>sin_family = 0, sin_port = 0, sin_addr = 0\<rparr>"

definition zero_region :: hmp_region where
  "zero_region = \<lparr>send_addr = NULL, recv_addr = NULL, cur_recv = 0\<rparr>"

definition zero_transport :: hmp_transport where
  "zero_transport = \<lparr>peer_addr = zero_sockaddr, local_addr = zero_sockaddr, nodeptr = NULL,
     trans_node_id = 0, trans_state = HMP_TRANSPORT_STATE_INIT, trans_ctx = NULL,
     trans_device = NULL, trans_hcq = NULL, trans_qp = NULL, event_channel = NULL,
     trans_cm_id = NULL, region = zero_region\<rparr>"

definition zero_hcq :: hmp_cq where
  "zero_hcq = \<lparr>hcq_cq = NULL, hcq_comp_channel = NULL, hcq_device = NULL, hcq_ctx = NULL\<rparr>"

definition zero_device :: hmp_device where
  "zero_device = \<lparr>dev_verbs = NULL, dev_pd = NULL, device_attr = \<lparr>max_sge = 0, max_cqe = 0\<rparr>\<rparr>"

definition zero_context :: hmp_context where
  "zero_context = \<lparr>epfd = 0, ctx_stop = 0, epoll_thread = 0\<rparr>"

definition zero_event_data :: hmp_event_data where
  "zero_event_data = \<lparr>ed_fd = 0, ed_data = NULL, ed_event_handler = CQ_COMP_CHANNEL_HANDLER\<rparr>"

definition zero_mempool :: hmp_mempool where
  "zero_mempool = \<lparr>base_addr = NULL, page_array = NULL, page_num = 0, pool_size = 0,
     alloc_size = 0, pool_mr = NULL\<rparr>"

text \<open>The link of a zeroed device is a pair of NULL pointers.\<close>

definition zero_link :: list_head where
  "zero_link = \<lparr>lh_next = NULL, lh_prev = NULL\<rparr>"

text \<open>A fresh \<open>malloc\<close>ed task: only \<open>lkey\<close> may stay as it was, at byte 20 of the structure.\<close>

definition junk_u32 :: "env \<Rightarrow> ptr \<Rightarrow> 32 word" where
  "junk_u32 E p = from_le (map (\<lambda>i. e_junk E (p + of_nat i)) [0..<4])"

definition junk_task :: "env \<Rightarrow> ptr \<Rightarrow> hmp_task" where
  "junk_task E p = \<lparr>task_type = HMP_TASK_INIT,
     task_sge = \<lparr>sge_addr = NULL, sge_length = 0, sge_lkey = junk_u32 E (p + 20)\<rparr>,
     task_rdma_trans = NULL\<rparr>"

section \<open>\<open>calloc\<close> and \<open>malloc\<close>\<close>

definition calloc_transport :: "env \<Rightarrow> sys \<Rightarrow> ptr \<times> sys" where
  "calloc_transport E s = (let (p, s) = ptr_call E (Mem (Alloc A_transport)) s
     in (p, if p = NULL then s else s\<lparr>transports := (transports s)(p \<mapsto> zero_transport)\<rparr>))"

definition calloc_hcq :: "env \<Rightarrow> sys \<Rightarrow> ptr \<times> sys" where
  "calloc_hcq E s = (let (p, s) = ptr_call E (Mem (Alloc A_cq)) s
     in (p, if p = NULL then s else s\<lparr>hcqs := (hcqs s)(p \<mapsto> zero_hcq)\<rparr>))"

definition calloc_device :: "env \<Rightarrow> sys \<Rightarrow> ptr \<times> sys" where
  "calloc_device E s = (let (p, s) = ptr_call E (Mem (Alloc A_device)) s
     in (p, if p = NULL then s else s\<lparr>devices := (devices s)(p \<mapsto> zero_device),
          links := (links s)(p + dev_list_entry_off \<mapsto> zero_link)\<rparr>))"

definition calloc_context :: "env \<Rightarrow> sys \<Rightarrow> ptr \<times> sys" where
  "calloc_context E s = (let (p, s) = ptr_call E (Mem (Alloc A_context)) s
     in (p, if p = NULL then s else s\<lparr>contexts := (contexts s)(p \<mapsto> zero_context)\<rparr>))"

definition calloc_event_data :: "env \<Rightarrow> sys \<Rightarrow> ptr \<times> sys" where
  "calloc_event_data E s = (let (p, s) = ptr_call E (Mem (Alloc A_event_data)) s
     in (p, if p = NULL then s else s\<lparr>event_datas := (event_datas s)(p \<mapsto> zero_event_data)\<rparr>))"

definition calloc_mempool :: "env \<Rightarrow> sys \<Rightarrow> ptr \<times> sys" where
  "calloc_mempool E s = (let (p, s) = ptr_call E (Mem (Alloc A_mempool)) s
     in (p, if p = NULL then s else s\<lparr>mempools := (mempools s)(p \<mapsto> zero_mempool)\<rparr>))"

definition malloc_task :: "env \<Rightarrow> sys \<Rightarrow> ptr \<times> sys" where
  "malloc_task E s = (let (p, s) = ptr_call E (Mem (Alloc A_task)) s
     in (p, if p = NULL then s else s\<lparr>tasks := (tasks s)(p \<mapsto> junk_task E p)\<rparr>))"

definition malloc_hash_node :: "env \<Rightarrow> sys \<Rightarrow> ptr \<times> sys" where
  "malloc_hash_node E s = (let (p, s) = ptr_call E (Mem (Alloc A_hash_node)) s
     in (p, if p = NULL then s
            else s\<lparr>hash_nodes := (hash_nodes s)(p \<mapsto> \<lparr>hn_key = 0, hn_node_id = 0\<rparr>),
              links := (links s)(p + hash_node_list_entry_off \<mapsto> zero_link)\<rparr>))"

text \<open>A block of bytes, with the given content.\<close>

definition put_block :: "(ptr \<Rightarrow> 8 word) \<Rightarrow> ptr \<Rightarrow> nat \<Rightarrow> sys \<Rightarrow> sys" where
  "put_block f p n s = s\<lparr>blocks := (blocks s)(p \<mapsto> n),
     mem := (\<lambda>a. if a \<in> span p n then Some (f a) else mem s a)\<rparr>"

definition calloc_block :: "env \<Rightarrow> alloc_kind \<Rightarrow> nat \<Rightarrow> sys \<Rightarrow> ptr \<times> sys" where
  "calloc_block E k n s = (let (p, s) = ptr_call E (Mem (Alloc k)) s
     in (p, if p = NULL then s else put_block (\<lambda>_. 0) p n s))"

definition malloc_block :: "env \<Rightarrow> nat \<Rightarrow> sys \<Rightarrow> ptr \<times> sys" where
  "malloc_block E n s = (let (p, s) = ptr_call E (Mem (Alloc (A_bytes n))) s
     in (p, if p = NULL then s else put_block (e_junk E) p n s))"

section \<open>\<open>free\<close>\<close>

definition free_transport :: "ptr \<Rightarrow> sys \<Rightarrow> sys option" where
  "free_transport p s = (if p = NULL then Some s else do {
     _ \<leftarrow> load (transports s) p;
     Some (record_call (Mem (Free p)) (s\<lparr>transports := (transports s)(p := None)\<rparr>)) })"

definition free_hcq :: "ptr \<Rightarrow> sys \<Rightarrow> sys option" where
  "free_hcq p s = (if p = NULL then Some s else do {
     _ \<leftarrow> load (hcqs s) p;
     Some (record_call (Mem (Free p)) (s\<lparr>hcqs := (hcqs s)(p := None)\<rparr>)) })"

definition free_device :: "ptr \<Rightarrow> sys \<Rightarrow> sys option" where
  "free_device p s = (if p = NULL then Some s else do {
     _ \<leftarrow> load (devices s) p;
     Some (record_call (Mem (Free p)) (s\<lparr>devices := (devices s)(p := None),
       links := (links s)(p + dev_list_entry_off := None)\<rparr>)) })"

definition free_context :: "ptr \<Rightarrow> sys \<Rightarrow> sys option" where
  "free_context p s = (if p = NULL then Some s else do {
     _ \<leftarrow> load (contexts s) p;
     Some (record_call (Mem (Free p)) (s\<lparr>contexts := (contexts s)(p := None)\<rparr>)) })"

definition free_event_data :: "ptr \<Rightarrow> sys \<Rightarrow> sys option" where
  "free_event_data p s = (if p = NULL then Some s else do {
     _ \<leftarrow> load (event_datas s) p;
     Some (record_call (Mem (Free p)) (s\<lparr>event_datas := (event_datas s)(p := None)\<rparr>)) })"

definition free_mempool :: "ptr \<Rightarrow> sys \<Rightarrow> sys option" where
  "free_mempool p s = (if p = NULL then Some s else do {
     _ \<leftarrow> load (mempools s) p;
     Some (record_call (Mem (Free p)) (s\<lparr>mempools := (mempools s)(p := None)\<rparr>)) })"

definition free_block :: "ptr \<Rightarrow> sys \<Rightarrow> sys option" where
  "free_block p s = (if p = NULL then Some s else do {
     n \<leftarrow> load (blocks s) p;
     Some (record_call (Mem (Free p)) (s\<lparr>blocks := (blocks s)(p := None),
       mem := (\<lambda>a. if a \<in> span p n then None else mem s a)\<rparr>)) })"

section \<open>What the allocator promises\<close>

text \<open>
  The documented behaviour of \<open>malloc\<close> and \<open>calloc\<close>: the result is NULL or the address of
  memory that no live object uses. (The fields of an object are not NULL either; the link of a
  hash node, at offset 8, is the only one this matters for.)
\<close>

definition unused :: "sys \<Rightarrow> ptr \<Rightarrow> bool" where
  "unused s p \<longleftrightarrow> p \<noteq> NULL \<and> transports s p = None \<and> tasks s p = None \<and> hcqs s p = None \<and>
     devices s p = None \<and> contexts s p = None \<and> event_datas s p = None \<and>
     mempools s p = None \<and> hash_nodes s p = None \<and> blocks s p = None \<and>
     links s p = None \<and> links s (p + 8) = None \<and> p + 8 \<noteq> NULL"

fun block_size :: "alloc_kind \<Rightarrow> nat" where
  "block_size (A_bytes n) = n"
| "block_size (A_page_array n) = n * 24"
| "block_size _ = 0"

definition unused_block :: "sys \<Rightarrow> ptr \<Rightarrow> nat \<Rightarrow> bool" where
  "unused_block s p n \<longleftrightarrow> unused s p \<and> NULL \<notin> span p n \<and> span p n \<inter> dom (mem s) = {}"

definition alloc_ok :: "env \<Rightarrow> bool" where
  "alloc_ok E \<longleftrightarrow> (\<forall>s k. e_ptr E s (Mem (Alloc k)) = NULL \<or>
     unused_block s (e_ptr E s (Mem (Alloc k))) (block_size k))"

text \<open>Evaluation of an allocation: the answer and the state after it.\<close>

lemmas alloc_defs = calloc_transport_def calloc_hcq_def calloc_device_def calloc_context_def
  calloc_event_data_def calloc_mempool_def malloc_task_def malloc_hash_node_def calloc_block_def
  malloc_block_def ptr_call_def int_call_def record_call_def

lemmas free_defs = free_transport_def free_hcq_def free_device_def free_context_def
  free_event_data_def free_mempool_def free_block_def

lemmas upd_defs = upd_trans_def upd_task_def upd_hcq_def upd_device_def upd_context_def
  upd_mempool_def upd_cm_id_def with_links_def with_mem_def upd_curnode_def

end
