(* ===== verification/Hmp_Mem.thy ===== *)
theory Hmp_Mem
  imports Hmp_Alloc "HOL-Library.Signed_Division"
begin

text \<open>
  \<open>src/hmp_mem.c\<close>: the pool of registered memory, the bump allocator \<open>hmp_malloc\<close> and the
  hybrid addresses, whose upper 16 bits are the number of the node that holds the memory.
  (\<open>hmp_read\<close> and \<open>hmp_write\<close>, which need the transport, are in \<open>Hmp_Access\<close>.)
\<close>

section \<open>The pool\<close>

definition pool_access :: "32 word" where
  "pool_access = IBV_ACCESS_LOCAL_WRITE OR IBV_ACCESS_REMOTE_WRITE"

text \<open>\<open>ibv_reg_mr\<close>: on success the region has the keys the library chose.\<close>

definition ibv_reg_mr :: "env \<Rightarrow> ptr \<Rightarrow> ptr \<Rightarrow> int \<Rightarrow> 32 word \<Rightarrow> sys \<Rightarrow> ptr \<times> sys" where
  "ibv_reg_mr E pd addr len flags s = (let
     (lk, rk) = e_keys E s;
     (p, s) = ptr_call E (Verbs (Reg_mr pd addr len flags)) s
     in (p, if p = NULL then s
            else s\<lparr>mrs := (mrs s)(p \<mapsto>
              \<lparr>mr_addr = addr, mr_length = word_of_int len, mr_lkey = lk, mr_rkey = rk\<rparr>)\<rparr>))"

text \<open>The three labels at the end of \<open>hmp_mempool_create\<close>.\<close>

definition clean_mempool :: "ptr \<Rightarrow> sys \<Rightarrow> (ptr \<times> sys) option" where
  "clean_mempool mempool s = do { s \<leftarrow> free_mempool mempool s; Some (NULL, s) }"

definition clean_base_addr :: "ptr \<Rightarrow> sys \<Rightarrow> (ptr \<times> sys) option" where
  "clean_base_addr mempool s = do {
     m \<leftarrow> load (mempools s) mempool;
     s \<leftarrow> free_block (base_addr m) s;
     clean_mempool mempool s }"

definition clean_page_array :: "ptr \<Rightarrow> sys \<Rightarrow> (ptr \<times> sys) option" where
  "clean_page_array mempool s = do {
     m \<leftarrow> load (mempools s) mempool;
     s \<leftarrow> free_block (page_array m) s;
     clean_base_addr mempool s }"

definition hmp_page_bytes :: nat where
  "hmp_page_bytes = 24"

text \<open>Protection domain of the listening transport's device.\<close>

definition listen_pd :: "sys \<Rightarrow> ptr option" where
  "listen_pd s = do {
     t \<leftarrow> load (transports s) (listen_trans (curnode s));
     d \<leftarrow> load (devices s) (trans_device t);
     Some (dev_pd d) }"

text \<open>The pool's size, rounded up to whole pages.\<close>

definition mempool_set_size :: "int \<Rightarrow> ptr \<Rightarrow> sys \<Rightarrow> sys option" where
  "mempool_set_size sz mempool s = do {
     s \<leftarrow> upd_mempool (\<lambda>m. m\<lparr>page_num := sz sdiv HMP_PAGE_SIZE\<rparr>) mempool s;
     s \<leftarrow> (if sz smod HMP_PAGE_SIZE \<noteq> 0
          then upd_mempool (\<lambda>m. m\<lparr>page_num := page_num m + 1\<rparr>) mempool s else Some s);
     upd_mempool (\<lambda>m. m\<lparr>pool_size := page_num m * HMP_PAGE_SIZE\<rparr>) mempool s }"

definition hmp_mempool_create :: "env \<Rightarrow> int \<Rightarrow> sys \<Rightarrow> (ptr \<times> sys) option" where
  "hmp_mempool_create E sz s = (let (mempool, s) = calloc_mempool E s in
     if mempool = NULL then Some (NULL, ERROR_LOG ''allocate memory error.'' s)
     else do {
       s \<leftarrow> mempool_set_size sz mempool s;
       m \<leftarrow> load (mempools s) mempool;
       let (base, s) = calloc_block E (A_bytes (nat (pool_size m))) (nat (pool_size m)) s;
       s \<leftarrow> upd_mempool (\<lambda>m. m\<lparr>base_addr := base\<rparr>) mempool s;
       if base = NULL then clean_mempool mempool (ERROR_LOG ''allocate memory error.'' s)
       else do {
         let (pages, s) = calloc_block E (A_page_array (nat (page_num m)))
           (nat (page_num m) * hmp_page_bytes) s;
         s \<leftarrow> upd_mempool (\<lambda>m. m\<lparr>page_array := pages\<rparr>) mempool s;
         if pages = NULL then clean_base_addr mempool (ERROR_LOG ''allocate memory error.'' s)
         else do {
           s \<leftarrow> upd_mempool (\<lambda>m. m\<lparr>alloc_size := 0\<rparr>) mempool s;
           pd \<leftarrow> listen_pd s;
           m \<leftarrow> load (mempools s) mempool;
           let (r, s) = ibv_reg_mr E pd (base_addr m) (pool_size m) pool_access s;
           s \<leftarrow> upd_mempool (\<lambda>m. m\<lparr>pool_mr := r\<rparr>) mempool s;
           if r = NULL
           then clean_page_array mempool (ERROR_LOG ''rdma register memory error.'' s)
           else Some (mempool, s) } } })"

definition hmp_get_hybrid_mempool_addr :: "sys \<Rightarrow> ptr" where
  "hmp_get_hybrid_mempool_addr s = push_bit 48 (word_of_int (curnode_id (config (curnode s))))"

definition hmp_mem_init :: "env \<Rightarrow> sys \<Rightarrow> ((halt + unit) \<times> sys) option" where
  "hmp_mem_init E s = (let
     s = upd_curnode (\<lambda>n. n\<lparr>hybrid_mempool_base := hmp_get_hybrid_mempool_addr s\<rparr>) s;
     s = INFO_LOG ''curnode hybrid mem addr %p'' s
     in do {
       (pool, s) \<leftarrow> hmp_mempool_create E HMP_DRAM_MEM_SIZE s;
       let s = upd_curnode (\<lambda>n. n\<lparr>dram_mempool := pool\<rparr>) s;
       if pool = NULL
       then Some (Inl (Exited (- 1)), ERROR_LOG ''allocate dram_mempool error.'' s)
       else do {
         m \<leftarrow> load (mempools s) (dram_mempool (curnode s));
         r \<leftarrow> load (mrs s) (pool_mr m);
         let s = INFO_LOG ''create dram_mempool success. %ld %p'' s;
         c \<leftarrow> upd_info (\<lambda>i. i\<lparr>dram_mr := (dram_mr i)\<lparr>mri_addr := base_addr m, mri_rkey := mr_rkey r\<rparr>\<rparr>)
           (curnode_id (config (curnode s))) (config (curnode s));
         Some (Inr (), upd_curnode (\<lambda>n. n\<lparr>config := c\<rparr>) s) } })"

definition hmp_mem_destroy :: "sys \<Rightarrow> sys option" where
  "hmp_mem_destroy s = (let pool = dram_mempool (curnode s) in
     if pool \<noteq> NULL then do {
       m \<leftarrow> load (mempools s) pool;
       s \<leftarrow> free_block (page_array m) s;
       s \<leftarrow> free_block (base_addr m) s;
       s \<leftarrow> free_mempool pool s;
       Some (upd_curnode (\<lambda>n. n\<lparr>dram_mempool := NULL\<rparr>) s) }
     else Some s)"

section \<open>The allocator\<close>

text \<open>The pool starts with four slots of \<open>HMP_TASK_SIZE\<close> bytes for every node.\<close>

definition slots_size :: "sys \<Rightarrow> ptr" where
  "slots_size s = word_of_int (node_cnt (config (curnode s)) * 4 * int HMP_TASK_SIZE)"

definition hmp_malloc :: "int \<Rightarrow> sys \<Rightarrow> ((halt + ptr) \<times> sys) option" where
  "hmp_malloc len s =
     (if \<not> len > 0 then Some (Inl Assertion_failed, s)
      else do {
        m \<leftarrow> load (mempools s) (dram_mempool (curnode s));
        let addr = base_addr m + slots_size s;
        let res = addr + alloc_size m;
        s \<leftarrow> upd_mempool (\<lambda>m. m\<lparr>alloc_size := alloc_size m + word_of_int len\<rparr>)
          (dram_mempool (curnode s)) s;
        Some (Inr res, s) })"

definition hmp_free :: "ptr \<Rightarrow> int \<Rightarrow> sys \<Rightarrow> sys" where
  "hmp_free addr len s = s"

section \<open>Hybrid addresses\<close>

text \<open>
  The upper 16 bits (by an arithmetic shift) are the node, the remainder by 2 ^ 48 is the
  address there; both are checked by an assertion after the pointer has been overwritten.
\<close>

definition hmp_get_hm_node_id :: "ptr \<Rightarrow> sys \<Rightarrow> (halt + int \<times> ptr) \<times> sys" where
  "hmp_get_hm_node_id hm_addr s = (let
     tmp = sint hm_addr;
     node_id = tmp div 2 ^ 48;
     tmp = tmp smod 281474976710656;
     s = INFO_LOG ''remote_node_id %d'' s;
     s = INFO_LOG ''remote_addr %p'' s
     in (if node_id \<ge> 0 \<and> node_id < node_cnt (config (curnode s))
         then Inr (node_id, word_of_int tmp) else Inl Assertion_failed, s))"

end
