(* ===== verification/Hmp_Vc.thy ===== *)
theory Hmp_Vc
  imports Hmp_Alloc
begin

text \<open>
  Forward evaluation of the models. \<open>yields m Q\<close> says that the run \<open>m\<close> does not fault and
  its result satisfies \<open>Q\<close>; the simplification rules in \<open>vc\<close> step through the statements,
  and the introduction rules for calls to the outside name the answer and, for an
  allocation, bring in what the allocator promises.
\<close>

named_theorems vc \<open>evaluation of one statement\<close>

definition yields :: "'a option \<Rightarrow> ('a \<Rightarrow> bool) \<Rightarrow> bool" where
  "yields m Q \<longleftrightarrow> (\<exists>x. m = Some x \<and> Q x)"

lemma yieldsI: "m = Some x \<Longrightarrow> Q x \<Longrightarrow> yields m Q"
  by (simp add: yields_def)

lemma yields_mono: "yields m Q \<Longrightarrow> (\<And>x. Q x \<Longrightarrow> R x) \<Longrightarrow> yields m R"
  by (auto simp: yields_def)

lemma yields_conj: "yields m Q \<Longrightarrow> yields m R \<Longrightarrow> yields m (\<lambda>x. Q x \<and> R x)"
  by (auto simp: yields_def)

lemma yields_Some [vc]: "yields (Some x) Q \<longleftrightarrow> Q x"
  by (simp add: yields_def)

lemma yields_None [vc]: "yields None Q \<longleftrightarrow> False"
  by (simp add: yields_def)

lemma yields_bind [vc]: "yields (Option.bind m f) Q \<longleftrightarrow> yields m (\<lambda>x. yields (f x) Q)"
  by (cases m) (auto simp: yields_def)

lemma yields_if [vc]:
  "yields (if b then m else n) Q \<longleftrightarrow> (b \<longrightarrow> yields m Q) \<and> (\<not> b \<longrightarrow> yields n Q)"
  by simp

lemma yields_load [vc]: "yields (load h p) Q \<longleftrightarrow> (\<exists>v. p \<noteq> NULL \<and> h p = Some v \<and> Q v)"
  by (auto simp: yields_def load_eq_Some_iff)

lemma yields_upd [vc]:
  "yields (upd_trans ft p s) Q \<longleftrightarrow>
     (\<exists>v. p \<noteq> NULL \<and> transports s p = Some v \<and> Q (s\<lparr>transports := (transports s)(p \<mapsto> ft v)\<rparr>))"
  "yields (upd_task fk p s) Q \<longleftrightarrow>
     (\<exists>v. p \<noteq> NULL \<and> tasks s p = Some v \<and> Q (s\<lparr>tasks := (tasks s)(p \<mapsto> fk v)\<rparr>))"
  "yields (upd_hcq fh p s) Q \<longleftrightarrow>
     (\<exists>v. p \<noteq> NULL \<and> hcqs s p = Some v \<and> Q (s\<lparr>hcqs := (hcqs s)(p \<mapsto> fh v)\<rparr>))"
  "yields (upd_device fd p s) Q \<longleftrightarrow>
     (\<exists>v. p \<noteq> NULL \<and> devices s p = Some v \<and> Q (s\<lparr>devices := (devices s)(p \<mapsto> fd v)\<rparr>))"
  "yields (upd_context fc p s) Q \<longleftrightarrow>
     (\<exists>v. p \<noteq> NULL \<and> contexts s p = Some v \<and> Q (s\<lparr>contexts := (contexts s)(p \<mapsto> fc v)\<rparr>))"
  "yields (upd_mempool fm p s) Q \<longleftrightarrow>
     (\<exists>v. p \<noteq> NULL \<and> mempools s p = Some v \<and> Q (s\<lparr>mempools := (mempools s)(p \<mapsto> fm v)\<rparr>))"
  "yields (upd_cm_id fi p s) Q \<longleftrightarrow>
     (\<exists>v. p \<noteq> NULL \<and> cm_ids s p = Some v \<and> Q (s\<lparr>cm_ids := (cm_ids s)(p \<mapsto> fi v)\<rparr>))"
  by (auto simp: yields_def upd_defs modify_eq_Some_iff Option.bind_eq_Some_conv)

lemma yields_free [vc]:
  "yields (free_transport p s) Q \<longleftrightarrow> (if p = NULL then Q s else transports s p \<noteq> None \<and>
     Q (record_call (Mem (Free p)) (s\<lparr>transports := (transports s)(p := None)\<rparr>)))"
  "yields (free_hcq p s) Q \<longleftrightarrow> (if p = NULL then Q s else hcqs s p \<noteq> None \<and>
     Q (record_call (Mem (Free p)) (s\<lparr>hcqs := (hcqs s)(p := None)\<rparr>)))"
  "yields (free_context p s) Q \<longleftrightarrow> (if p = NULL then Q s else contexts s p \<noteq> None \<and>
     Q (record_call (Mem (Free p)) (s\<lparr>contexts := (contexts s)(p := None)\<rparr>)))"
  "yields (free_event_data p s) Q \<longleftrightarrow> (if p = NULL then Q s else event_datas s p \<noteq> None \<and>
     Q (record_call (Mem (Free p)) (s\<lparr>event_datas := (event_datas s)(p := None)\<rparr>)))"
  "yields (free_mempool p s) Q \<longleftrightarrow> (if p = NULL then Q s else mempools s p \<noteq> None \<and>
     Q (record_call (Mem (Free p)) (s\<lparr>mempools := (mempools s)(p := None)\<rparr>)))"
  by (auto simp: yields_def free_defs Option.bind_eq_Some_conv load_eq_Some_iff)

lemma yields_free_block [vc]:
  "yields (free_block p s) Q \<longleftrightarrow> (if p = NULL then Q s else (\<exists>n. blocks s p = Some n \<and>
     Q (record_call (Mem (Free p)) (s\<lparr>blocks := (blocks s)(p := None),
       mem := (\<lambda>a. if a \<in> span p n then None else mem s a)\<rparr>))))"
  by (auto simp: yields_def free_defs Option.bind_eq_Some_conv load_eq_Some_iff)

section \<open>Calls\<close>

lemma int_call_vc:
  "(\<And>r. r = e_int E s c \<Longrightarrow> yields (f r (record_call c s)) Q) \<Longrightarrow>
   yields (case int_call E c s of (r, s) \<Rightarrow> f r s) Q"
  by (simp add: int_call_def)

lemma ptr_call_vc:
  "(\<And>p. p = e_ptr E s c \<Longrightarrow> yields (f p (record_call c s)) Q) \<Longrightarrow>
   yields (case ptr_call E c s of (p, s) \<Rightarrow> f p s) Q"
  by (simp add: ptr_call_def)

lemma alloc_okD:
  "alloc_ok E \<Longrightarrow> e_ptr E s (Mem (Alloc k)) \<noteq> NULL \<Longrightarrow>
   unused_block s (e_ptr E s (Mem (Alloc k))) (block_size k)"
  unfolding alloc_ok_def by metis

lemma alloc_vc:
  assumes "alloc_ok E"
    and "e_ptr E s (Mem (Alloc k)) = NULL \<Longrightarrow> yields (f NULL (record_call (Mem (Alloc k)) s)) Q"
    and "\<And>p. p \<noteq> NULL \<Longrightarrow> unused_block s p (block_size k) \<Longrightarrow>
      yields (f p (g p (record_call (Mem (Alloc k)) s))) Q"
  shows "yields (case (let (p, s) = ptr_call E (Mem (Alloc k)) s
      in (p, if p = NULL then s else g p s)) of (p, s) \<Rightarrow> f p s) Q"
  using assms alloc_okD [OF assms(1), of s k] by (simp add: ptr_call_def Let_def)

text \<open>The rule for each kind of object.\<close>

lemma calloc_transport_vc:
  "alloc_ok E \<Longrightarrow>
   (e_ptr E s (Mem (Alloc A_transport)) = NULL \<Longrightarrow> yields (f NULL (record_call (Mem (Alloc A_transport)) s)) Q) \<Longrightarrow>
   (\<And>p. p \<noteq> NULL \<Longrightarrow> unused s p \<Longrightarrow>
     yields (f p ((\<lambda>s. s\<lparr>transports := (transports s)(p \<mapsto> zero_transport)\<rparr>) (record_call (Mem (Alloc A_transport)) s))) Q) \<Longrightarrow>
   yields (case calloc_transport E s of (p, s) \<Rightarrow> f p s) Q"
  unfolding calloc_transport_def by (rule alloc_vc) (auto simp: unused_block_def)

lemma calloc_hcq_vc:
  "alloc_ok E \<Longrightarrow>
   (e_ptr E s (Mem (Alloc A_cq)) = NULL \<Longrightarrow> yields (f NULL (record_call (Mem (Alloc A_cq)) s)) Q) \<Longrightarrow>
   (\<And>p. p \<noteq> NULL \<Longrightarrow> unused s p \<Longrightarrow>
     yields (f p ((\<lambda>s. s\<lparr>hcqs := (hcqs s)(p \<mapsto> zero_hcq)\<rparr>) (record_call (Mem (Alloc A_cq)) s))) Q) \<Longrightarrow>
   yields (case calloc_hcq E s of (p, s) \<Rightarrow> f p s) Q"
  unfolding calloc_hcq_def by (rule alloc_vc) (auto simp: unused_block_def)

lemma calloc_device_vc:
  "alloc_ok E \<Longrightarrow>
   (e_ptr E s (Mem (Alloc A_device)) = NULL \<Longrightarrow> yields (f NULL (record_call (Mem (Alloc A_device)) s)) Q) \<Longrightarrow>
   (\<And>p. p \<noteq> NULL \<Longrightarrow> unused s p \<Longrightarrow>
     yields (f p ((\<lambda>s. s\<lparr>devices := (devices s)(p \<mapsto> zero_device),
      links := (links s)(p + dev_list_entry_off \<mapsto> zero_link)\<rparr>) (record_call (Mem (Alloc A_device)) s))) Q) \<Longrightarrow>
   yields (case calloc_device E s of (p, s) \<Rightarrow> f p s) Q"
  unfolding calloc_device_def by (rule alloc_vc) (auto simp: unused_block_def)

lemma calloc_context_vc:
  "alloc_ok E \<Longrightarrow>
   (e_ptr E s (Mem (Alloc A_context)) = NULL \<Longrightarrow> yields (f NULL (record_call (Mem (Alloc A_context)) s)) Q) \<Longrightarrow>
   (\<And>p. p \<noteq> NULL \<Longrightarrow> unused s p \<Longrightarrow>
     yields (f p ((\<lambda>s. s\<lparr>contexts := (contexts s)(p \<mapsto> zero_context)\<rparr>) (record_call (Mem (Alloc A_context)) s))) Q) \<Longrightarrow>
   yields (case calloc_context E s of (p, s) \<Rightarrow> f p s) Q"
  unfolding calloc_context_def by (rule alloc_vc) (auto simp: unused_block_def)

lemma calloc_event_data_vc:
  "alloc_ok E \<Longrightarrow>
   (e_ptr E s (Mem (Alloc A_event_data)) = NULL \<Longrightarrow> yields (f NULL (record_call (Mem (Alloc A_event_data)) s)) Q) \<Longrightarrow>
   (\<And>p. p \<noteq> NULL \<Longrightarrow> unused s p \<Longrightarrow>
     yields (f p ((\<lambda>s. s\<lparr>event_datas := (event_datas s)(p \<mapsto> zero_event_data)\<rparr>) (record_call (Mem (Alloc A_event_data)) s))) Q) \<Longrightarrow>
   yields (case calloc_event_data E s of (p, s) \<Rightarrow> f p s) Q"
  unfolding calloc_event_data_def by (rule alloc_vc) (auto simp: unused_block_def)

lemma calloc_mempool_vc:
  "alloc_ok E \<Longrightarrow>
   (e_ptr E s (Mem (Alloc A_mempool)) = NULL \<Longrightarrow> yields (f NULL (record_call (Mem (Alloc A_mempool)) s)) Q) \<Longrightarrow>
   (\<And>p. p \<noteq> NULL \<Longrightarrow> unused s p \<Longrightarrow>
     yields (f p ((\<lambda>s. s\<lparr>mempools := (mempools s)(p \<mapsto> zero_mempool)\<rparr>) (record_call (Mem (Alloc A_mempool)) s))) Q) \<Longrightarrow>
   yields (case calloc_mempool E s of (p, s) \<Rightarrow> f p s) Q"
  unfolding calloc_mempool_def by (rule alloc_vc) (auto simp: unused_block_def)

lemma malloc_task_vc:
  "alloc_ok E \<Longrightarrow>
   (e_ptr E s (Mem (Alloc A_task)) = NULL \<Longrightarrow> yields (f NULL (record_call (Mem (Alloc A_task)) s)) Q) \<Longrightarrow>
   (\<And>p. p \<noteq> NULL \<Longrightarrow> unused s p \<Longrightarrow>
     yields (f p ((\<lambda>s. s\<lparr>tasks := (tasks s)(p \<mapsto> junk_task E p)\<rparr>) (record_call (Mem (Alloc A_task)) s))) Q) \<Longrightarrow>
   yields (case malloc_task E s of (p, s) \<Rightarrow> f p s) Q"
  unfolding malloc_task_def by (rule alloc_vc) (auto simp: unused_block_def)

lemma malloc_hash_node_vc:
  "alloc_ok E \<Longrightarrow>
   (e_ptr E s (Mem (Alloc A_hash_node)) = NULL \<Longrightarrow> yields (f NULL (record_call (Mem (Alloc A_hash_node)) s)) Q) \<Longrightarrow>
   (\<And>p. p \<noteq> NULL \<Longrightarrow> unused s p \<Longrightarrow>
     yields (f p ((\<lambda>s. s\<lparr>hash_nodes := (hash_nodes s)(p \<mapsto> \<lparr>hn_key = 0, hn_node_id = 0\<rparr>),
      links := (links s)(p + hash_node_list_entry_off \<mapsto> zero_link)\<rparr>) (record_call (Mem (Alloc A_hash_node)) s))) Q) \<Longrightarrow>
   yields (case malloc_hash_node E s of (p, s) \<Rightarrow> f p s) Q"
  unfolding malloc_hash_node_def by (rule alloc_vc) (auto simp: unused_block_def)

lemma calloc_block_vc:
  "alloc_ok E \<Longrightarrow>
   (e_ptr E s (Mem (Alloc k)) = NULL \<Longrightarrow> yields (f NULL (record_call (Mem (Alloc k)) s)) Q) \<Longrightarrow>
   (\<And>p. p \<noteq> NULL \<Longrightarrow> unused_block s p (block_size k) \<Longrightarrow>
     yields (f p (put_block (\<lambda>_. 0) p n (record_call (Mem (Alloc k)) s))) Q) \<Longrightarrow>
   yields (case calloc_block E k n s of (p, s) \<Rightarrow> f p s) Q"
  unfolding calloc_block_def by (rule alloc_vc)

lemma malloc_block_vc:
  "alloc_ok E \<Longrightarrow>
   (e_ptr E s (Mem (Alloc (A_bytes n))) = NULL \<Longrightarrow> yields (f NULL (record_call (Mem (Alloc (A_bytes n))) s)) Q) \<Longrightarrow>
   (\<And>p. p \<noteq> NULL \<Longrightarrow> unused_block s p (block_size (A_bytes n)) \<Longrightarrow>
     yields (f p (put_block (e_junk E) p n (record_call (Mem (Alloc (A_bytes n))) s))) Q) \<Longrightarrow>
   yields (case malloc_block E n s of (p, s) \<Rightarrow> f p s) Q"
  unfolding malloc_block_def by (rule alloc_vc)

section \<open>Fields a step leaves alone\<close>

lemma record_call_fields [simp]:
  "curnode (record_call c s) = curnode s"
  "transports (record_call c s) = transports s"
  "tasks (record_call c s) = tasks s"
  "hcqs (record_call c s) = hcqs s"
  "devices (record_call c s) = devices s"
  "contexts (record_call c s) = contexts s"
  "event_datas (record_call c s) = event_datas s"
  "mempools (record_call c s) = mempools s"
  "hash_nodes (record_call c s) = hash_nodes s"
  "links (record_call c s) = links s"
  "mem (record_call c s) = mem s"
  "blocks (record_call c s) = blocks s"
  "mrs (record_call c s) = mrs s"
  "cm_ids (record_call c s) = cm_ids s"
  "chan_fds (record_call c s) = chan_fds s"
  "interest (record_call c s) = interest s"
  "init_once (record_call c s) = init_once s"
  "release_once (record_call c s) = release_once s"
  "log (record_call c s) = log s"
  "calls (record_call c s) = c # calls s"
  by (simp_all add: record_call_def)

lemma put_block_fields [simp]:
  "curnode (put_block f p n s) = curnode s"
  "transports (put_block f p n s) = transports s"
  "tasks (put_block f p n s) = tasks s"
  "hcqs (put_block f p n s) = hcqs s"
  "devices (put_block f p n s) = devices s"
  "contexts (put_block f p n s) = contexts s"
  "event_datas (put_block f p n s) = event_datas s"
  "mempools (put_block f p n s) = mempools s"
  "hash_nodes (put_block f p n s) = hash_nodes s"
  "links (put_block f p n s) = links s"
  "mrs (put_block f p n s) = mrs s"
  "cm_ids (put_block f p n s) = cm_ids s"
  "chan_fds (put_block f p n s) = chan_fds s"
  "interest (put_block f p n s) = interest s"
  "init_once (put_block f p n s) = init_once s"
  "release_once (put_block f p n s) = release_once s"
  "calls (put_block f p n s) = calls s"
  "log (put_block f p n s) = log s"
  "blocks (put_block f p n s) = (blocks s)(p \<mapsto> n)"
  "mem (put_block f p n s) = (\<lambda>a. if a \<in> span p n then Some (f a) else mem s a)"
  by (simp_all add: put_block_def)

lemma ERROR_LOG_fields [simp]:
  "curnode (ERROR_LOG m s) = curnode s"
  "transports (ERROR_LOG m s) = transports s"
  "tasks (ERROR_LOG m s) = tasks s"
  "hcqs (ERROR_LOG m s) = hcqs s"
  "devices (ERROR_LOG m s) = devices s"
  "contexts (ERROR_LOG m s) = contexts s"
  "event_datas (ERROR_LOG m s) = event_datas s"
  "mempools (ERROR_LOG m s) = mempools s"
  "hash_nodes (ERROR_LOG m s) = hash_nodes s"
  "links (ERROR_LOG m s) = links s"
  "mem (ERROR_LOG m s) = mem s"
  "blocks (ERROR_LOG m s) = blocks s"
  "mrs (ERROR_LOG m s) = mrs s"
  "cm_ids (ERROR_LOG m s) = cm_ids s"
  "chan_fds (ERROR_LOG m s) = chan_fds s"
  "interest (ERROR_LOG m s) = interest s"
  "init_once (ERROR_LOG m s) = init_once s"
  "release_once (ERROR_LOG m s) = release_once s"
  "calls (ERROR_LOG m s) = calls s"
  by (simp_all add: ERROR_LOG_eq)

lemma INFO_LOG_fields [simp]:
  "curnode (INFO_LOG m s) = curnode s"
  "transports (INFO_LOG m s) = transports s"
  "tasks (INFO_LOG m s) = tasks s"
  "hcqs (INFO_LOG m s) = hcqs s"
  "devices (INFO_LOG m s) = devices s"
  "contexts (INFO_LOG m s) = contexts s"
  "event_datas (INFO_LOG m s) = event_datas s"
  "mempools (INFO_LOG m s) = mempools s"
  "hash_nodes (INFO_LOG m s) = hash_nodes s"
  "links (INFO_LOG m s) = links s"
  "mem (INFO_LOG m s) = mem s"
  "blocks (INFO_LOG m s) = blocks s"
  "mrs (INFO_LOG m s) = mrs s"
  "cm_ids (INFO_LOG m s) = cm_ids s"
  "chan_fds (INFO_LOG m s) = chan_fds s"
  "interest (INFO_LOG m s) = interest s"
  "init_once (INFO_LOG m s) = init_once s"
  "release_once (INFO_LOG m s) = release_once s"
  "calls (INFO_LOG m s) = calls s"
  by (simp_all add: INFO_LOG_eq)

lemma upd_curnode_fields [simp]:
  "transports (upd_curnode f s) = transports s"
  "tasks (upd_curnode f s) = tasks s"
  "hcqs (upd_curnode f s) = hcqs s"
  "devices (upd_curnode f s) = devices s"
  "contexts (upd_curnode f s) = contexts s"
  "event_datas (upd_curnode f s) = event_datas s"
  "mempools (upd_curnode f s) = mempools s"
  "hash_nodes (upd_curnode f s) = hash_nodes s"
  "links (upd_curnode f s) = links s"
  "mem (upd_curnode f s) = mem s"
  "blocks (upd_curnode f s) = blocks s"
  "mrs (upd_curnode f s) = mrs s"
  "cm_ids (upd_curnode f s) = cm_ids s"
  "chan_fds (upd_curnode f s) = chan_fds s"
  "interest (upd_curnode f s) = interest s"
  "init_once (upd_curnode f s) = init_once s"
  "release_once (upd_curnode f s) = release_once s"
  "calls (upd_curnode f s) = calls s"
  "log (upd_curnode f s) = log s"
  "curnode (upd_curnode f s) = f (curnode s)"
  by (simp_all add: upd_curnode_def)

end
