(* ===== verification/Hmp_Span.thy ===== *)
theory Hmp_Span
  imports Hmp_Bytes
begin

text \<open>
  Runs of bytes by their numbers: a run that does not contain NULL does not wrap around, so
  membership, inclusion and disjointness of runs are comparisons of natural numbers.
\<close>

lemma of_nat_unat_ptr: "of_nat (unat p) = (p :: ptr)"
  by simp

lemma span_no_wrap:
  assumes "NULL \<notin> span p n" "p \<noteq> NULL"
  shows "unat p + n \<le> 2 ^ 64"
proof (rule ccontr)
  assume "\<not> unat p + n \<le> 2 ^ 64"
  moreover have lt: "unat p < 2 ^ 64" using unsigned_less [of p] by simp
  ultimately have i: "2 ^ 64 - unat p < n" by simp
  have "p + of_nat (2 ^ 64 - unat p) = of_nat (unat p + (2 ^ 64 - unat p))"
    by (simp only: of_nat_add of_nat_unat_ptr)
  also have "\<dots> = of_nat (2 ^ 64)" using lt by simp
  also have "\<dots> = (0 :: ptr)" by (simp add: word_of_nat_eq_0_iff)
  finally have "NULL \<in> span p n"
    unfolding span_def using i by (auto intro!: image_eqI [where x = "2 ^ 64 - unat p"])
  with assms show False by simp
qed

lemma unat_plus_small: "unat p + i < 2 ^ 64 \<Longrightarrow> unat (p + of_nat i :: ptr) = unat p + i"
  by (simp add: unat_word_ariths unat_of_nat take_bit_eq_mod)

lemma span_unat:
  assumes "unat p + n \<le> 2 ^ 64"
  shows "a \<in> span p n \<longleftrightarrow> unat p \<le> unat a \<and> unat a < unat p + n"
proof
  assume "a \<in> span p n"
  then obtain i where "i < n" "a = p + of_nat i" by (auto simp: span_def)
  then show "unat p \<le> unat a \<and> unat a < unat p + n"
    using unat_plus_small [of p i] assms by simp
next
  assume r: "unat p \<le> unat a \<and> unat a < unat p + n"
  have "a = p + of_nat (unat a - unat p)"
  proof -
    have "p + of_nat (unat a - unat p) = of_nat (unat p + (unat a - unat p))"
      by (simp only: of_nat_add of_nat_unat_ptr)
    with r show ?thesis by simp
  qed
  then show "a \<in> span p n"
    unfolding span_def using r by (intro image_eqI [where x = "unat a - unat p"]) auto
qed

text \<open>A part of a run, by its offset and length.\<close>

lemma span_sub:
  assumes "unat p + n \<le> 2 ^ 64" "i + m \<le> n"
  shows "span (p + of_nat i) m \<subseteq> span p n"
  unfolding span_def using assms
  by (auto simp: add.assoc simp flip: of_nat_add intro!: image_eqI)

lemma span_parts_disjoint:
  assumes "unat p + n \<le> 2 ^ 64" "i + m \<le> j" "j + k \<le> n"
  shows "span (p + of_nat i) m \<inter> span (p + of_nat j) k = {}"
proof (cases "m = 0 \<or> k = 0")
  case False
  then have "unat p + i < 2 ^ 64" "unat p + j < 2 ^ 64" using assms by auto
  then have u: "unat (p + of_nat i) = unat p + i" "unat (p + of_nat j) = unat p + j"
    by (simp_all add: unat_plus_small)
  have "unat (p + of_nat i) + m \<le> 2 ^ 64" "unat (p + of_nat j) + k \<le> 2 ^ 64"
    using u assms by auto
  from span_unat [OF this(1)] span_unat [OF this(2)] u assms show ?thesis by auto
qed auto

lemma span_beyond:
  assumes "unat p + n \<le> 2 ^ 64" "unat p + i < 2 ^ 64" "n \<le> i"
  shows "p + of_nat i \<notin> span p n"
  using assms unat_plus_small [of p i] by (simp add: span_unat)

end
