(* ===== verification/Hmp_Sample.thy ===== *)
theory Hmp_Sample
  imports Hmp_Vc Hmp_Span
begin

text \<open>
  A concrete environment and a concrete node, at which the properties with hypotheses are
  applied: every call succeeds, and the allocator gives each object a megabyte of its own,
  chosen by the number of calls made so far, unless something lives there already.
\<close>

definition sample_place :: "sys \<Rightarrow> ptr" where
  "sample_place s = 0x100000 * (1 + word_of_nat (length (calls s)))"

definition sample_alloc :: "sys \<Rightarrow> alloc_kind \<Rightarrow> ptr" where
  "sample_alloc s k =
     (if unused_block s (sample_place s) (block_size k) then sample_place s else NULL)"

definition sample_env :: env where
  "sample_env =
     \<lparr>e_int = (\<lambda>s c. 0),
      e_ptr = (\<lambda>s c. case c of Mem (Alloc k) \<Rightarrow> sample_alloc s k | _ \<Rightarrow> sample_place s),
      e_attr = (\<lambda>s. \<lparr>max_sge = 30, max_cqe = 1000\<rparr>),
      e_keys = (\<lambda>s. (7, 9)),
      e_wc = (\<lambda>s. \<lparr>wc_wr_id = 0, wc_status = IBV_WC_SUCCESS, wc_opcode = IBV_WC_SEND\<rparr>),
      e_cm_event = (\<lambda>s. \<lparr>ev_id = 0, ev_listen_id = 0, ev_event = RDMA_CM_EVENT_ADDR_RESOLVED,
        ev_status = 0\<rparr>),
      e_cm_id = (\<lambda>s. \<lparr>id_verbs = 0x80, id_context = 0x60, id_qp = 0,
        id_src_sin = zero_sockaddr, id_dst_sin = zero_sockaddr\<rparr>),
      e_errno = (\<lambda>s. 11),
      e_events = (\<lambda>s. []),
      e_devices = (\<lambda>s. Some []),
      e_sin_addr = (\<lambda>s. 0),
      e_dev_name = (\<lambda>p. ''ib''),
      e_ntoa = (\<lambda>a. ''10.0.0.1''),
      e_junk = (\<lambda>p. 0),
      e_curnode = 0x10,
      e_dev_list = 0x20,
      e_hash_list = 0x40\<rparr>"

lemma sample_env_alloc_ok: "alloc_ok sample_env"
  by (simp add: alloc_ok_def sample_env_def sample_alloc_def)

definition blank_mr :: hmp_mr_info where
  "blank_mr = \<lparr>mri_addr = 0, mri_length = 0, mri_rkey = 0\<rparr>"

definition sample_info :: "string \<Rightarrow> hmp_node_info" where
  "sample_info a = \<lparr>ni_addr = a, ni_port = 2345, dram_mr = blank_mr, nvm_mr = blank_mr\<rparr>"

text \<open>The node 1 of two nodes, with a device and a listening transport on it.\<close>

definition sample_node :: hmp_node where
  "sample_node =
     \<lparr>config = \<lparr>node_infos = sample_info ''10.0.0.1'' # sample_info ''10.0.0.2'' #
          replicate 6 (sample_info ''''),
        curnode_id = 1, node_cnt = 2\<rparr>,
      node_ctx = 0x50, listen_port = 0, listen_trans = 0x60, connect_trans = replicate 8 NULL,
      dram_mempool = NULL, hybrid_mempool_base = 0, num_devices = 1\<rparr>"

definition sample_sys :: sys where
  "sample_sys =
     \<lparr>curnode = sample_node,
      transports = [0x60 \<mapsto> zero_transport\<lparr>trans_device := 0x70\<rparr>],
      tasks = Map.empty, hcqs = Map.empty,
      devices = [0x70 \<mapsto> zero_device\<lparr>dev_verbs := 0x80, dev_pd := 0x90\<rparr>],
      contexts = [0x50 \<mapsto> \<lparr>epfd = 3, ctx_stop = 0, epoll_thread = 1\<rparr>],
      event_datas = Map.empty, mempools = Map.empty, hash_nodes = Map.empty,
      links = Map.empty, mem = Map.empty, blocks = Map.empty, mrs = Map.empty,
      cm_ids = Map.empty, chan_fds = Map.empty, interest = Map.empty,
      init_once = False, release_once = False,
      calls = [], log = []\<rparr>"

end
