(* ===== verification/Hmp_Mem_Props.thy ===== *)
theory Hmp_Mem_Props
  imports Hmp_Mem Hmp_Sample
begin

text \<open>The properties of the memory pool, the bump allocator and the hybrid addresses.\<close>

section \<open>Pages\<close>

text \<open>The page count is the size divided by 64, rounded up.\<close>

definition pages_of :: "int \<Rightarrow> int" where
  "pages_of sz = (sz + 63) div 64"

lemma pages_round_up:
  assumes "0 < sz"
  shows "(if sz smod HMP_PAGE_SIZE \<noteq> 0 then sz sdiv HMP_PAGE_SIZE + 1 else sz sdiv HMP_PAGE_SIZE) =
    pages_of sz"
proof -
  have d: "sz sdiv 64 = sz div 64" "sz smod 64 = sz mod 64"
    using assms by (simp_all add: signed_divide_int_def signed_modulo_int_def)
  have e: "pages_of sz = sz div 64 + (sz mod 64 + 63) div 64"
  proof -
    have "sz + 63 = (sz mod 64 + 63) + sz div 64 * 64" by simp
    moreover have "((sz mod 64 + 63) + sz div 64 * 64) div 64 = sz div 64 + (sz mod 64 + 63) div 64"
      by (rule div_mult_self1) simp
    ultimately show ?thesis unfolding pages_of_def by (simp only:)
  qed
  have "0 \<le> sz mod 64" "sz mod 64 < 64" by simp_all
  then have "(sz mod 64 + 63) div 64 = (if sz mod 64 = 0 then 0 else 1)"
    by (simp add: div_pos_geq)
  with e d show ?thesis by (simp add: HMP_PAGE_SIZE_def)
qed

lemma pages_bounds: "0 < sz \<Longrightarrow> sz \<le> pages_of sz * 64 \<and> pages_of sz * 64 < sz + 64"
  unfolding pages_of_def by presburger

section \<open>Creation of the pool\<close>

definition pool_made :: "sys \<Rightarrow> int \<Rightarrow> ptr \<Rightarrow> sys \<Rightarrow> bool" where
  "pool_made s0 sz p s \<longleftrightarrow> (\<exists>m r. mempools s = (mempools s0)(p \<mapsto> m) \<and>
     pool_size m = page_num m * 64 \<and> sz \<le> pool_size m \<and> pool_size m < sz + 64 \<and>
     alloc_size m = 0 \<and> base_addr m \<noteq> NULL \<and> page_array m \<noteq> NULL \<and> base_addr m \<noteq> page_array m \<and>
     blocks s0 (base_addr m) = None \<and> blocks s0 (page_array m) = None \<and>
     blocks s = (blocks s0)(base_addr m \<mapsto> nat (pool_size m),
       page_array m \<mapsto> nat (page_num m) * hmp_page_bytes) \<and>
     (span (base_addr m) (nat (pool_size m)) \<union>
       span (page_array m) (nat (page_num m) * hmp_page_bytes)) \<inter> dom (mem s0) = {} \<and>
     mem s = (\<lambda>a. if a \<in> span (page_array m) (nat (page_num m) * hmp_page_bytes) then Some 0
       else if a \<in> span (base_addr m) (nat (pool_size m)) then Some 0 else mem s0 a) \<and>
     pool_mr m \<noteq> NULL \<and> mrs s (pool_mr m) = Some r \<and> mr_addr r = base_addr m \<and>
     mr_length r = word_of_int (pool_size m) \<and> curnode s = curnode s0)"

lemma mempool_set_size_eq:
  assumes "mempools s p = Some m" "p \<noteq> NULL" "0 < sz"
  shows "mempool_set_size sz p s = Some (s\<lparr>mempools := (mempools s)
    (p \<mapsto> m\<lparr>page_num := pages_of sz, pool_size := pages_of sz * 64\<rparr>)\<rparr>)"
  using assms pages_round_up [OF assms(3)]
  by (cases "sz smod HMP_PAGE_SIZE = 0")
    (auto simp: mempool_set_size_def upd_mempool_def HMP_PAGE_SIZE_def)

lemma reg_mr_vc:
  "yields (f NULL (record_call (Verbs (Reg_mr pd a n fl)) s)) Q \<Longrightarrow>
   (\<And>p. p \<noteq> NULL \<Longrightarrow> yields (f p ((record_call (Verbs (Reg_mr pd a n fl)) s)\<lparr>mrs := (mrs s)(p \<mapsto>
     \<lparr>mr_addr = a, mr_length = word_of_int n, mr_lkey = fst (e_keys E s),
       mr_rkey = snd (e_keys E s)\<rparr>)\<rparr>)) Q) \<Longrightarrow>
   yields (case ibv_reg_mr E pd a n fl s of (p, s) \<Rightarrow> f p s) Q"
  by (simp add: ibv_reg_mr_def ptr_call_def Let_def split_def)

text \<open>The heaps after a successful creation.\<close>

lemma pool_madeI:
  fixes s0 s :: sys and sz base pages p r ra
  defines "m \<equiv> zero_mempool\<lparr>page_num := pages_of sz, pool_size := pages_of sz * 64,
    base_addr := base, page_array := pages, alloc_size := 0, pool_mr := r\<rparr>"
  assumes "0 < sz" "mempools s = (mempools s0)(p \<mapsto> m)" "base \<noteq> NULL" "pages \<noteq> NULL" "base \<noteq> pages"
    "blocks s0 base = None" "blocks s0 pages = None"
    "blocks s = (blocks s0)(base \<mapsto> nat (pages_of sz * 64), pages \<mapsto> nat (pages_of sz) * hmp_page_bytes)"
    "span base (nat (pages_of sz * 64)) \<inter> dom (mem s0) = {}"
    "span pages (nat (pages_of sz) * hmp_page_bytes) \<inter> dom (mem s0) = {}"
    "mem s = (\<lambda>a. if a \<in> span pages (nat (pages_of sz) * hmp_page_bytes) then Some 0
       else if a \<in> span base (nat (pages_of sz * 64)) then Some 0 else mem s0 a)"
    "r \<noteq> NULL" "mrs s r = Some ra" "mr_addr ra = base"
    "mr_length ra = word_of_int (pages_of sz * 64)" "curnode s = curnode s0"
  shows "pool_made s0 sz p s"
  unfolding pool_made_def
  apply (rule exI [of _ m], rule exI [of _ ra])
  using assms pages_bounds [of sz]
  apply (simp add: Int_Un_distrib2 m_def cong: if_cong)
  done

lemma mempool_create_yields:
  assumes ok: "alloc_ok E" and sz: "0 < sz" and pd: "listen_pd s = Some pd"
  shows "yields (hmp_mempool_create E sz s) (\<lambda>(p, s').
    if p = NULL then mempools s' = mempools s \<and> blocks s' = blocks s \<and> mem s' = mem s \<and> mrs s' = mrs s
    else unused s p \<and> pool_made s sz p s')"
proof -
  have pd': "listen_pd s' = Some pd"
    if "curnode s' = curnode s" "transports s' = transports s" "devices s' = devices s" for s'
    using that pd by (simp add: listen_pd_def)
  show ?thesis
  unfolding hmp_mempool_create_def Let_def
  apply (rule calloc_mempool_vc [OF ok])
   apply (simp add: vc)
  subgoal for p
    apply (simp add: vc mempool_set_size_eq [OF _ _ sz])
    apply (rule calloc_block_vc [OF ok])
    subgoal by (auto simp: vc clean_mempool_def unused_def fun_eq_iff)
    subgoal for base
      apply (simp add: vc)
      apply (rule calloc_block_vc [OF ok])
      subgoal by (auto simp: vc clean_base_addr_def clean_mempool_def unused_def unused_block_def
            fun_eq_iff disjoint_iff domIff)
      subgoal for pages
        apply (simp add: vc pd')
        apply (rule reg_mr_vc)
        subgoal by (auto simp: vc clean_page_array_def clean_base_addr_def clean_mempool_def
              unused_def unused_block_def hmp_page_bytes_def fun_eq_iff disjoint_iff domIff
              cong: if_cong)
        subgoal for r
          apply (simp add: vc)
          apply (rule pool_madeI [where base = base and pages = pages and r = r])
          using sz apply (simp_all add: unused_def unused_block_def hmp_page_bytes_def)
          apply (auto simp: disjoint_iff domIff split: if_splits)
          done
        done
      done
    done
  done
qed


lemma listen_pd_upd_curnode:
  "listen_trans (f (curnode s)) = listen_trans (curnode s) \<Longrightarrow> listen_pd (upd_curnode f s) = listen_pd s"
  by (simp add: listen_pd_def)

lemma listen_pd_INFO_LOG [simp]: "listen_pd (INFO_LOG m s) = listen_pd s"
  by (simp add: listen_pd_def)


lemma sample_listen_pd: "listen_pd sample_sys = Some 0x90"
  by (simp add: listen_pd_def sample_sys_def sample_node_def zero_device_def zero_transport_def)


section \<open>Start and end of the memory module\<close>

definition same_mem :: "sys \<Rightarrow> sys \<Rightarrow> bool" where
  "same_mem s s' \<longleftrightarrow> mempools s' = mempools s \<and> blocks s' = blocks s \<and> mem s' = mem s"

text \<open>Freeing a pool undoes its creation, except for the registration.\<close>

lemma free_pool_undoes:
  assumes pool: "pool_made s0 sz p s" and p: "p \<noteq> NULL" "mempools s0 p = None"
    and cur: "dram_mempool (curnode s1) = p" and heaps: "mempools s1 = mempools s" "blocks s1 = blocks s" "mem s1 = mem s"
  shows "yields (hmp_mem_destroy s1) (\<lambda>s2. same_mem s0 s2 \<and> dram_mempool (curnode s2) = NULL \<and>
    mrs s2 = mrs s1)"
proof -
  from pool obtain m r where m: "mempools s = (mempools s0)(p \<mapsto> m)"
    "base_addr m \<noteq> NULL" "page_array m \<noteq> NULL" "base_addr m \<noteq> page_array m"
    "blocks s0 (base_addr m) = None" "blocks s0 (page_array m) = None"
    "blocks s = (blocks s0)(base_addr m \<mapsto> nat (pool_size m),
       page_array m \<mapsto> nat (page_num m) * hmp_page_bytes)"
    "(span (base_addr m) (nat (pool_size m)) \<union>
       span (page_array m) (nat (page_num m) * hmp_page_bytes)) \<inter> dom (mem s0) = {}"
    "mem s = (\<lambda>a. if a \<in> span (page_array m) (nat (page_num m) * hmp_page_bytes) then Some 0
       else if a \<in> span (base_addr m) (nat (pool_size m)) then Some 0 else mem s0 a)"
    unfolding pool_made_def by blast
  have e: "mempools s0 = (mempools s0)(p \<mapsto> m, p := None)" using p by auto
  show ?thesis
    unfolding hmp_mem_destroy_def Let_def cur using p m
    apply (simp add: vc heaps same_mem_def cong: if_cong)
    apply (auto simp: fun_eq_iff disjoint_iff domIff)
    done
qed


text \<open>C30. Starting the memory module either exits the process with everything freed, or installs a
  pool of 4096 bytes and publishes its address and remote key in the node's own entry of the
  configuration (the length in that entry stays as it was). Ending the module after that
  restores the three heaps exactly, without a double free, and clears the pointer; the
  registration of the freed memory is still there.\<close>

theorem mem_lifecycle:
  assumes ok: "alloc_ok E" and pd: "listen_pd s = Some pd"
    and id: "in_nodes (curnode_id (config (curnode s)))"
    and n: "length (node_infos (config (curnode s))) = HMP_NODE_NUM"
  shows "yields (hmp_mem_init E s) (\<lambda>(r, s1). case r of
    Inl h \<Rightarrow> h = Exited (- 1) \<and> same_mem s s1 \<and> mrs s1 = mrs s
  | Inr _ \<Rightarrow> (\<exists>m r. mempools s1 (dram_mempool (curnode s1)) = Some m \<and> mrs s1 (pool_mr m) = Some r \<and>
      pool_size m = HMP_DRAM_MEM_SIZE \<and>
      dram_mr (node_infos (config (curnode s1)) ! nat (curnode_id (config (curnode s)))) =
        (dram_mr (node_infos (config (curnode s)) ! nat (curnode_id (config (curnode s)))))
          \<lparr>mri_addr := base_addr m, mri_rkey := mr_rkey r\<rparr> \<and>
      yields (hmp_mem_destroy s1) (\<lambda>s2. same_mem s s2 \<and> dram_mempool (curnode s2) = NULL \<and>
        mrs s2 (pool_mr m) = Some r \<and> mr_addr r = base_addr m \<and> base_addr m \<notin> dom (mem s2))))"
proof -
  let ?i = "curnode_id (config (curnode s))"
  define s0 where "s0 = INFO_LOG ''curnode hybrid mem addr %p''
    (upd_curnode (\<lambda>n. n\<lparr>hybrid_mempool_base := hmp_get_hybrid_mempool_addr s\<rparr>) s)"
  have pd0: "listen_pd s0 = Some pd" using pd by (simp add: s0_def listen_pd_upd_curnode)
  have f: "same_mem s s0" "mrs s0 = mrs s" "config (curnode s0) = config (curnode s)"
    "listen_trans (curnode s0) = listen_trans (curnode s)"
    by (simp_all add: s0_def same_mem_def)
  have fin: "yields (hmp_mem_destroy (upd_curnode (\<lambda>n. n\<lparr>config := c\<rparr>) (INFO_LOG msg
        (upd_curnode (\<lambda>n. n\<lparr>dram_mempool := p\<rparr>) s')))) (\<lambda>s2. same_mem s s2 \<and>
        dram_mempool (curnode s2) = NULL \<and> mrs s2 = mrs s')"
    if "unused s0 p" "pool_made s0 HMP_DRAM_MEM_SIZE p s'" for p s' c msg
    by (rule yields_mono [OF free_pool_undoes [OF that(2)]])
      (use that(1) f(1) in \<open>auto simp: unused_def same_mem_def\<close>)
  show ?thesis
    unfolding hmp_mem_init_def Let_def s0_def [symmetric] yields_bind
  proof (rule yields_mono [OF mempool_create_yields [OF ok _ pd0]], goal_cases)
    case (2 x)
    obtain p s' where x: "x = (p, s')" by (cases x)
    show ?case
    proof (cases "p = NULL")
      case True
      with 2 x f show ?thesis by (simp add: vc same_mem_def)
    next
      case False
      with 2 x have u: "unused s0 p" and made: "pool_made s0 HMP_DRAM_MEM_SIZE p s'" by simp_all
      from made obtain m r where m: "mempools s' = (mempools s0)(p \<mapsto> m)"
        "pool_size m = page_num m * 64" "HMP_DRAM_MEM_SIZE \<le> pool_size m"
        "pool_size m < HMP_DRAM_MEM_SIZE + 64" "pool_mr m \<noteq> NULL" "mrs s' (pool_mr m) = Some r"
        "mr_addr r = base_addr m" "span (base_addr m) (nat (pool_size m)) \<inter> dom (mem s0) = {}"
        "curnode s' = curnode s0"
        unfolding pool_made_def by blast
      have size: "pool_size m = HMP_DRAM_MEM_SIZE"
        using m(2-4) unfolding HMP_DRAM_MEM_SIZE_def by presburger
      have "base_addr m \<in> span (base_addr m) (Suc n)" for n by (simp add: span_Suc)
      then have "base_addr m \<in> span (base_addr m) (nat (pool_size m))"
        unfolding size HMP_DRAM_MEM_SIZE_def by (metis Suc_pred' zero_less_nat_eq zero_less_numeral mult_pos_pos)
      with m(8) f(1) have out: "base_addr m \<notin> dom (mem s)" by (auto simp: same_mem_def)
      note fin' = fin [OF u made]
      have i: "nat ?i < length (node_infos (config (curnode s)))"
        using id n by (auto simp: in_nodes_def)
      show ?thesis
        using x False m f id n size out i
        apply (simp add: vc upd_info_def in_nodes_def)
        apply (rule yields_mono [OF fin'])
        apply (auto simp: same_mem_def)
        done
    qed
  qed (simp add: HMP_DRAM_MEM_SIZE_def)
qed


section \<open>Allocations\<close>

text \<open>A sequence of allocations, and where their blocks start, counted from the pool's base.\<close>

fun malloc_all :: "int list \<Rightarrow> sys \<Rightarrow> (ptr list \<times> sys) option" where
  "malloc_all [] s = Some ([], s)"
| "malloc_all (n # ns) s = do {
     (r, s) \<leftarrow> hmp_malloc n s;
     case r of Inl _ \<Rightarrow> None
     | Inr p \<Rightarrow> do { (ps, s) \<leftarrow> malloc_all ns s; Some (p # ps, s) } }"

fun offsets :: "nat \<Rightarrow> nat list \<Rightarrow> nat list" where
  "offsets k [] = []"
| "offsets k (n # ns) = k # offsets (k + n) ns"

lemma offsets_length [simp]: "length (offsets k ns) = length ns"
  by (induction ns arbitrary: k) auto

lemma offsets_bounds: "i < length ns \<Longrightarrow> k \<le> offsets k ns ! i \<and> offsets k ns ! i + ns ! i \<le> k + sum_list ns"
proof (induction ns arbitrary: k i)
  case (Cons n ns)
  then show ?case by (cases i) (auto dest!: Cons.IH [of _ "k + n"])
qed simp

lemma offsets_ordered: "i < j \<Longrightarrow> j < length ns \<Longrightarrow> offsets k ns ! i + ns ! i \<le> offsets k ns ! j"
proof (induction ns arbitrary: k i j)
  case (Cons n ns)
  then obtain j' where j: "j = Suc j'" by (cases j) auto
  show ?case
  proof (cases i)
    case 0
    then show ?thesis using offsets_bounds [of j' ns "k + n"] Cons.prems j by simp
  next
    case (Suc i')
    then show ?thesis using Cons.IH [of i' j' "k + n"] Cons.prems j by simp
  qed
qed simp

text \<open>The pool in place, with the slots of the nodes at its start.\<close>

definition slot_bytes :: "sys \<Rightarrow> nat" where
  "slot_bytes s = nat (node_cnt (config (curnode s))) * 160"

definition has_pool :: "sys \<Rightarrow> hmp_mempool \<Rightarrow> bool" where
  "has_pool s m \<longleftrightarrow> dram_mempool (curnode s) \<noteq> NULL \<and> mempools s (dram_mempool (curnode s)) = Some m \<and>
     0 \<le> node_cnt (config (curnode s)) \<and> base_addr m \<noteq> NULL \<and>
     NULL \<notin> span (base_addr m) (nat (pool_size m))"

definition set_alloc :: "64 word \<Rightarrow> hmp_mempool \<Rightarrow> sys \<Rightarrow> sys" where
  "set_alloc w m s = s\<lparr>mempools := (mempools s)(dram_mempool (curnode s) \<mapsto> m\<lparr>alloc_size := w\<rparr>)\<rparr>"

lemma slots_size_bytes:
  "0 \<le> node_cnt (config (curnode s)) \<Longrightarrow> slots_size s = of_nat (slot_bytes s)"
proof -
  assume "0 \<le> node_cnt (config (curnode s))"
  then have "node_cnt (config (curnode s)) * 4 * int HMP_TASK_SIZE = int (slot_bytes s)"
    by (simp add: slot_bytes_def HMP_TASK_SIZE_def)
  then show ?thesis unfolding slots_size_def by simp
qed

lemma hmp_malloc_eq:
  assumes "has_pool s m" "0 < n"
  shows "hmp_malloc n s = Some (Inr (base_addr m + of_nat (slot_bytes s + unat (alloc_size m))),
    set_alloc (alloc_size m + of_nat (nat n)) m s)"
  using assms
  by (simp add: hmp_malloc_def has_pool_def upd_defs set_alloc_def slots_size_bytes add.assoc Let_def)

lemma set_alloc_pool:
  "has_pool s m \<Longrightarrow> has_pool (set_alloc w m s) (m\<lparr>alloc_size := w\<rparr>)"
  "slot_bytes (set_alloc w m s) = slot_bytes s"
  "set_alloc v (m\<lparr>alloc_size := w\<rparr>) (set_alloc w m s) = set_alloc v m s"
  by (simp_all add: has_pool_def set_alloc_def slot_bytes_def)

lemma malloc_all_eq:
  assumes "has_pool s m" "\<forall>n\<in>set ns. 0 < n"
    and "unat (alloc_size m) + sum_list (map nat ns) < 2 ^ 64"
  shows "malloc_all ns s = Some
    (map (\<lambda>k. base_addr m + of_nat k) (offsets (slot_bytes s + unat (alloc_size m)) (map nat ns)),
     set_alloc (alloc_size m + of_nat (sum_list (map nat ns))) m s)"
  using assms
proof (induction ns arbitrary: s m)
  case Nil
  then show ?case by (simp add: set_alloc_def has_pool_def fun_upd_idem)
next
  case (Cons n ns)
  let ?a = "alloc_size m + of_nat (nat n)"
  let ?m = "m\<lparr>alloc_size := ?a\<rparr>"
  have u: "unat ?a = unat (alloc_size m) + nat n"
    using Cons.prems(3) by (intro unat_plus_small) simp
  have pool: "has_pool (set_alloc ?a m s) ?m"
    using Cons.prems(1) by (rule set_alloc_pool)
  have "malloc_all ns (set_alloc ?a m s) = Some
    (map (\<lambda>k. base_addr m + of_nat k) (offsets (slot_bytes s + (unat (alloc_size m) + nat n)) (map nat ns)),
     set_alloc (?a + of_nat (sum_list (map nat ns))) m s)"
    using Cons.IH [OF pool] Cons.prems u by (simp add: set_alloc_pool)
  then show ?case
    using Cons.prems(1, 2) by (simp add: hmp_malloc_eq add.assoc)
qed

text \<open>C27. A sequence of allocations that fits in the pool gives blocks that lie in the pool's memory,
  after the message slots and after what was allocated before, and no two of them overlap.\<close>

theorem malloc_disjoint:
  assumes pool: "has_pool s m" and pos: "\<forall>n\<in>set ns. 0 < n"
    and fits: "slot_bytes s + unat (alloc_size m) + sum_list (map nat ns) \<le> nat (pool_size m)"
    and small: "pool_size m < 2 ^ 31"
  shows "\<exists>ps s'. malloc_all ns s = Some (ps, s') \<and> length ps = length ns \<and>
    (\<forall>i<length ns. span (ps ! i) (nat (ns ! i)) \<subseteq>
       span (base_addr m) (nat (pool_size m)) - span (base_addr m) (slot_bytes s + unat (alloc_size m))) \<and>
    (\<forall>i j. i < j \<and> j < length ns \<longrightarrow> span (ps ! i) (nat (ns ! i)) \<inter> span (ps ! j) (nat (ns ! j)) = {})"
proof -
  let ?k = "slot_bytes s + unat (alloc_size m)"
  let ?o = "offsets ?k (map nat ns)"
  let ?P = "nat (pool_size m)"
  have nw: "unat (base_addr m) + ?P \<le> 2 ^ 64"
    using pool by (intro span_no_wrap) (auto simp: has_pool_def)
  have P: "?P < 2 ^ 31" using small by simp
  have "unat (alloc_size m) + sum_list (map nat ns) < 2 ^ 64" using fits P by simp
  note eq = malloc_all_eq [OF pool pos this]
  have b: "?k \<le> ?o ! i" "?o ! i + nat (ns ! i) \<le> ?P" if "i < length ns" for i
    using offsets_bounds [of i "map nat ns" ?k] that fits by auto
  have inside: "span (base_addr m + of_nat (?o ! i)) (nat (ns ! i)) \<subseteq>
      span (base_addr m) ?P - span (base_addr m) ?k" if "i < length ns" for i
    using span_sub [OF nw b(2) [OF that]] span_parts_disjoint [OF nw, of 0 ?k "?o ! i"] b [OF that]
    by auto
  have apart: "span (base_addr m + of_nat (?o ! i)) (nat (ns ! i)) \<inter>
      span (base_addr m + of_nat (?o ! j)) (nat (ns ! j)) = {}" if "i < j" "j < length ns" for i j
    using span_parts_disjoint [OF nw, of "?o ! i" "nat (ns ! i)" "?o ! j"]
      offsets_ordered [of i j "map nat ns" ?k] b [of j] that by auto
  show ?thesis
    unfolding eq by (intro exI conjI, rule refl) (use inside apart in auto)
qed

text \<open>The allocator has no bound: an allocation that no longer fits in the pool succeeds too, with
  an address different from NULL, and its last byte is outside the memory of the pool.\<close>

theorem malloc_past_end:
  assumes pool: "has_pool s m" and pos: "0 < n"
    and full: "pool_size m < int (slot_bytes s + unat (alloc_size m)) + n"
    and room: "unat (base_addr m) + slot_bytes s + unat (alloc_size m) + nat n \<le> 2 ^ 64"
  shows "\<exists>q s'. hmp_malloc n s = Some (Inr q, s') \<and> q \<noteq> NULL \<and>
    q + of_nat (nat n - 1) \<notin> span (base_addr m) (nat (pool_size m))"
proof -
  let ?k = "slot_bytes s + unat (alloc_size m)"
  let ?q = "base_addr m + of_nat ?k"
  have nw: "unat (base_addr m) + nat (pool_size m) \<le> 2 ^ 64"
    using pool by (intro span_no_wrap) (auto simp: has_pool_def)
  have l: "unat (base_addr m) + (?k + (nat n - 1)) < 2 ^ 64" using room pos by linarith
  have "?q + of_nat (nat n - 1) = base_addr m + of_nat (?k + (nat n - 1))" by simp
  also have "\<dots> \<notin> span (base_addr m) (nat (pool_size m))"
    by (rule span_beyond [OF nw l]) (use full pos in linarith)
  finally have "?q + of_nat (nat n - 1) \<notin> span (base_addr m) (nat (pool_size m))" .
  moreover have "unat ?q = unat (base_addr m) + ?k" using l by (intro unat_plus_small) simp
  then have "?q \<noteq> NULL" using pool by (auto simp: has_pool_def unat_eq_0)
  ultimately show ?thesis using hmp_malloc_eq [OF pool pos] by blast
qed

section \<open>Hybrid addresses\<close>

text \<open>The address of \<open>off\<close> on node \<open>i\<close>, as the node's base plus the address.\<close>

definition hybrid_addr :: "int \<Rightarrow> ptr \<Rightarrow> ptr" where
  "hybrid_addr i off = push_bit 48 (word_of_int i) + off"

lemma uint_hybrid:
  assumes "0 \<le> i" "i < 2 ^ 15" "uint off < 2 ^ 48"
  shows "uint (hybrid_addr i off) = i * 2 ^ 48 + uint off"
proof -
  have "hybrid_addr i off = word_of_int (i * 2 ^ 48 + uint off)"
    by (simp add: hybrid_addr_def push_bit_eq_mult)
  moreover have "0 \<le> i * 2 ^ 48 + uint off" "i * 2 ^ 48 + uint off < 2 ^ 64"
    using assms by simp_all
  ultimately show ?thesis
    by (simp only: uint_word_of_int_eq) (rule take_bit_int_eq_self, simp_all)
qed

lemma sint_small: "uint p < 2 ^ 63 \<Longrightarrow> sint p = uint (p :: ptr)"
  by (simp add: sint_uint signed_take_bit_eq_if_positive bit_iff_odd take_bit_int_eq_self)

lemma sint_large: "\<not> uint p < 2 ^ 63 \<Longrightarrow> sint (p :: ptr) < 0"
proof -
  assume large: "\<not> uint p < 2 ^ 63"
  have lt: "uint p < 2 ^ 64" using unsigned_less [of p] by simp
  with large have "uint p div 2 ^ 63 = 1" by (simp add: div_pos_geq)
  then have "bit (uint p) 63" by (simp add: bit_iff_odd)
  then have "sint p = take_bit 64 (uint p) - 2 ^ 64"
    by (simp add: sint_uint signed_take_bit_eq_take_bit_minus)
  with lt show ?thesis by (simp add: take_bit_int_eq_self)
qed

lemma hm_node_id_iff:
  assumes "node_cnt (config (curnode s)) \<le> int HMP_NODE_NUM"
  shows "fst (hmp_get_hm_node_id p s) = Inr (i, off) \<longleftrightarrow>
    p = hybrid_addr i off \<and> 0 \<le> i \<and> i < node_cnt (config (curnode s)) \<and> uint off < 2 ^ 48"
proof (cases "uint p < 2 ^ 63")
  case True
  note s = sint_small [OF True]
  have d: "uint p = uint p div 2 ^ 48 * 2 ^ 48 + uint p mod 2 ^ 48" by simp
  have m: "uint (word_of_int (uint p mod 2 ^ 48) :: ptr) = uint p mod 2 ^ 48"
    by (simp add: uint_word_of_int_eq take_bit_int_eq_self)
  have q: "uint p div 2 ^ 48 < 2 ^ 15" using True by simp
  have q0: "0 \<le> uint p div 2 ^ 48" by (simp add: pos_imp_zdiv_nonneg_iff)
  have dec: "fst (hmp_get_hm_node_id p s) =
      (if uint p div 2 ^ 48 < node_cnt (config (curnode s))
       then Inr (uint p div 2 ^ 48, word_of_int (uint p mod 2 ^ 48)) else Inl Assertion_failed)"
    by (simp add: hmp_get_hm_node_id_def Let_def s signed_modulo_int_def pos_imp_zdiv_nonneg_iff)
  have enc: "p = hybrid_addr (uint p div 2 ^ 48) (word_of_int (uint p mod 2 ^ 48))"
    by (rule word_uint_eqI) (use uint_hybrid [OF q0 q] m d in simp)
  show ?thesis
  proof
    assume "fst (hmp_get_hm_node_id p s) = Inr (i, off)"
    then show "p = hybrid_addr i off \<and> 0 \<le> i \<and> i < node_cnt (config (curnode s)) \<and> uint off < 2 ^ 48"
      using dec enc m q0 by (auto split: if_splits)
  next
    assume r: "p = hybrid_addr i off \<and> 0 \<le> i \<and> i < node_cnt (config (curnode s)) \<and> uint off < 2 ^ 48"
    then have "uint p = i * 2 ^ 48 + uint off"
      using assms by (simp add: uint_hybrid HMP_NODE_NUM_def)
    moreover from this r have "uint p div 2 ^ 48 = i" "uint p mod 2 ^ 48 = uint off" by simp_all
    ultimately show "fst (hmp_get_hm_node_id p s) = Inr (i, off)" using dec r by simp
  qed
next
  case False
  then have "sint p div 2 ^ 48 < 0" using sint_large [of p] by simp
  then have "fst (hmp_get_hm_node_id p s) = Inl Assertion_failed"
    by (simp add: hmp_get_hm_node_id_def Let_def)
  moreover have "\<not> (p = hybrid_addr i off \<and> 0 \<le> i \<and> i < node_cnt (config (curnode s)) \<and> uint off < 2 ^ 48)"
  proof
    assume r: "p = hybrid_addr i off \<and> 0 \<le> i \<and> i < node_cnt (config (curnode s)) \<and> uint off < 2 ^ 48"
    with assms have "i < 8" by (simp add: HMP_NODE_NUM_def)
    with r have "uint p = i * 2 ^ 48 + uint off" by (simp add: uint_hybrid)
    with r \<open>i < 8\<close> False show False by simp
  qed
  ultimately show ?thesis by simp
qed


text \<open>A pool for the witnesses.\<close>

definition pool_sys :: sys where
  "pool_sys = sample_sys\<lparr>curnode := sample_node\<lparr>dram_mempool := 0x1000\<rparr>,
     mempools := [0x1000 \<mapsto> \<lparr>base_addr = 0x10000, page_array = 0x20000, page_num = 64,
       pool_size = 4096, alloc_size = 0, pool_mr = 0x3000\<rparr>],
     mrs := [0x3000 \<mapsto> \<lparr>mr_addr = 0x10000, mr_length = 4096, mr_lkey = 7, mr_rkey = 9\<rparr>]\<rparr>"

definition pool_obj :: hmp_mempool where
  "pool_obj = \<lparr>base_addr = 0x10000, page_array = 0x20000, page_num = 64,
     pool_size = 4096, alloc_size = 0, pool_mr = 0x3000\<rparr>"

lemma pool_sys_has_pool: "has_pool pool_sys pool_obj"
  by (simp add: has_pool_def pool_sys_def pool_obj_def sample_node_def span_unat)

lemma pool_sys_slots: "slot_bytes pool_sys = 320" "unat (alloc_size pool_obj) = 0"
  "pool_size pool_obj = 4096" "base_addr pool_obj = 0x10000"
  by (simp_all add: slot_bytes_def pool_sys_def pool_obj_def sample_node_def)

lemma sample_sys_node:
  "in_nodes (curnode_id (config (curnode sample_sys)))"
  "length (node_infos (config (curnode sample_sys))) = HMP_NODE_NUM"
  "node_cnt (config (curnode sample_sys)) = 2"
  by (simp_all add: sample_sys_def sample_node_def in_nodes_def HMP_NODE_NUM_def)

theorem mem_lifecycle_witness:
  "yields (hmp_mem_init sample_env sample_sys) (\<lambda>(r, s1). case r of
    Inl h \<Rightarrow> h = Exited (- 1)
  | Inr _ \<Rightarrow> (\<exists>m r. mempools s1 (dram_mempool (curnode s1)) = Some m \<and> pool_size m = 4096 \<and>
      yields (hmp_mem_destroy s1) (\<lambda>s2. blocks s2 = Map.empty \<and> mrs s2 (pool_mr m) = Some r)))"
proof (rule yields_mono [OF mem_lifecycle [OF sample_env_alloc_ok sample_listen_pd
        sample_sys_node(1, 2)]], goal_cases)
  case (1 x)
  have b: "blocks sample_sys = Map.empty" by (simp add: sample_sys_def)
  from 1 b show ?case
    by (auto simp: HMP_DRAM_MEM_SIZE_def same_mem_def yields_def split: sum.splits prod.splits)
qed

theorem malloc_disjoint_witness:
  "\<exists>ps s'. malloc_all [100, 200, 300] pool_sys = Some (ps, s') \<and> length ps = 3 \<and>
    span (ps ! 0) 100 \<inter> span (ps ! 2) 300 = {}"
proof -
  have "\<forall>n\<in>set [100, 200, 300 :: int]. 0 < n" by simp
  from malloc_disjoint [OF pool_sys_has_pool this] obtain ps s' where
    *: "malloc_all [100, 200, 300] pool_sys = Some (ps, s')" "length ps = 3"
    "\<forall>i j. i < j \<and> j < 3 \<longrightarrow> span (ps ! i) (nat ([100, 200, 300] ! i)) \<inter>
      span (ps ! j) (nat ([100, 200, 300] ! j)) = {}"
    by (auto simp: pool_sys_slots numeral_3_eq_3)
  from *(3) [rule_format, of 0 2] have "span (ps ! 0) 100 \<inter> span (ps ! 2) 300 = {}" by simp
  with *(1, 2) show ?thesis by blast
qed

theorem malloc_past_end_witness:
  "\<exists>q s'. hmp_malloc 4096 pool_sys = Some (Inr q, s') \<and> q \<noteq> NULL \<and>
    q + 4095 \<notin> span 0x10000 4096"
  using malloc_past_end [OF pool_sys_has_pool, of 4096] by (simp add: pool_sys_slots)


end
