(* ===== verification/Hmp_Text.thy ===== *)
theory Hmp_Text
  imports Main
begin

text \<open>
  The text functions of the C library the program uses: decimal output (\<open>%d\<close>, \<open>%u\<close>, padded
  fields), \<open>atoi\<close>, \<open>strrchr\<close>, and the bounded copy of \<open>snprintf\<close>. A string is the list of its
  characters before the terminating NUL.
\<close>

section \<open>Decimal numbers\<close>

definition digit_char :: "nat \<Rightarrow> char" where
  "digit_char d = char_of (48 + d)"

definition is_digit :: "char \<Rightarrow> bool" where
  "is_digit c \<longleftrightarrow> of_char c \<in> {48 .. 57 :: nat}"

definition digit_value :: "char \<Rightarrow> nat" where
  "digit_value c = of_char c - 48"

fun dec_of_nat :: "nat \<Rightarrow> string" where
  "dec_of_nat n = (if n < 10 then [digit_char n] else dec_of_nat (n div 10) @ [digit_char (n mod 10)])"

declare dec_of_nat.simps [simp del]

definition dec_of_int :: "int \<Rightarrow> string" where
  "dec_of_int i = (if i < 0 then CHR ''-'' # dec_of_nat (nat (- i)) else dec_of_nat (nat i))"

text \<open>\<open>%0wd\<close> and \<open>%-ws\<close>.\<close>

definition pad_zero :: "nat \<Rightarrow> string \<Rightarrow> string" where
  "pad_zero w t = replicate (w - length t) (CHR ''0'') @ t"

definition pad_right :: "nat \<Rightarrow> string \<Rightarrow> string" where
  "pad_right w t = t @ replicate (w - length t) (CHR '' '')"

text \<open>What \<open>snprintf\<close> leaves in a buffer of \<open>n\<close> chars.\<close>

definition cut :: "nat \<Rightarrow> string \<Rightarrow> string" where
  "cut n t = take (n - 1) t"

section \<open>\<open>atoi\<close>\<close>

definition is_blank :: "char \<Rightarrow> bool" where
  "is_blank c \<longleftrightarrow> of_char c = (32 :: nat) \<or> of_char c \<in> {9 .. 13 :: nat}"

definition digits_value :: "string \<Rightarrow> nat" where
  "digits_value ds = foldl (\<lambda>v c. v * 10 + digit_value c) 0 ds"

definition unsigned_prefix :: "string \<Rightarrow> int" where
  "unsigned_prefix t = int (digits_value (takeWhile is_digit t))"

definition atoi :: "string \<Rightarrow> int" where
  "atoi t = (case dropWhile is_blank t of
       [] \<Rightarrow> 0
     | c # cs \<Rightarrow> if c = CHR ''-'' then - unsigned_prefix cs
                else if c = CHR ''+'' then unsigned_prefix cs
                else unsigned_prefix (c # cs))"

section \<open>Round trip\<close>

lemma of_char_digit: "d < 10 \<Longrightarrow> of_char (digit_char d) = 48 + d"
  by (simp add: digit_char_def)

lemma digit_char_facts:
  "d < 10 \<Longrightarrow> is_digit (digit_char d) \<and> digit_value (digit_char d) = d \<and> \<not> is_blank (digit_char d) \<and>
     digit_char d \<noteq> CHR ''-'' \<and> digit_char d \<noteq> CHR ''+''"
proof -
  assume d: "d < 10"
  have "digit_char d \<noteq> c" if "of_char c < (48 :: nat)" for c
    using of_char_digit [OF d] that by auto
  moreover have "of_char (CHR ''-'') < (48 :: nat)" "of_char (CHR ''+'') < (48 :: nat)"
    by simp_all
  ultimately show ?thesis
    using of_char_digit [OF d] d by (auto simp: is_digit_def digit_value_def is_blank_def)
qed

lemma dec_digits: "c \<in> set (dec_of_nat n) \<Longrightarrow> \<exists>d<10. c = digit_char d"
proof (induction n rule: dec_of_nat.induct)
  case (1 n)
  show ?case
  proof (cases "n < 10")
    case False
    with 1 show ?thesis
      by (subst (asm) (2) dec_of_nat.simps) (auto intro: exI [of _ "n mod 10"])
  qed (use 1(2) in \<open>auto simp: dec_of_nat.simps\<close>)
qed

lemma dec_nonempty: "dec_of_nat n \<noteq> []"
  by (subst dec_of_nat.simps) simp

lemma digits_value_dec: "digits_value (dec_of_nat n) = n"
proof (induction n rule: dec_of_nat.induct)
  case (1 n)
  show ?case
  proof (cases "n < 10")
    case True
    then show ?thesis
      by (subst dec_of_nat.simps) (simp add: digits_value_def digit_char_facts)
  next
    case False
    with 1 show ?thesis
      by (subst dec_of_nat.simps) (simp add: digits_value_def digit_char_facts)
  qed
qed

lemma unsigned_prefix_dec: "unsigned_prefix (dec_of_nat n) = int n"
proof -
  have "\<forall>c\<in>set (dec_of_nat n). is_digit c"
    using dec_digits digit_char_facts by blast
  then have e: "takeWhile is_digit (dec_of_nat n) = dec_of_nat n"
    by (simp add: takeWhile_eq_all_conv)
  show ?thesis unfolding unsigned_prefix_def e by (simp add: digits_value_dec)
qed

lemma atoi_dec: "atoi (dec_of_int i) = i"
proof (cases "i < 0")
  case True
  have "\<not> is_blank (CHR ''-'')" by (simp add: is_blank_def)
  with True show ?thesis by (simp add: atoi_def dec_of_int_def unsigned_prefix_dec)
next
  case False
  obtain c cs where c: "dec_of_nat (nat i) = c # cs"
    using dec_nonempty by (cases "dec_of_nat (nat i)") auto
  then obtain d where "d < 10" "c = digit_char d"
    using dec_digits [of c "nat i"] by auto
  with digit_char_facts have "\<not> is_blank c" "c \<noteq> CHR ''-''" "c \<noteq> CHR ''+''" by auto
  with False c unsigned_prefix_dec [of "nat i"] show ?thesis
    by (simp add: atoi_def dec_of_int_def)
qed

lemma dec_length: "n < 10 ^ k \<Longrightarrow> 0 < k \<Longrightarrow> length (dec_of_nat n) \<le> k"
proof (induction k arbitrary: n)
  case (Suc k)
  show ?case
  proof (cases "n < 10")
    case True
    then show ?thesis by (subst dec_of_nat.simps) simp
  next
    case False
    then have "0 < k" using Suc.prems by (cases k) auto
    moreover have "n div 10 < 10 ^ k" using Suc.prems by (simp add: less_mult_imp_div_less)
    ultimately have "length (dec_of_nat (n div 10)) \<le> k" by (rule Suc.IH [rotated])
    with False show ?thesis by (subst dec_of_nat.simps) simp
  qed
qed simp

end
