(* ===== verification/Hmp_Log.thy ===== *)
theory Hmp_Log
  imports Hmp_Text Hmp_State
begin

text \<open>
  \<open>src/hmp_log.c\<close>: one line of the log. The text of the message, \<open>vsnprintf\<close>'s product before
  it is cut to the buffer, and the broken-down time are parameters. (The gate in front of it,
  the macro \<open>hmp_log\<close>, is in \<open>Hmp_State\<close>.)
\<close>

section \<open>Model\<close>

definition MBUF_SIZE :: nat where
  "MBUF_SIZE = 2048"

definition FILEBUF_SIZE :: nat where
  "FILEBUF_SIZE = 270"

definition level_str :: "string list" where
  "level_str = [''ERROR'', ''WARN'', ''INFO'', ''DEBUG'', ''TRACE'']"

record tm =
  tm_year :: nat
  tm_mon :: nat
  tm_mday :: nat
  tm_hour :: nat
  tm_min :: nat
  tm_sec :: nat

text \<open>\<open>LOG_TIME_FMT\<close>, applied to the fields as \<open>hmp_log_impl\<close> passes them.\<close>

definition log_time :: "tm \<Rightarrow> nat \<Rightarrow> string" where
  "log_time t usec =
     pad_zero 4 (dec_of_nat (tm_year t + 1900)) @ ''/'' @ pad_zero 2 (dec_of_nat (tm_mon t + 1)) @ ''/'' @
     pad_zero 2 (dec_of_nat (tm_mday t)) @ ''-'' @ pad_zero 2 (dec_of_nat (tm_hour t)) @ '':'' @
     pad_zero 2 (dec_of_nat (tm_min t)) @ '':'' @ pad_zero 2 (dec_of_nat (tm_sec t)) @ ''.'' @
     pad_zero 5 (dec_of_nat usec)"

text \<open>\<open>strrchr(file, '/')\<close> and what follows it.\<close>

definition short_filename :: "string \<Rightarrow> string" where
  "short_filename file = rev (takeWhile (\<lambda>c. c \<noteq> CHR ''/'') (rev file))"

text \<open>
  The message buffer. \<open>vsnprintf\<close> writes at most \<open>MBUF_SIZE - 1\<close> chars and a NUL, and returns
  the length of the whole text, at which the next statement writes another NUL; an index
  outside the buffer is a fault.
\<close>

definition fill_mbuf :: "string \<Rightarrow> string option" where
  "fill_mbuf text = (let
     mbuf = cut MBUF_SIZE text;
     mlength = length text
     in if mlength < MBUF_SIZE then Some (take mlength mbuf) else None)"

definition hmp_log_impl ::
  "tm \<Rightarrow> nat \<Rightarrow> string \<Rightarrow> nat \<Rightarrow> nat \<Rightarrow> string \<Rightarrow> string option" where
  "hmp_log_impl now usec file line log_level text = do {
     mbuf \<leftarrow> fill_mbuf text;
     let filebuf = cut FILEBUF_SIZE (short_filename file @ '':'' @ dec_of_nat line);
     level \<leftarrow> (if log_level < length level_str then Some (level_str ! log_level) else None);
     Some (''['' @ log_time now usec @ ''] '' @ pad_right 28 filebuf @ '' ['' @ pad_right 5 level @
       ''] - '' @ mbuf @ [CHR 0x0A]) }"

section \<open>Properties\<close>

lemma short_filename_no_slash: "CHR ''/'' \<notin> set (short_filename f)"
  unfolding short_filename_def by (metis set_rev set_takeWhileD)

lemma short_filename_suffix:
  "\<exists>d. f = d @ short_filename f \<and> (d = [] \<or> (\<exists>e. d = e @ ''/''))"
proof -
  let ?p = "\<lambda>c. c \<noteq> CHR ''/''"
  have f: "f = rev (dropWhile ?p (rev f)) @ short_filename f"
    unfolding short_filename_def by (metis rev_append rev_rev_ident takeWhile_dropWhile_id)
  show ?thesis
  proof (cases "dropWhile ?p (rev f)")
    case Nil
    with f show ?thesis by auto
  next
    case (Cons c cs)
    then have "c = CHR ''/''" using hd_dropWhile [of ?p "rev f"] by simp
    with Cons f show ?thesis by (intro exI [of _ "rev (c # cs)"]) auto
  qed
qed

lemma pad_right_length: "length (pad_right w t) = max w (length t)"
  by (simp add: pad_right_def)

lemma pad_zero_length: "length (pad_zero w t) = max w (length t)"
  by (simp add: pad_zero_def)

text \<open>A time whose fields are in their ranges.\<close>

definition tm_ok :: "tm \<Rightarrow> bool" where
  "tm_ok t \<longleftrightarrow> tm_year t + 1900 < 10000 \<and> tm_mon t < 12 \<and> tm_mday t < 32 \<and> tm_hour t < 24 \<and>
     tm_min t < 60 \<and> tm_sec t < 61"

lemma pad_zero_dec_length: "n < 10 ^ w \<Longrightarrow> 0 < w \<Longrightarrow> length (pad_zero w (dec_of_nat n)) = w"
  using dec_length [of n w] by (simp add: pad_zero_length)

lemma log_time_length:
  assumes "tm_ok t" "usec < 100000"
  shows "length (log_time t usec) = 25"
  using assms unfolding tm_ok_def log_time_def
  by (simp add: pad_zero_dec_length)


definition sample_tm :: tm where
  "sample_tm = \<lparr>tm_year = 119, tm_mon = 0, tm_mday = 8, tm_hour = 9, tm_min = 5, tm_sec = 7\<rparr>"

lemma sample_line:
  "''['' @ log_time sample_tm 42 @ ''] '' @
     pad_right 28 (cut 270 (short_filename ''src/a.c'' @ '':'' @ dec_of_nat 31)) @
     '' ['' @ pad_right 5 (level_str ! 2) @ ''] - '' @ ''x'' @ [CHR 0x0A] =
   ''[2019/01/08-09:05:07.00042] a.c:31                       [INFO ] - x'' @ [CHR 0x0A]"
  by code_simp


end
