(* ===== verification/Hmp_Config.thy ===== *)
theory Hmp_Config
  imports Hmp_Text Hmp_State
begin

text \<open>
  \<open>src/hmp_config.c\<close>: the nodes of the pool are read from \<open>config.xml\<close>, and the node this
  process is on is found by the address of its InfiniBand interface. The parsed document is
  libxml's: a parameter gives the tree of a file and the text of a list of nodes. The
  interfaces of the machine are a parameter too.
\<close>

section \<open>The document and the machine\<close>

text \<open>The fields of \<open>xmlNode\<close> the program reads, and the content, which libxml reads for it; \<open>next\<close> is the position in the list of children.\<close>

datatype xml_node =
  Xml_node (xml_name: string) (xml_children: "xml_node list") (xml_content: string)

text \<open>A parsed document is its root element, if it has one.\<close>

type_synonym xml_doc = "xml_node option"

record xml_lib =
  parse_file :: "string \<Rightarrow> xml_doc option"
  list_string :: "xml_node list \<Rightarrow> string option"

record ifreq =
  ifr_name :: string
  ifr_flags :: "16 word"
  ifr_addr :: "32 word"

definition IFF_UP :: "16 word" where
  "IFF_UP = 1"

definition IFF_LOOPBACK :: "16 word" where
  "IFF_LOOPBACK = 8"

definition HMP_CONFIG_FILE :: string where
  "HMP_CONFIG_FILE = ''config.xml''"

definition HMP_NODES_INFO_STR :: string where
  "HMP_NODES_INFO_STR = ''nodes_info''"

definition HMP_NODE_STR :: string where
  "HMP_NODE_STR = ''node''"

definition HMP_ADDR_STR :: string where
  "HMP_ADDR_STR = ''addr''"

definition HMP_PORT_STR :: string where
  "HMP_PORT_STR = ''port''"

definition HMP_IB_DEVICE :: string where
  "HMP_IB_DEVICE = ''ib0''"

section \<open>Parsing\<close>

text \<open>The loop that logs the address and the port of every node.\<close>

fun print_nodes :: "hmp_config \<Rightarrow> nat \<Rightarrow> nat \<Rightarrow> sys \<Rightarrow> sys option" where
  "print_nodes c i 0 s = Some s"
| "print_nodes c i (Suc n) s =
     (if i < HMP_NODE_NUM
      then print_nodes c (Suc i) n (INFO_LOG ''port %d'' (INFO_LOG ''addr %s'' s))
      else None)"

definition hmr_print_nodes_info :: "hmp_config \<Rightarrow> sys \<Rightarrow> sys option" where
  "hmr_print_nodes_info c s = print_nodes c 0 (nat (node_cnt c)) s"

text \<open>
  The copy of \<open>strlen + 1\<close> bytes into \<open>addr\<close>, an array of 18: a longer text or an index past
  the table writes outside it.
\<close>

definition set_addr :: "int \<Rightarrow> string \<Rightarrow> hmp_config \<Rightarrow> hmp_config option" where
  "set_addr index val cfg =
     (if length val + 1 \<le> HMP_ADDR_LEN then upd_info (\<lambda>i. i\<lparr>ni_addr := val\<rparr>) index cfg else None)"

definition set_port :: "int \<Rightarrow> string \<Rightarrow> hmp_config \<Rightarrow> hmp_config option" where
  "set_port index val cfg = upd_info (\<lambda>i. i\<lparr>ni_port := atoi val\<rparr>) index cfg"

text \<open>One child: its text is fetched, used and freed when its name is the given one.\<close>

definition use_text :: "xml_lib \<Rightarrow> string \<Rightarrow> (string \<Rightarrow> hmp_config \<Rightarrow> hmp_config option) \<Rightarrow>
    xml_node \<Rightarrow> hmp_config \<times> sys \<Rightarrow> (hmp_config \<times> sys) option" where
  "use_text X name f n cs = (case cs of (cfg, s) \<Rightarrow>
     if xml_name n = name then do {
       let s = record_call (Os Xml_get_string) s;
       val \<leftarrow> list_string X (xml_children n);
       cfg \<leftarrow> f val cfg;
       Some (cfg, record_call (Os Xml_free) s) }
     else Some (cfg, s))"

fun parse_children :: "xml_lib \<Rightarrow> int \<Rightarrow> xml_node list \<Rightarrow> hmp_config \<times> sys \<Rightarrow> (hmp_config \<times> sys) option" where
  "parse_children X index [] cs = Some cs"
| "parse_children X index (n # ns) cs = do {
     cs \<leftarrow> use_text X HMP_ADDR_STR (set_addr index) n cs;
     cs \<leftarrow> use_text X HMP_PORT_STR (set_port index) n cs;
     parse_children X index ns cs }"

definition hmp_parse_node :: "xml_lib \<Rightarrow> int \<Rightarrow> xml_node \<Rightarrow> hmp_config \<times> sys \<Rightarrow> (hmp_config \<times> sys) option" where
  "hmp_parse_node X index n cs = parse_children X index (xml_children n) cs"

text \<open>The loop over the children of the root.\<close>

fun parse_nodes :: "xml_lib \<Rightarrow> int \<Rightarrow> xml_node list \<Rightarrow> hmp_config \<times> sys \<Rightarrow> (hmp_config \<times> sys) option" where
  "parse_nodes X index [] cs = Some cs"
| "parse_nodes X index (n # ns) cs =
     (if xml_name n = HMP_NODE_STR then do {
        (cfg, s) \<leftarrow> hmp_parse_node X index n cs;
        parse_nodes X (index + 1) ns (cfg\<lparr>node_cnt := node_cnt cfg + 1\<rparr>, s) }
      else parse_nodes X index ns cs)"

section \<open>The current node\<close>

definition is_ib_device :: "ifreq \<Rightarrow> bool" where
  "is_ib_device r \<longleftrightarrow> ifr_flags r AND IFF_LOOPBACK = 0 \<and> ifr_flags r AND IFF_UP \<noteq> 0 \<and>
     ifr_name r = HMP_IB_DEVICE"

text \<open>The first interface that qualifies; its flags are asked for one by one.\<close>

fun find_device :: "int \<Rightarrow> ifreq list \<Rightarrow> sys \<Rightarrow> ifreq option \<times> sys" where
  "find_device fd [] s = (None, s)"
| "find_device fd (r # rs) s = (let s = record_call (Os (Siocgifflags fd (ifr_name r))) s in
     if is_ib_device r then (Some r, INFO_LOG ''%s %s'' s) else find_device fd rs s)"

text \<open>The first node with the address, from index \<open>i\<close> on.\<close>

fun find_node :: "hmp_config \<Rightarrow> string \<Rightarrow> nat \<Rightarrow> nat \<Rightarrow> int option option" where
  "find_node c a i 0 = Some None"
| "find_node c a i (Suc n) =
     (if i < HMP_NODE_NUM
      then (if ni_addr (node_infos c ! i) = a then Some (Some (int i)) else find_node c a (Suc i) n)
      else None)"

definition no_rdma_device :: "hmp_config \<Rightarrow> sys \<Rightarrow> (halt + unit) \<times> hmp_config \<times> sys" where
  "no_rdma_device cfg s = (Inl (Exited (- 1)), cfg,
     ERROR_LOG ''don't have rdma device or config.xml exist error.'' s)"

definition hmp_set_curnode_id ::
  "env \<Rightarrow> ifreq list \<Rightarrow> hmp_config \<Rightarrow> sys \<Rightarrow> ((halt + unit) \<times> hmp_config \<times> sys) option" where
  "hmp_set_curnode_id E ifs cfg s = (let
     (fd, s) = int_call E (Os Socket_dgram) s;
     s = record_call (Os (Siocgifconf fd)) s;
     (dev, s) = find_device fd ifs s
     in case dev of
       None \<Rightarrow> Some (no_rdma_device cfg s)
     | Some r \<Rightarrow> do {
         found \<leftarrow> find_node cfg (e_ntoa E (ifr_addr r)) 0 (nat (node_cnt cfg));
         case found of
           Some i \<Rightarrow> Some (Inr (), cfg\<lparr>curnode_id := i\<rparr>, INFO_LOG ''curnode id %d'' s)
         | None \<Rightarrow> Some (no_rdma_device cfg s) })"

section \<open>\<open>hmp_config_init\<close>\<close>

definition cleandoc :: "hmp_config \<Rightarrow> sys \<Rightarrow> ((halt + int) \<times> hmp_config \<times> sys) option" where
  "cleandoc cfg s = Some (Inr (- 1), cfg, record_call (Os Xml_free_doc) s)"

definition hmp_config_init ::
  "env \<Rightarrow> xml_lib \<Rightarrow> ifreq list \<Rightarrow> hmp_config \<Rightarrow> sys \<Rightarrow> ((halt + int) \<times> hmp_config \<times> sys) option" where
  "hmp_config_init E X ifs cfg s = (let s = record_call (Os (Xml_parse_file HMP_CONFIG_FILE)) s in
     case parse_file X HMP_CONFIG_FILE of
       None \<Rightarrow> Some (Inr (- 1), cfg, ERROR_LOG ''xml parse file error.'' s)
     | Some doc \<Rightarrow> (case doc of
         None \<Rightarrow> cleandoc cfg (ERROR_LOG ''xml doc get root element error.'' s)
       | Some root \<Rightarrow>
           if xml_name root \<noteq> HMP_NODES_INFO_STR
           then cleandoc cfg (ERROR_LOG ''xml root node is not nodes_info.'' s)
           else do {
             let cfg = cfg\<lparr>node_cnt := 0, curnode_id := - 1\<rparr>;
             (cfg, s) \<leftarrow> parse_nodes X 0 (xml_children root) (cfg, s);
             s \<leftarrow> hmr_print_nodes_info cfg s;
             let s = record_call (Os Xml_free_doc) s;
             (r, cfg, s) \<leftarrow> hmp_set_curnode_id E ifs cfg s;
             case r of
               Inl h \<Rightarrow> Some (Inl h, cfg, s)
             | Inr _ \<Rightarrow> Some (Inr 0, cfg, s) }))"

end
