(* ===== verification/Hmp_Config_Props.thy ===== *)
theory Hmp_Config_Props
  imports Hmp_Config Hmp_Sample
begin

text \<open>The properties of the configuration: what is read from a document, and where it may fail.\<close>

section \<open>One node\<close>

text \<open>What the children of a node make of its entry.\<close>

definition apply_child :: "xml_lib \<Rightarrow> xml_node \<Rightarrow> hmp_node_info \<Rightarrow> hmp_node_info" where
  "apply_child X n i = (let t = the (list_string X (xml_children n)) in
     if xml_name n = HMP_ADDR_STR then i\<lparr>ni_addr := t\<rparr>
     else if xml_name n = HMP_PORT_STR then i\<lparr>ni_port := atoi t\<rparr> else i)"

definition child_ok :: "xml_lib \<Rightarrow> xml_node \<Rightarrow> bool" where
  "child_ok X n \<longleftrightarrow>
     (xml_name n = HMP_ADDR_STR \<longrightarrow> (\<exists>t. list_string X (xml_children n) = Some t \<and> length t < HMP_ADDR_LEN)) \<and>
     (xml_name n = HMP_PORT_STR \<longrightarrow> list_string X (xml_children n) \<noteq> None)"

text \<open>Strings obtained and freed, and documents freed.\<close>

definition text_balance :: "sys \<Rightarrow> int" where
  "text_balance s = int (count_list (calls s) (Os Xml_get_string)) - int (count_list (calls s) (Os Xml_free))"

definition docs_freed :: "sys \<Rightarrow> nat" where
  "docs_freed s = count_list (calls s) (Os Xml_free_doc)"

lemma balance_steps [simp]:
  "text_balance (INFO_LOG m s) = text_balance s" "docs_freed (INFO_LOG m s) = docs_freed s"
  "text_balance (ERROR_LOG m s) = text_balance s" "docs_freed (ERROR_LOG m s) = docs_freed s"
  "text_balance (record_call c s) = text_balance s +
     (if c = Os Xml_get_string then 1 else if c = Os Xml_free then - 1 else 0)"
  "docs_freed (record_call c s) = docs_freed s + (if c = Os Xml_free_doc then 1 else 0)"
  by (simp_all add: text_balance_def docs_freed_def)

lemma str_names: "HMP_ADDR_STR \<noteq> HMP_PORT_STR"
  by (simp add: HMP_ADDR_STR_def HMP_PORT_STR_def)

lemma upd_info_eq:
  "in_nodes i \<Longrightarrow> upd_info f i c = Some (c\<lparr>node_infos := (node_infos c)[nat i := f (node_infos c ! nat i)]\<rparr>)"
  by (simp add: upd_info_def)

lemma parse_children_eq:
  assumes "in_nodes index" "\<forall>n\<in>set ns. child_ok X n" "length (node_infos c) = HMP_NODE_NUM"
  shows "\<exists>s'. parse_children X index ns (c, s) =
    Some (c\<lparr>node_infos := (node_infos c)[nat index := fold (apply_child X) ns (node_infos c ! nat index)]\<rparr>, s')"
  using assms(2, 3)
proof (induction ns arbitrary: c s)
  case (Cons n ns)
  have i: "nat index < length (node_infos c)"
    using assms(1) Cons.prems(2) by (auto simp: in_nodes_def)
  have one: "\<exists>s'. (do { cs \<leftarrow> use_text X HMP_ADDR_STR (set_addr index) n (c, s);
      use_text X HMP_PORT_STR (set_port index) n cs }) =
    Some (c\<lparr>node_infos := (node_infos c)[nat index := apply_child X n (node_infos c ! nat index)]\<rparr>, s')"
    using Cons.prems(1) str_names i
    by (auto simp: use_text_def child_ok_def set_addr_def set_port_def upd_info_eq [OF assms(1)]
        apply_child_def Let_def)
  then obtain s1 where s1: "(do { cs \<leftarrow> use_text X HMP_ADDR_STR (set_addr index) n (c, s);
      use_text X HMP_PORT_STR (set_port index) n cs }) =
    Some (c\<lparr>node_infos := (node_infos c)[nat index := apply_child X n (node_infos c ! nat index)]\<rparr>, s1)" ..
  let ?c = "c\<lparr>node_infos := (node_infos c)[nat index := apply_child X n (node_infos c ! nat index)]\<rparr>"
  have "\<exists>s'. parse_children X index ns (?c, s1) = Some (?c\<lparr>node_infos := (node_infos ?c)
      [nat index := fold (apply_child X) ns (node_infos ?c ! nat index)]\<rparr>, s')"
    by (rule Cons.IH) (use Cons.prems in auto)
  with s1 i show ?case by (auto simp: Option.bind_eq_Some_conv)
qed (use assms in auto)

text \<open>A node with one address and one port.\<close>

definition node_says :: "xml_lib \<Rightarrow> xml_node \<Rightarrow> string \<Rightarrow> int \<Rightarrow> bool" where
  "node_says X n a p \<longleftrightarrow> (\<exists>na np t.
     filter (\<lambda>c. xml_name c = HMP_ADDR_STR) (xml_children n) = [na] \<and>
     filter (\<lambda>c. xml_name c = HMP_PORT_STR) (xml_children n) = [np] \<and>
     list_string X (xml_children na) = Some a \<and> list_string X (xml_children np) = Some t \<and> atoi t = p)"

lemma fold_apply_child:
  "ni_addr (fold (apply_child X) ns i) =
     (case rev (filter (\<lambda>c. xml_name c = HMP_ADDR_STR) ns) of [] \<Rightarrow> ni_addr i
      | n # _ \<Rightarrow> the (list_string X (xml_children n))) \<and>
   ni_port (fold (apply_child X) ns i) =
     (case rev (filter (\<lambda>c. xml_name c = HMP_PORT_STR) ns) of [] \<Rightarrow> ni_port i
      | n # _ \<Rightarrow> atoi (the (list_string X (xml_children n))))"
  using str_names
  by (induction ns rule: rev_induct) (auto simp: apply_child_def Let_def)

lemma node_says_fold:
  "node_says X n a p \<Longrightarrow> ni_addr (fold (apply_child X) (xml_children n) i) = a \<and>
     ni_port (fold (apply_child X) (xml_children n) i) = p"
  using fold_apply_child [of X "xml_children n" i] by (auto simp: node_says_def)

lemma node_says_ok:
  assumes "node_says X n a p" "length a < HMP_ADDR_LEN" "c \<in> set (xml_children n)"
  shows "child_ok X c"
proof -
  from assms(1) obtain na np t where
    f: "filter (\<lambda>c. xml_name c = HMP_ADDR_STR) (xml_children n) = [na]"
       "filter (\<lambda>c. xml_name c = HMP_PORT_STR) (xml_children n) = [np]"
       "list_string X (xml_children na) = Some a" "list_string X (xml_children np) = Some t"
    by (auto simp: node_says_def)
  have "xml_name c = HMP_ADDR_STR \<Longrightarrow> c \<in> set (filter (\<lambda>c. xml_name c = HMP_ADDR_STR) (xml_children n))"
    "xml_name c = HMP_PORT_STR \<Longrightarrow> c \<in> set (filter (\<lambda>c. xml_name c = HMP_PORT_STR) (xml_children n))"
    using assms(3) by simp_all
  then have "xml_name c = HMP_ADDR_STR \<Longrightarrow> c = na" "xml_name c = HMP_PORT_STR \<Longrightarrow> c = np"
    unfolding f(1, 2) by simp_all
  with f(3, 4) assms(2) show ?thesis by (auto simp: child_ok_def)
qed

section \<open>All the nodes\<close>

lemma parse_nodes_eq:
  assumes "list_all2 (\<lambda>n e. node_says X n (fst e) (snd e)) (filter (\<lambda>n. xml_name n = HMP_NODE_STR) ns) es"
    and "\<forall>e\<in>set es. length (fst e) < HMP_ADDR_LEN" and "k + length es \<le> HMP_NODE_NUM"
    and "length (node_infos c) = HMP_NODE_NUM"
  shows "\<exists>c' s'. parse_nodes X (int k) ns (c, s) = Some (c', s') \<and> length (node_infos c') = HMP_NODE_NUM \<and>
    node_cnt c' = node_cnt c + int (length es) \<and> curnode_id c' = curnode_id c \<and>
    (\<forall>i<length es. ni_addr (node_infos c' ! (k + i)) = fst (es ! i) \<and>
       ni_port (node_infos c' ! (k + i)) = snd (es ! i)) \<and>
    (\<forall>i. i < k \<or> k + length es \<le> i \<longrightarrow> node_infos c' ! i = node_infos c ! i)"
  using assms
proof (induction ns arbitrary: k es c s)
  case (Cons n ns)
  show ?case
  proof (cases "xml_name n = HMP_NODE_STR")
    case False
    with Cons show ?thesis by simp
  next
    case True
    with Cons.prems(1) obtain e es' where es: "es = e # es'" and e: "node_says X n (fst e) (snd e)"
      and rest: "list_all2 (\<lambda>n e. node_says X n (fst e) (snd e)) (filter (\<lambda>n. xml_name n = HMP_NODE_STR) ns) es'"
      by (auto simp: list_all2_Cons1)
    let ?c = "c\<lparr>node_infos := (node_infos c)[k := fold (apply_child X) (xml_children n) (node_infos c ! k)]\<rparr>"
    have k: "in_nodes (int k)" "k < HMP_NODE_NUM" using Cons.prems(3) es by (auto simp: in_nodes_def)
    have "\<forall>c\<in>set (xml_children n). child_ok X c"
      using node_says_ok [OF e] Cons.prems(2) es by auto
    from parse_children_eq [OF k(1) this Cons.prems(4)] obtain s1 where
      s1: "hmp_parse_node X (int k) n (c, s) = Some (?c, s1)"
      unfolding hmp_parse_node_def by auto
    let ?c1 = "?c\<lparr>node_cnt := node_cnt ?c + 1\<rparr>"
    have "\<exists>c' s'. parse_nodes X (int (Suc k)) ns (?c1, s1) = Some (c', s') \<and>
      length (node_infos c') = HMP_NODE_NUM \<and>
      node_cnt c' = node_cnt ?c1 + int (length es') \<and> curnode_id c' = curnode_id ?c1 \<and>
      (\<forall>i<length es'. ni_addr (node_infos c' ! (Suc k + i)) = fst (es' ! i) \<and>
         ni_port (node_infos c' ! (Suc k + i)) = snd (es' ! i)) \<and>
      (\<forall>i. i < Suc k \<or> Suc k + length es' \<le> i \<longrightarrow> node_infos c' ! i = node_infos ?c1 ! i)"
      by (rule Cons.IH [OF rest]) (use Cons.prems es in auto)
    then obtain c' s' where c': "parse_nodes X (int (Suc k)) ns (?c1, s1) = Some (c', s')"
      "length (node_infos c') = HMP_NODE_NUM"
      "node_cnt c' = node_cnt ?c1 + int (length es')" "curnode_id c' = curnode_id ?c1"
      "\<And>i. i < length es' \<Longrightarrow> ni_addr (node_infos c' ! (Suc k + i)) = fst (es' ! i) \<and>
         ni_port (node_infos c' ! (Suc k + i)) = snd (es' ! i)"
      "\<And>i. i < Suc k \<or> Suc k + length es' \<le> i \<Longrightarrow> node_infos c' ! i = node_infos ?c1 ! i" by blast
    have run: "parse_nodes X (int k) (n # ns) (c, s) = Some (c', s')"
      using True s1 c'(1) by (simp add: add.commute)
    have entries: "ni_addr (node_infos c' ! (k + i)) = fst (es ! i) \<and>
       ni_port (node_infos c' ! (k + i)) = snd (es ! i)" if "i < length es" for i
    proof (cases i)
      case 0
      with c'(6) [of k] node_says_fold [OF e] es k(2) Cons.prems(4) show ?thesis by simp
    next
      case (Suc j)
      with c'(5) [of j] es that show ?thesis by simp
    qed
    have others: "node_infos c' ! i = node_infos c ! i" if "i < k \<or> k + length es \<le> i" for i
      using c'(6) [of i] that es by auto
    show ?thesis
      using run c'(2-4) entries others es by auto
  qed
qed simp

lemma print_nodes_eq:
  "i + n \<le> HMP_NODE_NUM \<Longrightarrow> \<exists>s'. print_nodes c i n s = Some s'"
  by (induction n arbitrary: i s) auto

lemma find_node_eq:
  "i + n \<le> HMP_NODE_NUM \<Longrightarrow> find_node c a i n =
     Some (case filter (\<lambda>j. ni_addr (node_infos c ! j) = a) [i..<i + n] of [] \<Rightarrow> None | j # _ \<Rightarrow> Some (int j))"
proof (induction n arbitrary: i)
  case (Suc n)
  have "[i..<i + Suc n] = i # [Suc i..<Suc i + n]" by (simp add: upt_conv_Cons)
  with Suc show ?case by simp
qed simp

lemma find_device_eq: "fst (find_device fd rs s) = (case filter is_ib_device rs of [] \<Rightarrow> None | r # _ \<Rightarrow> Some r)"
  by (induction rs arbitrary: s) (auto simp: Let_def)


section \<open>The whole configuration\<close>

text \<open>The node with the address of the machine's InfiniBand interface, if there is one.\<close>

definition own_node :: "env \<Rightarrow> ifreq list \<Rightarrow> string list \<Rightarrow> int option" where
  "own_node E ifs as = (case filter is_ib_device ifs of [] \<Rightarrow> None
     | r # _ \<Rightarrow> (case filter (\<lambda>j. as ! j = e_ntoa E (ifr_addr r)) [0..<length as] of
         [] \<Rightarrow> None | j # _ \<Rightarrow> Some (int j)))"

lemma set_curnode_id_eq:
  assumes "nat (node_cnt c) \<le> HMP_NODE_NUM"
  shows "\<exists>s'. hmp_set_curnode_id E ifs c s =
    Some (case own_node E ifs (map (\<lambda>j. ni_addr (node_infos c ! j)) [0..<nat (node_cnt c)]) of
      None \<Rightarrow> (Inl (Exited (- 1)), c, s') | Some i \<Rightarrow> (Inr (), c\<lparr>curnode_id := i\<rparr>, s'))"
proof -
  let ?as = "map (\<lambda>j. ni_addr (node_infos c ! j)) [0..<nat (node_cnt c)]"
  obtain fd s0 where s0: "int_call E (Os Socket_dgram) s = (fd, s0)" by (cases "int_call E (Os Socket_dgram) s")
  obtain s1 where d: "find_device fd ifs (record_call (Os (Siocgifconf fd)) s0) =
      (case filter is_ib_device ifs of [] \<Rightarrow> None | r # _ \<Rightarrow> Some r, s1)"
    using find_device_eq by (metis prod.collapse)
  have f: "filter (\<lambda>j. ?as ! j = a) [0..<length ?as] =
      filter (\<lambda>j. ni_addr (node_infos c ! j) = a) [0..<nat (node_cnt c)]" for a
    by (auto intro: filter_cong)
  have n: "find_node c a 0 (nat (node_cnt c)) = Some
      (case filter (\<lambda>j. ni_addr (node_infos c ! j) = a) [0..<nat (node_cnt c)] of
        [] \<Rightarrow> None | j # _ \<Rightarrow> Some (int j))" for a
    using find_node_eq [of 0 "nat (node_cnt c)" c a] assms by simp
  show ?thesis
    unfolding hmp_set_curnode_id_def own_node_def f using s0 d
    by (auto simp: Let_def n no_rdma_device_def split: list.splits)
qed

text \<open>The whole call.\<close>

lemma config_init_reads:
  assumes doc: "parse_file X HMP_CONFIG_FILE = Some (Some root)" "xml_name root = HMP_NODES_INFO_STR"
    and says: "list_all2 (\<lambda>n e. node_says X n (fst e) (snd e))
      (filter (\<lambda>n. xml_name n = HMP_NODE_STR) (xml_children root)) es"
    and small: "\<forall>e\<in>set es. length (fst e) < HMP_ADDR_LEN" "length es \<le> HMP_NODE_NUM"
    and c: "length (node_infos c) = HMP_NODE_NUM"
  shows "\<exists>r c' s'. hmp_config_init E X ifs c s = Some (r, c', s') \<and>
    node_cnt c' = int (length es) \<and> length (node_infos c') = HMP_NODE_NUM \<and>
    (\<forall>i<length es. ni_addr (node_infos c' ! i) = fst (es ! i) \<and> ni_port (node_infos c' ! i) = snd (es ! i)) \<and>
    (\<forall>i\<ge>length es. node_infos c' ! i = node_infos c ! i) \<and>
    (case own_node E ifs (map fst es) of
       None \<Rightarrow> r = Inl (Exited (- 1)) \<and> curnode_id c' = - 1
     | Some i \<Rightarrow> r = Inr 0 \<and> curnode_id c' = i)"
proof -
  let ?c = "c\<lparr>node_cnt := 0, curnode_id := - 1\<rparr>"
  let ?s = "record_call (Os (Xml_parse_file HMP_CONFIG_FILE)) s"
  have "\<exists>c' s'. parse_nodes X (int 0) (xml_children root) (?c, ?s) = Some (c', s') \<and>
    length (node_infos c') = HMP_NODE_NUM \<and>
    node_cnt c' = node_cnt ?c + int (length es) \<and> curnode_id c' = curnode_id ?c \<and>
    (\<forall>i<length es. ni_addr (node_infos c' ! (0 + i)) = fst (es ! i) \<and>
       ni_port (node_infos c' ! (0 + i)) = snd (es ! i)) \<and>
    (\<forall>i. i < 0 \<or> 0 + length es \<le> i \<longrightarrow> node_infos c' ! i = node_infos ?c ! i)"
    by (rule parse_nodes_eq [OF says]) (use small c in auto)
  then obtain c1 s1 where p: "parse_nodes X 0 (xml_children root) (?c, ?s) = Some (c1, s1)"
    and l: "length (node_infos c1) = HMP_NODE_NUM" and n: "node_cnt c1 = int (length es)"
    and id: "curnode_id c1 = - 1"
    and e: "\<And>i. i < length es \<Longrightarrow> ni_addr (node_infos c1 ! i) = fst (es ! i) \<and> ni_port (node_infos c1 ! i) = snd (es ! i)"
    and o: "\<And>i. length es \<le> i \<Longrightarrow> node_infos c1 ! i = node_infos c ! i" by auto
  obtain s2 where pr: "hmr_print_nodes_info c1 s1 = Some s2"
    using print_nodes_eq [of 0 "length es" c1 s1] small(2) n by (auto simp: hmr_print_nodes_info_def)
  have as: "map (\<lambda>j. ni_addr (node_infos c1 ! j)) [0..<nat (node_cnt c1)] = map fst es"
    using e n by (intro nth_equalityI) auto
  have cnt: "nat (node_cnt c1) \<le> HMP_NODE_NUM" using n small(2) by simp
  obtain s3 where cid: "hmp_set_curnode_id E ifs c1 (record_call (Os Xml_free_doc) s2) =
    Some (case own_node E ifs (map fst es) of
      None \<Rightarrow> (Inl (Exited (- 1)), c1, s3) | Some i \<Rightarrow> (Inr (), c1\<lparr>curnode_id := i\<rparr>, s3))"
    using set_curnode_id_eq [OF cnt, of E ifs] unfolding as by metis
  show ?thesis
    unfolding hmp_config_init_def Let_def using doc p pr cid l n id e o
    by (cases "own_node E ifs (map fst es)") auto
qed

text \<open>
  C1. For a document whose root holds at most eight nodes, each with one address of at most 17
  chars and one port, the configuration read is exactly the document's list of nodes, in
  order, the entries past it untouched. The call returns 0 with the number of the first
  node that has the address of the InfiniBand interface, and exits the process with -1 when
  there is no such interface or no such node.
\<close>

theorem config_init_correct:
  assumes doc: "parse_file X HMP_CONFIG_FILE = Some (Some root)" "xml_name root = HMP_NODES_INFO_STR"
    and says: "list_all2 (\<lambda>n e. node_says X n (fst e) (snd e))
      (filter (\<lambda>n. xml_name n = HMP_NODE_STR) (xml_children root)) es"
    and small: "\<forall>e\<in>set es. length (fst e) < HMP_ADDR_LEN" "length es \<le> HMP_NODE_NUM"
    and c: "length (node_infos c) = HMP_NODE_NUM"
  shows "\<exists>r c' s'. hmp_config_init E X ifs c s = Some (r, c', s') \<and>
    node_cnt c' = int (length es) \<and> length (node_infos c') = HMP_NODE_NUM \<and>
    (\<forall>i<length es. ni_addr (node_infos c' ! i) = fst (es ! i) \<and> ni_port (node_infos c' ! i) = snd (es ! i)) \<and>
    (\<forall>i\<ge>length es. node_infos c' ! i = node_infos c ! i) \<and>
    (case own_node E ifs (map fst es) of
       None \<Rightarrow> r = Inl (Exited (- 1)) \<and> curnode_id c' = - 1
     | Some i \<Rightarrow> r = Inr 0 \<and> curnode_id c' = i)"
  by (rule config_init_reads [OF assms])

text \<open>A document with two nodes, and a machine at the second.\<close>

definition leaf :: "string \<Rightarrow> string \<Rightarrow> xml_node" where
  "leaf name t = Xml_node name [Xml_node ''text'' [] t] []"

definition sample_doc :: xml_node where
  "sample_doc = Xml_node ''nodes_info'' [
     Xml_node ''text'' [] '' '',
     Xml_node ''node'' [leaf ''addr'' ''192.168.31.182'', leaf ''port'' ''2345''] [],
     Xml_node ''node'' [leaf ''addr'' ''192.168.31.183'', leaf ''port'' ''2345''] []] []"

definition sample_xml :: xml_lib where
  "sample_xml = \<lparr>parse_file = (\<lambda>f. Some (Some sample_doc)),
     list_string = (\<lambda>ns. Some (concat (map xml_content ns)))\<rparr>"

definition sample_if :: ifreq where
  "sample_if = \<lparr>ifr_name = ''ib0'', ifr_flags = 1, ifr_addr = 7\<rparr>"

definition second_host :: env where
  "second_host = sample_env\<lparr>e_ntoa := (\<lambda>a. ''192.168.31.183'')\<rparr>"

lemma sample_node_says:
  "node_says sample_xml (Xml_node ''node'' [leaf ''addr'' a, leaf ''port'' ''2345''] []) a 2345"
proof -
  have "atoi ''2345'' = 2345" by code_simp
  then show ?thesis
    by (simp add: node_says_def leaf_def sample_xml_def HMP_ADDR_STR_def HMP_PORT_STR_def)
qed

theorem config_init_correct_witness:
  "\<exists>c' s'. hmp_config_init second_host sample_xml [sample_if] (config sample_node) sample_sys =
      Some (Inr 0, c', s') \<and> node_cnt c' = 2 \<and> curnode_id c' = 1 \<and>
    ni_addr (node_infos c' ! 0) = ''192.168.31.182'' \<and> ni_port (node_infos c' ! 1) = 2345"
proof -
  let ?es = "[(''192.168.31.182'', 2345), (''192.168.31.183'', 2345 :: int)]"
  have says: "list_all2 (\<lambda>n e. node_says sample_xml n (fst e) (snd e))
      (filter (\<lambda>n. xml_name n = HMP_NODE_STR) (xml_children sample_doc)) ?es"
    using sample_node_says by (simp add: sample_doc_def HMP_NODE_STR_def)
  have own: "own_node second_host [sample_if] (map fst ?es) = Some 1"
    by (simp add: own_node_def is_ib_device_def sample_if_def second_host_def IFF_UP_def
        IFF_LOOPBACK_def HMP_IB_DEVICE_def upt_rec)
  have "parse_file sample_xml HMP_CONFIG_FILE = Some (Some sample_doc)"
    "xml_name sample_doc = HMP_NODES_INFO_STR"
    by (simp_all add: sample_xml_def sample_doc_def HMP_NODES_INFO_STR_def)
  from config_init_correct [OF this says, of "config sample_node" second_host "[sample_if]" sample_sys]
  show ?thesis
    unfolding own by (auto simp: HMP_ADDR_LEN_def HMP_NODE_NUM_def sample_node_def less_Suc_eq)
qed

section \<open>Resources\<close>

text \<open>What a run over the document keeps: any view of the state that does not see the log, a text that
  is fetched and freed, and the questions about the network interfaces.\<close>

locale reading =
  fixes v :: "sys \<Rightarrow> 'v"
  assumes logs: "v (INFO_LOG m s) = v s" "v (ERROR_LOG m s) = v s"
    and texts: "v (record_call (Os Xml_free) (record_call (Os Xml_get_string) s)) = v s"
    and asked: "v (record_call (Os Socket_dgram) s) = v s" "v (record_call (Os (Siocgifconf fd)) s) = v s"
      "v (record_call (Os (Siocgifflags fd name)) s) = v s"
    and same_call: "v s = v t \<Longrightarrow> v (record_call c s) = v (record_call c t)"
begin

lemma use_text: "use_text X name f n (c, s) = Some (c', s') \<Longrightarrow> v s' = v s"
  by (auto simp: use_text_def Let_def texts Option.bind_eq_Some_conv split: if_splits)

lemma parse_children: "parse_children X i ns (c, s) = Some (c', s') \<Longrightarrow> v s' = v s"
proof (induction ns arbitrary: c s)
  case (Cons n ns)
  then obtain c1 s1 c2 s2 where "use_text X HMP_ADDR_STR (set_addr i) n (c, s) = Some (c1, s1)"
    "use_text X HMP_PORT_STR (set_port i) n (c1, s1) = Some (c2, s2)"
    "parse_children X i ns (c2, s2) = Some (c', s')"
    by (auto simp: Option.bind_eq_Some_conv)
  with Cons.IH use_text show ?case by metis
qed simp

lemma parse_nodes: "parse_nodes X i ns (c, s) = Some (c', s') \<Longrightarrow> v s' = v s"
proof (induction ns arbitrary: i c s)
  case (Cons n ns)
  show ?case
  proof (cases "xml_name n = HMP_NODE_STR")
    case True
    with Cons.prems obtain c1 s1 where 1: "hmp_parse_node X i n (c, s) = Some (c1, s1)"
      and 2: "parse_nodes X (i + 1) ns (c1\<lparr>node_cnt := node_cnt c1 + 1\<rparr>, s1) = Some (c', s')"
      by (auto simp: Option.bind_eq_Some_conv)
    from parse_children [OF 1 [unfolded hmp_parse_node_def]] Cons.IH [OF 2] show ?thesis by simp
  qed (use Cons in simp)
qed simp

lemma print_nodes: "print_nodes c i n s = Some s' \<Longrightarrow> v s' = v s"
  by (induction n arbitrary: i s) (fastforce simp: logs split: if_splits)+

lemma find_device: "v (snd (find_device fd rs s)) = v s"
  by (induction rs arbitrary: s) (auto simp: Let_def logs asked)

lemma set_curnode_id: "hmp_set_curnode_id E ifs c s = Some (r, c', s') \<Longrightarrow> v s' = v s"
  using find_device [of "e_int E s (Os Socket_dgram)" ifs
    "record_call (Os (Siocgifconf (e_int E s (Os Socket_dgram)))) (record_call (Os Socket_dgram) s)"]
  by (auto simp: hmp_set_curnode_id_def int_call_def Let_def no_rdma_device_def split_def logs asked
    Option.bind_eq_Some_conv split: option.splits)

lemma config_init:
  assumes "hmp_config_init E X ifs c s = Some (r, c', s')"
  shows "v s' = v (let s = record_call (Os (Xml_parse_file HMP_CONFIG_FILE)) s
    in if parse_file X HMP_CONFIG_FILE = None then s else record_call (Os Xml_free_doc) s)"
proof -
  let ?s = "record_call (Os (Xml_parse_file HMP_CONFIG_FILE)) s"
  let ?c = "c\<lparr>node_cnt := 0, curnode_id := - 1\<rparr>"
  show ?thesis
  proof (cases "\<exists>root. parse_file X HMP_CONFIG_FILE = Some (Some root) \<and> xml_name root = HMP_NODES_INFO_STR")
    case False
    with assms show ?thesis
      by (auto simp: hmp_config_init_def cleandoc_def Let_def logs same_call [OF logs(2)] split: option.splits if_splits)
  next
    case True
    with assms obtain root c1 s1 s2 r1 c2 s3 where
      x: "parse_file X HMP_CONFIG_FILE = Some (Some root)" and
      p: "parse_nodes X 0 (xml_children root) (?c, ?s) = Some (c1, s1)" and
      q: "hmr_print_nodes_info c1 s1 = Some s2" and
      i: "hmp_set_curnode_id E ifs c1 (record_call (Os Xml_free_doc) s2) = Some (r1, c2, s3)" and
      j: "(case r1 of Inl h \<Rightarrow> Some (Inl h, c2, s3) | Inr _ \<Rightarrow> Some (Inr 0, c2, s3)) = Some (r, c', s')"
      by (auto simp: hmp_config_init_def Let_def Option.bind_eq_Some_conv)
    from j have e: "s' = s3" by (cases r1) auto
    have "v s2 = v ?s" using parse_nodes [OF p] print_nodes [OF q [unfolded hmr_print_nodes_info_def]] by simp
    from same_call [OF this, of "Os Xml_free_doc"] set_curnode_id [OF i] x e show ?thesis by simp
  qed
qed

end

interpretation balance: reading "\<lambda>s. (text_balance s, docs_freed s)"
  by unfold_locales simp_all

interpretation memory: reading "\<lambda>s. s\<lparr>calls := [], log := []\<rparr>"
  by unfold_locales (simp_all add: record_call_def INFO_LOG_eq ERROR_LOG_eq)

lemma config_init_memory:
  assumes "hmp_config_init E X ifs c s = Some (r, c', s')"
  shows "s' = s\<lparr>calls := calls s', log := log s'\<rparr>"
proof -
  have "s'\<lparr>calls := [], log := []\<rparr> = s\<lparr>calls := [], log := []\<rparr>"
    using memory.config_init [OF assms] by (simp add: Let_def record_call_def split: if_splits)
  then show ?thesis by (cases s, cases s') simp
qed



section \<open>Too many nodes\<close>

lemma parse_children_overflow:
  "\<not> in_nodes i \<Longrightarrow> \<exists>n\<in>set ns. xml_name n = HMP_ADDR_STR \<Longrightarrow> parse_children X i ns cs = None"
proof (induction ns arbitrary: cs)
  case (Cons n ns)
  obtain c s where cs: "cs = (c, s)" by (cases cs)
  show ?case
  proof (cases "xml_name n = HMP_ADDR_STR")
    case True
    with Cons.prems(1) cs show ?thesis
      by (cases "list_string X (xml_children n)")
        (simp_all add: use_text_def set_addr_def upd_info_def Let_def)
  next
    case False
    then have ex: "\<exists>n\<in>set ns. xml_name n = HMP_ADDR_STR" using Cons.prems(2) by simp
    have "parse_children X i ns = (\<lambda>_. None)"
      by (rule ext) (rule Cons.IH [OF Cons.prems(1) ex])
    then show ?thesis by simp
  qed
qed simp

lemma node_says_addr: "node_says X n a p \<Longrightarrow> \<exists>m\<in>set (xml_children n). xml_name m = HMP_ADDR_STR"
  unfolding node_says_def by (metis (mono_tags, lifting) filter_empty_conv list.distinct(1))

lemma parse_nodes_overflow:
  assumes "list_all2 (\<lambda>n e. node_says X n (fst e) (snd e)) (filter (\<lambda>n. xml_name n = HMP_NODE_STR) ns) es"
    and "HMP_NODE_NUM < k + length es" "k \<le> HMP_NODE_NUM"
  shows "parse_nodes X (int k) ns cs = None"
  using assms
proof (induction ns arbitrary: k es cs)
  case (Cons n ns)
  show ?case
  proof (cases "xml_name n = HMP_NODE_STR")
    case False
    with Cons show ?thesis by simp
  next
    case True
    with Cons.prems(1) obtain e es' where es: "es = e # es'" and e: "node_says X n (fst e) (snd e)"
      and rest: "list_all2 (\<lambda>n e. node_says X n (fst e) (snd e)) (filter (\<lambda>n. xml_name n = HMP_NODE_STR) ns) es'"
      by (auto simp: list_all2_Cons1)
    show ?thesis
    proof (cases "k = HMP_NODE_NUM")
      case True
      then have "hmp_parse_node X (int k) n cs = None"
        unfolding hmp_parse_node_def
        by (intro parse_children_overflow node_says_addr [OF e]) (simp add: in_nodes_def)
      then show ?thesis using \<open>xml_name n = HMP_NODE_STR\<close> by simp
    next
      case False
      have "parse_nodes X (int (Suc k)) ns cs' = None" for cs'
        by (rule Cons.IH [OF rest]) (use Cons.prems es False in auto)
      then have "parse_nodes X (int k + 1) ns cs' = None" for cs'
        by (simp add: add.commute)
      then show ?thesis using \<open>xml_name n = HMP_NODE_STR\<close>
        by (simp add: split_def)
    qed
  qed
qed simp

text \<open>
  A document with more than eight nodes makes the parser write outside the table of nodes:
  the index is never compared with its size.
\<close>

theorem config_too_many_nodes:
  assumes doc: "parse_file X HMP_CONFIG_FILE = Some (Some root)" "xml_name root = HMP_NODES_INFO_STR"
    and says: "list_all2 (\<lambda>n e. node_says X n (fst e) (snd e))
      (filter (\<lambda>n. xml_name n = HMP_NODE_STR) (xml_children root)) es"
    and many: "HMP_NODE_NUM < length es"
  shows "hmp_config_init E X ifs c s = None"
proof -
  have "parse_nodes X (int 0) (xml_children root) cs = None" for cs
    by (rule parse_nodes_overflow [OF says]) (use many in simp_all)
  then show ?thesis using doc by (simp add: hmp_config_init_def Let_def)
qed

definition long_doc :: xml_node where
  "long_doc = Xml_node ''nodes_info''
     (replicate 9 (Xml_node ''node'' [leaf ''addr'' ''10.0.0.1'', leaf ''port'' ''2345''] [])) []"

theorem config_too_many_nodes_witness:
  "hmp_config_init sample_env (sample_xml\<lparr>parse_file := (\<lambda>f. Some (Some long_doc))\<rparr>) []
     (config sample_node) sample_sys = None"
proof (rule config_too_many_nodes [where root = long_doc and es = "replicate 9 (''10.0.0.1'', 2345)"])
  have "node_says (sample_xml\<lparr>parse_file := f\<rparr>) n a p \<longleftrightarrow> node_says sample_xml n a p" for f n a p
    by (simp add: node_says_def)
  then show "list_all2 (\<lambda>n e. node_says (sample_xml\<lparr>parse_file := \<lambda>f. Some (Some long_doc)\<rparr>) n (fst e) (snd e))
      (filter (\<lambda>n. xml_name n = HMP_NODE_STR) (xml_children long_doc)) (replicate 9 (''10.0.0.1'', 2345))"
    using sample_node_says by (simp add: long_doc_def HMP_NODE_STR_def list_all2_conv_all_nth)
qed (simp_all add: long_doc_def HMP_NODES_INFO_STR_def HMP_NODE_NUM_def)

end
