(* ===== verification/Hmp_Device.thy ===== *)
theory Hmp_Device
  imports Hmp_Text Hmp_Alloc
begin

text \<open>
  \<open>src/hmp_transport.c\<close>, the devices: the list of RDMA devices of the node, built once and
  released once, and the search in it. The list's head is the field \<open>dev_list\<close> of the global
  node; its entries are the first members of the device structures.
\<close>

section \<open>Calls of the verbs library on devices\<close>

definition ibv_query_device :: "env \<Rightarrow> ptr \<Rightarrow> ptr \<Rightarrow> sys \<Rightarrow> (int \<times> sys) option" where
  "ibv_query_device E verbs dev s = (let
     attr = e_attr E s;
     (r, s) = int_call E (Verbs (Query_device verbs)) s
     in if r = 0 then do { s \<leftarrow> upd_device (\<lambda>d. d\<lparr>device_attr := attr\<rparr>) dev s; Some (r, s) }
        else Some (r, s))"

section \<open>Start\<close>

definition cleandev :: "ptr \<Rightarrow> sys \<Rightarrow> (ptr \<times> sys) option" where
  "cleandev dev s = do { s \<leftarrow> free_device dev s; Some (NULL, s) }"

definition hmp_device_init :: "env \<Rightarrow> ptr \<Rightarrow> sys \<Rightarrow> (ptr \<times> sys) option" where
  "hmp_device_init E verbs s = (let (dev, s) = calloc_device E s in
     if dev = NULL then Some (NULL, ERROR_LOG ''Allocate hmp_device error.'' s)
     else do {
       (retval, s) \<leftarrow> ibv_query_device E verbs dev s;
       if retval < 0 then cleandev dev (ERROR_LOG ''rdma query device attr error.'' s)
       else do {
         let (pd, s) = ptr_call E (Verbs (Alloc_pd verbs)) s;
         s \<leftarrow> upd_device (\<lambda>d. d\<lparr>dev_pd := pd\<rparr>) dev s;
         if pd = NULL then cleandev dev (ERROR_LOG ''Allocate ibv_pd error.'' s)
         else do {
           s \<leftarrow> upd_device (\<lambda>d. d\<lparr>dev_verbs := verbs\<rparr>) dev s;
           s \<leftarrow> with_links (INIT_LIST_HEAD (member_of dev dev_list_entry_off)) s;
           Some (dev, s) } } })"

text \<open>The loop over the array of contexts; an unusable one is skipped and not counted.\<close>

definition skip_device :: "sys \<Rightarrow> sys" where
  "skip_device s = upd_curnode (\<lambda>n. n\<lparr>num_devices := num_devices n - 1\<rparr>) s"

fun init_devices :: "env \<Rightarrow> ptr list \<Rightarrow> sys \<Rightarrow> sys option" where
  "init_devices E [] s = Some s"
| "init_devices E (c # cs) s =
     (if c = NULL then init_devices E cs (skip_device (ERROR_LOG ''RDMA device [%d] is NULL.'' s))
      else if e_dev_name E c = ''siw_lo'' then init_devices E cs (skip_device s)
      else do {
        (dev, s) \<leftarrow> hmp_device_init E c s;
        if dev = NULL
        then init_devices E cs
          (skip_device (ERROR_LOG ''RDMA device [%d]: name= %s allocate error.'' s))
        else do {
          s \<leftarrow> with_links (list_add (member_of dev dev_list_entry_off) (e_dev_list E)) s;
          init_devices E cs (INFO_LOG ''RDMA device [%d]: name= %s allocate success.'' s) } })"

definition hmp_device_init_handle :: "env \<Rightarrow> sys \<Rightarrow> sys option" where
  "hmp_device_init_handle E s = do {
     s \<leftarrow> with_links (INIT_LIST_HEAD (e_dev_list E)) s;
     let ctx_list = e_devices E s;
     let s = record_call (Cm Get_devices) s;
     case ctx_list of
       None \<Rightarrow> Some (ERROR_LOG ''Failed to get the rdma device list.'' s)
     | Some cs \<Rightarrow> do {
         let s = upd_curnode (\<lambda>n. n\<lparr>num_devices := int (length cs)\<rparr>) s;
         s \<leftarrow> init_devices E cs s;
         Some (record_call (Cm Free_devices) s) } }"

text \<open>\<open>pthread_once\<close>: the routine runs in the first call only.\<close>

definition hmp_transport_init :: "env \<Rightarrow> sys \<Rightarrow> sys option" where
  "hmp_transport_init E s =
     (if init_once s then Some s else hmp_device_init_handle E (s\<lparr>init_once := True\<rparr>))"

section \<open>End\<close>

definition hmp_device_release :: "ptr \<Rightarrow> sys \<Rightarrow> sys option" where
  "hmp_device_release dev s = do {
     s \<leftarrow> with_links (list_del (member_of dev dev_list_entry_off)) s;
     d \<leftarrow> load (devices s) dev;
     let s = record_call (Verbs (Dealloc_pd (dev_pd d))) s;
     free_device dev s }"

text \<open>A loop body that always falls through.\<close>

definition stay :: "sys option \<Rightarrow> (sys + unit) option" where
  "stay r = map_option Inl r"

definition loop_end :: "(sys + unit) option \<Rightarrow> sys option" where
  "loop_end r = do { r \<leftarrow> r; case r of Inl s \<Rightarrow> Some s | Inr _ \<Rightarrow> None }"

definition hmp_device_release_handle :: "env \<Rightarrow> sys \<Rightarrow> sys option" where
  "hmp_device_release_handle E s = loop_end
     (list_for_each_entry_safe links dev_list_entry_off (e_dev_list E) (\<lambda>dev s. stay (do {
        s \<leftarrow> with_links (list_del_init (member_of dev dev_list_entry_off)) s;
        hmp_device_release dev s })) s)"

definition hmp_transport_release :: "env \<Rightarrow> sys \<Rightarrow> sys option" where
  "hmp_transport_release E s =
     (if release_once s then Some s else hmp_device_release_handle E (s\<lparr>release_once := True\<rparr>))"

section \<open>Search\<close>

text \<open>The transport's \<open>nodeptr\<close> is the address of the global node wherever the code sets it.\<close>

definition hmp_device_lookup :: "env \<Rightarrow> ptr \<Rightarrow> ptr \<Rightarrow> sys \<Rightarrow> ptr option" where
  "hmp_device_lookup E node verbs s =
     (if node \<noteq> e_curnode E then None
      else do {
        r \<leftarrow> list_for_each_entry links dev_list_entry_off (e_dev_list E) (\<lambda>device s. do {
          d \<leftarrow> load (devices s) device;
          Some (if dev_verbs d = verbs then Inr device else Inl s) }) s;
        Some (case r of Inl _ \<Rightarrow> NULL | Inr device \<Rightarrow> device) })"

section \<open>Printing\<close>

text \<open>Every byte as a signed decimal number; the result is what is printed.\<close>

definition hmp_print_addr :: "ptr \<Rightarrow> int \<Rightarrow> bytes \<Rightarrow> string option" where
  "hmp_print_addr addr len h = do {
     bs \<leftarrow> read_bytes h addr (nat len);
     Some (concat (map (\<lambda>b. dec_of_int (sint b) @ '' '') bs) @ [CHR 0x0A]) }"

end
