(* ===== verification/Hmp_Context.thy ===== *)
theory Hmp_Context
  imports Hmp_Alloc
begin

text \<open>
  \<open>src/hmp_context.c\<close>: the event loop. A context owns an epoll descriptor and the thread that
  waits on it; a registered descriptor carries a record with the handler to call.
\<close>

section \<open>Contexts\<close>

definition cleanctx :: "ptr \<Rightarrow> sys \<Rightarrow> (ptr \<times> sys) option" where
  "cleanctx ctx s = do { s \<leftarrow> free_context ctx s; Some (NULL, s) }"

definition cleanepfd :: "ptr \<Rightarrow> sys \<Rightarrow> (ptr \<times> sys) option" where
  "cleanepfd ctx s = do {
     c \<leftarrow> load (contexts s) ctx;
     cleanctx ctx (record_call (Os (Close (epfd c))) s) }"

text \<open>The thread that \<open>pthread_create\<close> starts runs \<open>hmp_context_run\<close>; its handle is an answer.\<close>

definition hmp_context_create :: "env \<Rightarrow> sys \<Rightarrow> (ptr \<times> sys) option" where
  "hmp_context_create E s = (let (ctx, s) = calloc_context E s in
     if ctx = NULL then Some (NULL, ERROR_LOG ''allocate memory error.'' s)
     else do {
       let (fd, s) = int_call E (Os (Epoll_create HMP_EPOLL_SIZE)) s;
       s \<leftarrow> upd_context (\<lambda>c. c\<lparr>epfd := fd\<rparr>) ctx s;
       if fd < 0 then cleanctx ctx (ERROR_LOG ''create epoll fd error.'' s)
       else do {
         let thread = uint (e_ptr E s (Os (Pthread_create ctx)));
         let (retval, s) = int_call E (Os (Pthread_create ctx)) s;
         s \<leftarrow> (if retval = 0 then upd_context (\<lambda>c. c\<lparr>epoll_thread := thread\<rparr>) ctx s else Some s);
         if retval \<noteq> 0 then cleanepfd ctx (ERROR_LOG ''pthread create error.'' s)
         else Some (ctx, INFO_LOG ''hmp context create success.'' s) } })"

section \<open>Registration\<close>

definition EPOLLIN :: int where
  "EPOLLIN = 1"

text \<open>
  The kernel's interest list is part of the state: \<open>EPOLL_CTL_ADD\<close> and \<open>EPOLL_CTL_DEL\<close> change
  it when they succeed.
\<close>

definition epoll_ctl_add :: "env \<Rightarrow> int \<Rightarrow> int \<Rightarrow> int \<Rightarrow> ptr \<Rightarrow> sys \<Rightarrow> int \<times> sys" where
  "epoll_ctl_add E ep fd events data s = (let
     (retval, s) = int_call E (Os (Epoll_add ep fd events data)) s
     in (retval, if retval = 0 then s\<lparr>interest := (interest s)((ep, fd) \<mapsto> data)\<rparr> else s))"

definition epoll_ctl_del :: "env \<Rightarrow> int \<Rightarrow> int \<Rightarrow> sys \<Rightarrow> int \<times> sys" where
  "epoll_ctl_del E ep fd s = (let
     (retval, s) = int_call E (Os (Epoll_del ep fd)) s
     in (retval, if retval = 0 then s\<lparr>interest := (interest s)((ep, fd) := None)\<rparr> else s))"

definition upd_event_data :: "(hmp_event_data \<Rightarrow> hmp_event_data) \<Rightarrow> ptr \<Rightarrow> sys \<Rightarrow> sys option" where
  "upd_event_data f p s = do { h \<leftarrow> modify f p (event_datas s); Some (s\<lparr>event_datas := h\<rparr>) }"

definition hmp_context_add_event_fd ::
  "env \<Rightarrow> ptr \<Rightarrow> int \<Rightarrow> int \<Rightarrow> ptr \<Rightarrow> hmp_event_handler \<Rightarrow> sys \<Rightarrow> (int \<times> sys) option" where
  "hmp_context_add_event_fd E ctx events fd data event_handler s =
     (let (event_data, s) = calloc_event_data E s in
      if event_data = NULL then Some (- 1, ERROR_LOG ''allocate memory error.'' s)
      else do {
        s \<leftarrow> upd_event_data (\<lambda>d. d\<lparr>ed_fd := fd\<rparr>) event_data s;
        s \<leftarrow> upd_event_data (\<lambda>d. d\<lparr>ed_data := data\<rparr>) event_data s;
        s \<leftarrow> upd_event_data (\<lambda>d. d\<lparr>ed_event_handler := event_handler\<rparr>) event_data s;
        c \<leftarrow> load (contexts s) ctx;
        let (retval, s) = epoll_ctl_add E (epfd c) fd events event_data s;
        if retval \<noteq> 0 then do {
          s \<leftarrow> free_event_data event_data (ERROR_LOG ''Context add event fd error.'' s);
          Some (retval, s) }
        else Some (retval, INFO_LOG ''hmp_context add event fd success.'' s) })"

definition hmp_context_del_event_fd :: "env \<Rightarrow> ptr \<Rightarrow> int \<Rightarrow> sys \<Rightarrow> (int \<times> sys) option" where
  "hmp_context_del_event_fd E ctx fd s = do {
     c \<leftarrow> load (contexts s) ctx;
     let (retval, s) = epoll_ctl_del E (epfd c) fd s;
     Some (retval, if retval < 0 then ERROR_LOG ''hmp_context del event fd error.'' s else s) }"

section \<open>The loop\<close>

text \<open>A handler is called with the descriptor and the data it was registered with.\<close>

type_synonym dispatch = "hmp_event_handler \<Rightarrow> int \<Rightarrow> ptr \<Rightarrow> sys \<Rightarrow> sys option"

definition EVENTS_SIZE :: nat where
  "EVENTS_SIZE = 1024"

text \<open>The first \<open>n\<close> entries that \<open>epoll_wait\<close> filled in, in order.\<close>

fun run_events :: "dispatch \<Rightarrow> nat \<Rightarrow> ptr list \<Rightarrow> sys \<Rightarrow> sys option" where
  "run_events D 0 events s = Some s"
| "run_events D (Suc n) [] s = None"
| "run_events D (Suc n) (p # ps) s = do {
     d \<leftarrow> load (event_datas s) p;
     s \<leftarrow> D (ed_event_handler d) (ed_fd d) (ed_data d) s;
     run_events D n ps s }"

text \<open>One turn of the loop; it tells whether the loop goes on.\<close>

definition context_turn :: "env \<Rightarrow> dispatch \<Rightarrow> ptr \<Rightarrow> sys \<Rightarrow> (bool \<times> sys) option" where
  "context_turn E D ctx s = do {
     c \<leftarrow> load (contexts s) ctx;
     let events = take EVENTS_SIZE (e_events E s);
     let (events_nr, s) = int_call E (Os (Epoll_wait (epfd c))) s;
     s \<leftarrow> (if events_nr > 0 then run_events D (nat events_nr) events s else Some s);
     c \<leftarrow> load (contexts s) ctx;
     Some (ctx_stop c = 0, s) }"

text \<open>The loop, which has no bound: a run that never ends has no value.\<close>

partial_function (option) context_loop :: "env \<Rightarrow> dispatch \<Rightarrow> ptr \<Rightarrow> sys \<Rightarrow> sys option" where
  "context_loop E D ctx s = do {
     (go, s) \<leftarrow> context_turn E D ctx s;
     if go then context_loop E D ctx s else Some s }"

definition hmp_context_run :: "env \<Rightarrow> dispatch \<Rightarrow> ptr \<Rightarrow> sys \<Rightarrow> sys option" where
  "hmp_context_run E D ctx s = context_loop E D ctx (INFO_LOG ''hmp_context_run.'' s)"

end
