(* ===== verification/Hmp_Task.thy ===== *)
theory Hmp_Task
  imports Hmp_Alloc "HOL-Library.Signed_Division"
begin

text \<open>
  \<open>src/hmp_task.c\<close>: the four constructors of tasks. A send task also lays the message out in
  the transport's send slot; a receive task takes the next of the three receive slots.
\<close>

text \<open>The key of the pool's registration, which every task on DRAM uses.\<close>

definition pool_lkey :: "sys \<Rightarrow> 32 word option" where
  "pool_lkey s = do {
     m \<leftarrow> load (mempools s) (dram_mempool (curnode s));
     r \<leftarrow> load (mrs s) (pool_mr m);
     Some (mr_lkey r) }"

definition set_task_lkey :: "bool \<Rightarrow> ptr \<Rightarrow> sys \<Rightarrow> sys option" where
  "set_task_lkey is_dram task s = (if is_dram then do {
       k \<leftarrow> pool_lkey s;
       upd_task (\<lambda>t. t\<lparr>task_sge := (task_sge t)\<lparr>sge_lkey := k\<rparr>\<rparr>) task s }
     else Some s)"

text \<open>The header's two fields of four bytes each, then the data.\<close>

definition MSG_HEAD :: int where
  "MSG_HEAD = 8"

definition write_msg :: "ptr \<Rightarrow> hmp_msg \<Rightarrow> bytes \<Rightarrow> bytes option" where
  "write_msg addr msg h = do {
     h \<leftarrow> write_bytes h addr (to_le 4 (msg_type msg));
     h \<leftarrow> write_bytes h (addr + 4) (to_le 4 (word_of_int (msg_data_size msg) :: 32 word));
     memcpy (addr + 4 + 4) (msg_data msg) (unat (word_of_int (msg_data_size msg) :: 64 word)) h }"

definition hmp_send_task_create :: "env \<Rightarrow> ptr \<Rightarrow> hmp_msg \<Rightarrow> bool \<Rightarrow> sys \<Rightarrow> (ptr \<times> sys) option" where
  "hmp_send_task_create E rdma_trans msg is_dram s = (let (task, s) = malloc_task E s in
     if task = NULL then Some (NULL, ERROR_LOG ''allocate memory error.'' s)
     else do {
       s \<leftarrow> upd_task (\<lambda>t. t\<lparr>task_rdma_trans := rdma_trans\<rparr>) task s;
       t \<leftarrow> load (transports s) rdma_trans;
       let addr = send_addr (region t);
       s \<leftarrow> upd_task (\<lambda>t. t\<lparr>task_sge := (task_sge t)\<lparr>sge_addr := addr\<rparr>\<rparr>) task s;
       let size = word_of_int (MSG_HEAD + msg_data_size msg);
       s \<leftarrow> upd_task (\<lambda>t. t\<lparr>task_sge := (task_sge t)\<lparr>sge_length := size\<rparr>\<rparr>) task s;
       s \<leftarrow> upd_task (\<lambda>t. t\<lparr>task_type := HMP_TASK_INIT\<rparr>) task s;
       s \<leftarrow> set_task_lkey is_dram task s;
       s \<leftarrow> with_mem (write_msg addr msg) s;
       Some (task, s) })"

definition hmp_recv_task_create :: "env \<Rightarrow> ptr \<Rightarrow> int \<Rightarrow> bool \<Rightarrow> sys \<Rightarrow> (ptr \<times> sys) option" where
  "hmp_recv_task_create E rdma_trans sz is_dram s = (let (task, s) = malloc_task E s in
     if task = NULL then Some (NULL, ERROR_LOG ''allocate memory error.'' s)
     else do {
       s \<leftarrow> upd_task (\<lambda>t. t\<lparr>task_rdma_trans := rdma_trans\<rparr>) task s;
       t \<leftarrow> load (transports s) rdma_trans;
       let addr = recv_addr (region t) + word_of_int (cur_recv (region t) * int HMP_TASK_SIZE);
       s \<leftarrow> upd_task (\<lambda>t. t\<lparr>task_sge := (task_sge t)\<lparr>sge_addr := addr\<rparr>\<rparr>) task s;
       s \<leftarrow> upd_task (\<lambda>t. t\<lparr>task_sge := (task_sge t)\<lparr>sge_length := word_of_int sz\<rparr>\<rparr>) task s;
       s \<leftarrow> upd_trans (\<lambda>t. t\<lparr>region := (region t)\<lparr>cur_recv := (cur_recv (region t) + 1) smod 3\<rparr>\<rparr>)
         rdma_trans s;
       s \<leftarrow> upd_task (\<lambda>t. t\<lparr>task_type := HMP_TASK_INIT\<rparr>) task s;
       s \<leftarrow> set_task_lkey is_dram task s;
       Some (task, s) })"

text \<open>The tasks of one-sided operations use the caller's buffer.\<close>

definition hmp_read_task_create ::
  "env \<Rightarrow> ptr \<Rightarrow> ptr \<Rightarrow> int \<Rightarrow> bool \<Rightarrow> sys \<Rightarrow> (ptr \<times> sys) option" where
  "hmp_read_task_create E rdma_trans addr len is_dram s = (let (task, s) = malloc_task E s in
     if task = NULL then Some (NULL, ERROR_LOG ''allocate memory error.'' s)
     else do {
       s \<leftarrow> upd_task (\<lambda>t. t\<lparr>task_type := HMP_TASK_READ\<rparr>) task s;
       s \<leftarrow> upd_task (\<lambda>t. t\<lparr>task_sge := (task_sge t)\<lparr>sge_addr := addr\<rparr>\<rparr>) task s;
       s \<leftarrow> upd_task (\<lambda>t. t\<lparr>task_sge := (task_sge t)\<lparr>sge_length := word_of_int len\<rparr>\<rparr>) task s;
       s \<leftarrow> upd_task (\<lambda>t. t\<lparr>task_rdma_trans := rdma_trans\<rparr>) task s;
       s \<leftarrow> set_task_lkey is_dram task s;
       Some (task, s) })"

definition hmp_write_task_create ::
  "env \<Rightarrow> ptr \<Rightarrow> ptr \<Rightarrow> int \<Rightarrow> bool \<Rightarrow> sys \<Rightarrow> (ptr \<times> sys) option" where
  "hmp_write_task_create E rdma_trans addr len is_dram s = (let (task, s) = malloc_task E s in
     if task = NULL then Some (NULL, ERROR_LOG ''allocate memory error.'' s)
     else do {
       s \<leftarrow> upd_task (\<lambda>t. t\<lparr>task_type := HMP_TASK_WRITE\<rparr>) task s;
       s \<leftarrow> upd_task (\<lambda>t. t\<lparr>task_sge := (task_sge t)\<lparr>sge_addr := addr\<rparr>\<rparr>) task s;
       s \<leftarrow> upd_task (\<lambda>t. t\<lparr>task_sge := (task_sge t)\<lparr>sge_length := word_of_int len\<rparr>\<rparr>) task s;
       s \<leftarrow> upd_task (\<lambda>t. t\<lparr>task_rdma_trans := rdma_trans\<rparr>) task s;
       s \<leftarrow> set_task_lkey is_dram task s;
       Some (task, s) })"

end
