(* ===== verification/Hmp_Cq.thy ===== *)
theory Hmp_Cq
  imports Hmp_Context Hmp_Task
begin

text \<open>
  \<open>src/hmp_transport.c\<close>, the data path: completion queues and queue pairs, the receive and
  send requests, and the handler of completions.
\<close>

section \<open>Calls of the verbs library\<close>

text \<open>A new completion channel; its descriptor is a field the program reads.\<close>

definition ibv_create_comp_channel :: "env \<Rightarrow> ptr \<Rightarrow> sys \<Rightarrow> ptr \<times> sys" where
  "ibv_create_comp_channel E verbs s = (let
     c = Verbs (Create_comp_channel verbs);
     fd = e_int E s c;
     (p, s) = ptr_call E c s
     in (p, if p = NULL then s else s\<lparr>chan_fds := (chan_fds s)(p \<mapsto> fd)\<rparr>))"

definition ibv_destroy_comp_channel :: "ptr \<Rightarrow> sys \<Rightarrow> sys" where
  "ibv_destroy_comp_channel p s =
     record_call (Verbs (Destroy_comp_channel p)) (s\<lparr>chan_fds := (chan_fds s)(p := None)\<rparr>)"

text \<open>On success the queue pair is in the identifier.\<close>

definition rdma_create_qp :: "env \<Rightarrow> ptr \<Rightarrow> ptr \<Rightarrow> ibv_qp_init_attr \<Rightarrow> sys \<Rightarrow> (int \<times> sys) option" where
  "rdma_create_qp E cid pd attr s = (let
     c = Cm (Create_qp cid pd attr);
     q = e_ptr E s c;
     (r, s) = int_call E c s
     in if r = 0 then do { s \<leftarrow> upd_cm_id (\<lambda>i. i\<lparr>id_qp := q\<rparr>) cid s; Some (r, s) } else Some (r, s))"

section \<open>Non-blocking descriptors\<close>

definition O_NONBLOCK :: int where
  "O_NONBLOCK = 2048"

text \<open>The two \<open>fcntl\<close> calls; the result is \<open>flags\<close> as it is tested afterwards.\<close>

definition set_nonblock :: "env \<Rightarrow> int \<Rightarrow> sys \<Rightarrow> int \<times> sys" where
  "set_nonblock E fd s = (let (flags, s) = int_call E (Os (Fcntl_getfl fd)) s in
     if flags \<noteq> - 1 then int_call E (Os (Fcntl_setfl fd (flags OR O_NONBLOCK))) s
     else (flags, s))"

section \<open>Receive and send requests\<close>

definition task_ibv_sge :: "hmp_task \<Rightarrow> ibv_sge" where
  "task_ibv_sge t = \<lparr>ibv_addr = sge_addr (task_sge t), ibv_length = sge_length (task_sge t),
     ibv_lkey = sge_lkey (task_sge t)\<rparr>"

definition hmp_post_recv :: "env \<Rightarrow> ptr \<Rightarrow> sys \<Rightarrow> sys option" where
  "hmp_post_recv E rdma_trans s = do {
     (task, s) \<leftarrow> hmp_recv_task_create E rdma_trans (int HMP_TASK_SIZE) True s;
     if task = NULL then Some (ERROR_LOG ''recv task create error'' s)
     else do {
       t \<leftarrow> load (tasks s) task;
       tr \<leftarrow> load (transports s) rdma_trans;
       let (err, s) = int_call E (Verbs (Post_recv (trans_qp tr)
         \<lparr>rwr_wr_id = task, rwr_sge = task_ibv_sge t, rwr_num_sge = 1\<rparr>)) s;
       Some (if err \<noteq> 0 then ERROR_LOG ''ibv_post_recv error'' s else s) } }"

definition hmp_pre_post_recv :: "env \<Rightarrow> ptr \<Rightarrow> sys \<Rightarrow> sys option" where
  "hmp_pre_post_recv E rdma_trans s = do {
     s \<leftarrow> hmp_post_recv E rdma_trans s;
     hmp_post_recv E rdma_trans s }"

definition hmp_post_send :: "env \<Rightarrow> ptr \<Rightarrow> hmp_msg \<Rightarrow> sys \<Rightarrow> sys option" where
  "hmp_post_send E rdma_trans msg s = do {
     (task, s) \<leftarrow> hmp_send_task_create E rdma_trans msg True s;
     if task = NULL then Some (ERROR_LOG ''send task create error.'' s)
     else do {
       t \<leftarrow> load (tasks s) task;
       tr \<leftarrow> load (transports s) rdma_trans;
       let (err, s) = int_call E (Verbs (Post_send (trans_qp tr)
         \<lparr>swr_wr_id = task, swr_sge = task_ibv_sge t, swr_num_sge = 1, swr_opcode = IBV_WR_SEND,
          swr_send_flags = IBV_SEND_SIGNALED, swr_remote_addr = 0, swr_rkey = 0\<rparr>)) s;
       Some (if err \<noteq> 0 then ERROR_LOG ''ibv_post_send error.'' s else s) } }"

section \<open>Completions\<close>

definition hmp_ibv_wc_opcode_str :: "ibv_wc_opcode \<Rightarrow> string" where
  "hmp_ibv_wc_opcode_str opcode = (case opcode of
     IBV_WC_SEND \<Rightarrow> ''IBV_WC_SEND''
   | IBV_WC_RDMA_WRITE \<Rightarrow> ''IBV_WC_RDMA_WRITE''
   | IBV_WC_RDMA_READ \<Rightarrow> ''IBV_WC_RDMA_READ''
   | IBV_WC_COMP_SWAP \<Rightarrow> ''IBV_WC_COMP_SWAP''
   | IBV_WC_FETCH_ADD \<Rightarrow> ''IBV_WC_FETCH_ADD''
   | IBV_WC_BIND_MW \<Rightarrow> ''IBV_WC_BIND_MW''
   | IBV_WC_RECV \<Rightarrow> ''IBV_WC_RECV''
   | IBV_WC_RECV_RDMA_WITH_IMM \<Rightarrow> ''IBV_WC_RECV_RDMA_WITH_IMM''
   | _ \<Rightarrow> ''IBV_WC_UNKNOWN'')"

text \<open>The peer's pool arrives in the initial message; from then on the transport is connected.\<close>

definition hmp_handle_mr_msg :: "ptr \<Rightarrow> hmp_msg \<Rightarrow> sys \<Rightarrow> sys option" where
  "hmp_handle_mr_msg rdma_trans msg s = do {
     t \<leftarrow> load (transports s) rdma_trans;
     let i = trans_node_id t;
     a \<leftarrow> read_u64 (mem s) (msg_data msg);
     c \<leftarrow> upd_info (\<lambda>n. n\<lparr>dram_mr := (dram_mr n)\<lparr>mri_addr := a\<rparr>\<rparr>) i (config (curnode s));
     l \<leftarrow> read_u64 (mem s) (msg_data msg + 8);
     c \<leftarrow> upd_info (\<lambda>n. n\<lparr>dram_mr := (dram_mr n)\<lparr>mri_length := l\<rparr>\<rparr>) i c;
     k \<leftarrow> read_u32 (mem s) (msg_data msg + 8 + 8);
     c \<leftarrow> upd_info (\<lambda>n. n\<lparr>dram_mr := (dram_mr n)\<lparr>mri_rkey := k\<rparr>\<rparr>) i c;
     let s = INFO_LOG ''node_id %d addr %p length %d rkey %ld''
       (upd_curnode (\<lambda>n. n\<lparr>config := c\<rparr>) s);
     upd_trans (\<lambda>t. t\<lparr>trans_state := HMP_TRANSPORT_STATE_CONNECTED\<rparr>) rdma_trans s }"

definition read_msg :: "ptr \<Rightarrow> bytes \<Rightarrow> hmp_msg option" where
  "read_msg addr h = do {
     ty \<leftarrow> read_u32 h addr;
     sz \<leftarrow> read_u32 h (addr + 4);
     Some \<lparr>msg_type = ty, msg_data_size = sint sz, msg_data = addr + 4 + 4\<rparr> }"

definition hmp_wc_success_handler :: "ibv_wc \<Rightarrow> sys \<Rightarrow> sys option" where
  "hmp_wc_success_handler wc s = do {
     let task = wc_wr_id wc;
     t \<leftarrow> load (tasks s) task;
     let rdma_trans = task_rdma_trans t;
     msg \<leftarrow> (if wc_opcode wc = IBV_WC_SEND \<or> wc_opcode wc = IBV_WC_RECV
       then map_option Some (read_msg (sge_addr (task_sge t)) (mem s)) else Some None);
     case wc_opcode wc of
       IBV_WC_SEND \<Rightarrow> Some s
     | IBV_WC_RECV \<Rightarrow> (case msg of
           Some msg \<Rightarrow> if msg_type msg = msg_type_code HMP_MSG_INIT
             then hmp_handle_mr_msg rdma_trans msg s else Some s
         | None \<Rightarrow> Some s)
     | IBV_WC_RDMA_WRITE \<Rightarrow> Some s
     | IBV_WC_RDMA_READ \<Rightarrow> upd_task (\<lambda>t. t\<lparr>task_type := HMP_TASK_DONE\<rparr>) task s
     | IBV_WC_RECV_RDMA_WITH_IMM \<Rightarrow> Some s
     | _ \<Rightarrow> Some (ERROR_LOG (''unknown opcode:'' @ hmp_ibv_wc_opcode_str (wc_opcode wc)) s) }"

definition hmp_wc_error_handler :: "ibv_wc \<Rightarrow> sys \<Rightarrow> sys" where
  "hmp_wc_error_handler wc s =
     (if wc_status wc = IBV_WC_WR_FLUSH_ERR then INFO_LOG ''work request flush error.'' s
      else ERROR_LOG ''wc status [%s] is error.'' s)"

definition handle_wc :: "ibv_wc \<Rightarrow> sys \<Rightarrow> sys option" where
  "handle_wc wc s = (if wc_status wc = IBV_WC_SUCCESS then hmp_wc_success_handler wc s
     else Some (hmp_wc_error_handler wc s))"

text \<open>
  The loop over \<open>ibv_poll_cq\<close>. It goes on for every result but 0, also for a negative one,
  with what is then in \<open>wc\<close>.
\<close>

definition poll_loop :: "env \<Rightarrow> ptr \<Rightarrow> sys \<Rightarrow> sys option" where
  "poll_loop E cq s = loop (\<lambda>s. let
     wc = e_wc E s;
     (n, s) = int_call E (Verbs (Poll_cq cq)) s
     in if n = 0 then Some (Inr s)
        else do { s \<leftarrow> handle_wc wc s; Some (Inl s) }) s"

definition hmp_cq_comp_channel_handler :: "env \<Rightarrow> int \<Rightarrow> ptr \<Rightarrow> sys \<Rightarrow> sys option" where
  "hmp_cq_comp_channel_handler E fd data s = do {
     h \<leftarrow> load (hcqs s) data;
     let (err, s) = int_call E (Verbs (Get_cq_event (hcq_comp_channel h))) s;
     if err \<noteq> 0 then Some (ERROR_LOG ''ibv get cq event error.'' s)
     else do {
       let s = record_call (Verbs (Ack_cq_events (hcq_cq h) 1)) s;
       let (err, s) = int_call E (Verbs (Req_notify_cq (hcq_cq h))) s;
       if err \<noteq> 0 then Some (ERROR_LOG ''ibv req notify cq error.'' s)
       else poll_loop E (hcq_cq h) s } }"

section \<open>Completion queues\<close>

definition cleanhcq :: "ptr \<Rightarrow> sys \<Rightarrow> (ptr \<times> sys) option" where
  "cleanhcq hcq s = do { s \<leftarrow> free_hcq hcq s; Some (NULL, s) }"

definition cleanchannel :: "ptr \<Rightarrow> sys \<Rightarrow> (ptr \<times> sys) option" where
  "cleanchannel hcq s = do {
     h \<leftarrow> load (hcqs s) hcq;
     cleanhcq hcq (ibv_destroy_comp_channel (hcq_comp_channel h) s) }"

definition cleaneventfd :: "env \<Rightarrow> ptr \<Rightarrow> ptr \<Rightarrow> sys \<Rightarrow> (ptr \<times> sys) option" where
  "cleaneventfd E ctx hcq s = do {
     h \<leftarrow> load (hcqs s) hcq;
     fd \<leftarrow> load (chan_fds s) (hcq_comp_channel h);
     (_, s) \<leftarrow> hmp_context_del_event_fd E ctx fd s;
     cleanchannel hcq s }"

definition hmp_cq_get :: "env \<Rightarrow> ptr \<Rightarrow> ptr \<Rightarrow> sys \<Rightarrow> (ptr \<times> sys) option" where
  "hmp_cq_get E device ctx s = (let (hcq, s) = calloc_hcq E s in
     if hcq = NULL then Some (NULL, ERROR_LOG ''allocate the memory of struct hmp_cq error.'' s)
     else do {
       d \<leftarrow> load (devices s) device;
       let (chan, s) = ibv_create_comp_channel E (dev_verbs d) s;
       s \<leftarrow> upd_hcq (\<lambda>h. h\<lparr>hcq_comp_channel := chan\<rparr>) hcq s;
       if chan = NULL then cleanhcq hcq (ERROR_LOG ''rdma device %p create comp channel error.'' s)
       else do {
         fd \<leftarrow> load (chan_fds s) chan;
         let (flags, s) = set_nonblock E fd s;
         if flags = - 1 then cleanchannel hcq (ERROR_LOG ''set hcq comp channel fd nonblock error.'' s)
         else do {
           s \<leftarrow> upd_hcq (\<lambda>h. h\<lparr>hcq_ctx := ctx\<rparr>) hcq s;
           (retval, s) \<leftarrow> hmp_context_add_event_fd E ctx EPOLLIN fd hcq CQ_COMP_CHANNEL_HANDLER s;
           if retval \<noteq> 0 then cleanchannel hcq (ERROR_LOG ''context add comp channel fd error.'' s)
           else do {
             d \<leftarrow> load (devices s) device;
             let alloc_size = min CQE_ALLOC_SIZE (max_cqe (device_attr d));
             let (cq, s) = ptr_call E (Verbs (Create_cq (dev_verbs d) alloc_size hcq chan)) s;
             s \<leftarrow> upd_hcq (\<lambda>h. h\<lparr>hcq_cq := cq\<rparr>) hcq s;
             if cq = NULL then cleaneventfd E ctx hcq (ERROR_LOG ''ibv create cq error.'' s)
             else do {
               let (retval, s) = int_call E (Verbs (Req_notify_cq cq)) s;
               if retval \<noteq> 0 then cleaneventfd E ctx hcq (ERROR_LOG ''ibv req notify cq error.'' s)
               else do {
                 s \<leftarrow> upd_hcq (\<lambda>h. h\<lparr>hcq_device := device\<rparr>) hcq s;
                 Some (hcq, s) } } } } } })"

section \<open>Queue pairs\<close>

definition qp_attr :: "ptr \<Rightarrow> ptr \<Rightarrow> hmp_device \<Rightarrow> ibv_qp_init_attr" where
  "qp_attr rdma_trans cq d = \<lparr>qp_context = rdma_trans, send_cq = cq, recv_cq = cq, srq = NULL,
     qp_cap = \<lparr>max_send_wr = MAX_SEND_WR, max_recv_wr = MAX_RECV_WR,
       max_send_sge = word_of_int (min (max_sge (device_attr d)) MAX_SEND_SGE),
       max_recv_sge = 1, max_inline_data = 0\<rparr>,
     qp_type = IBV_QPT_RC, sq_sig_all = 0\<rparr>"

definition hmp_qp_create :: "env \<Rightarrow> ptr \<Rightarrow> sys \<Rightarrow> (int \<times> sys) option" where
  "hmp_qp_create E rdma_trans s = do {
     t \<leftarrow> load (transports s) rdma_trans;
     (hcq, s) \<leftarrow> hmp_cq_get E (trans_device t) (trans_ctx t) s;
     if hcq = NULL then Some (- 1, ERROR_LOG ''hmr cq get error.'' s)
     else do {
       h \<leftarrow> load (hcqs s) hcq;
       d \<leftarrow> load (devices s) (trans_device t);
       (retval, s) \<leftarrow> rdma_create_qp E (trans_cm_id t) (dev_pd d) (qp_attr rdma_trans (hcq_cq h) d) s;
       if retval \<noteq> 0 then do {
         s \<leftarrow> free_hcq hcq (ERROR_LOG ''rdma create qp error.'' s);
         Some (retval, s) }
       else do {
         i \<leftarrow> load (cm_ids s) (trans_cm_id t);
         s \<leftarrow> upd_trans (\<lambda>t. t\<lparr>trans_qp := id_qp i\<rparr>) rdma_trans s;
         s \<leftarrow> upd_trans (\<lambda>t. t\<lparr>trans_hcq := hcq\<rparr>) rdma_trans s;
         Some (retval, s) } } }"

definition hmp_qp_release :: "env \<Rightarrow> ptr \<Rightarrow> sys \<Rightarrow> sys option" where
  "hmp_qp_release E rdma_trans s = do {
     t \<leftarrow> load (transports s) rdma_trans;
     if trans_qp t \<noteq> NULL then do {
       let s = record_call (Verbs (Destroy_qp (trans_qp t))) s;
       h \<leftarrow> load (hcqs s) (trans_hcq t);
       let s = record_call (Verbs (Destroy_cq (hcq_cq h))) s;
       fd \<leftarrow> load (chan_fds s) (hcq_comp_channel h);
       (_, s) \<leftarrow> hmp_context_del_event_fd E (trans_ctx t) fd s;
       s \<leftarrow> free_hcq (trans_hcq t) s;
       upd_trans (\<lambda>t. t\<lparr>trans_hcq := NULL\<rparr>) rdma_trans s }
     else Some s }"

end
