(* ===== verification/Hmp_Transport.thy ===== *)
theory Hmp_Transport
  imports Hmp_Device Hmp_Cq
begin

text \<open>
  \<open>src/hmp_transport.c\<close>, the connections: transports, the handlers of the connection manager's
  events, and the function that the event loop calls for each of the two kinds of channel.
\<close>

section \<open>Calls of the connection manager\<close>

definition rdma_create_event_channel :: "env \<Rightarrow> sys \<Rightarrow> ptr \<times> sys" where
  "rdma_create_event_channel E s = (let
     fd = e_int E s (Cm Create_event_channel);
     (p, s) = ptr_call E (Cm Create_event_channel) s
     in (p, if p = NULL then s else s\<lparr>chan_fds := (chan_fds s)(p \<mapsto> fd)\<rparr>))"

definition rdma_destroy_event_channel :: "ptr \<Rightarrow> sys \<Rightarrow> sys" where
  "rdma_destroy_event_channel p s =
     record_call (Cm (Destroy_event_channel p)) (s\<lparr>chan_fds := (chan_fds s)(p := None)\<rparr>)"

text \<open>A new identifier, with its context, goes to the transport's field on success.\<close>

definition zero_cm_id :: rdma_cm_id where
  "zero_cm_id = \<lparr>id_verbs = NULL, id_context = NULL, id_qp = NULL,
     id_src_sin = zero_sockaddr, id_dst_sin = zero_sockaddr\<rparr>"

definition rdma_create_id :: "env \<Rightarrow> ptr \<Rightarrow> ptr \<Rightarrow> sys \<Rightarrow> (int \<times> sys) option" where
  "rdma_create_id E channel rdma_trans s = (let
     c = Cm (Create_id channel rdma_trans);
     i = e_ptr E s c;
     (r, s) = int_call E c s
     in if r = 0
        then upd_trans (\<lambda>t. t\<lparr>trans_cm_id := i\<rparr>) rdma_trans
               (s\<lparr>cm_ids := (cm_ids s)(i \<mapsto> zero_cm_id\<lparr>id_context := rdma_trans\<rparr>)\<rparr>)
             \<bind> (\<lambda>s. Some (r, s))
        else Some (r, s))"

definition rdma_destroy_id :: "ptr \<Rightarrow> sys \<Rightarrow> sys option" where
  "rdma_destroy_id i s = do {
     _ \<leftarrow> load (cm_ids s) i;
     Some (record_call (Cm (Destroy_id i)) (s\<lparr>cm_ids := (cm_ids s)(i := None)\<rparr>)) }"

definition rdma_destroy_qp :: "ptr \<Rightarrow> sys \<Rightarrow> sys option" where
  "rdma_destroy_qp i s = upd_cm_id (\<lambda>v. v\<lparr>id_qp := NULL\<rparr>) i (record_call (Cm (Rdma_destroy_qp i)) s)"

text \<open>The next event, and the identifier it belongs to as the library left it.\<close>

definition rdma_get_cm_event :: "env \<Rightarrow> ptr \<Rightarrow> sys \<Rightarrow> int \<times> rdma_cm_event \<times> sys" where
  "rdma_get_cm_event E ec s = (let
     ev = e_cm_event E s;
     i = e_cm_id E s;
     (r, s) = int_call E (Cm (Get_cm_event ec)) s
     in (r, ev, if r = 0 then s\<lparr>cm_ids := (cm_ids s)(ev_id ev \<mapsto> i)\<rparr> else s))"

section \<open>Creation of a transport\<close>

definition cleanec :: "ptr \<Rightarrow> int \<Rightarrow> sys \<Rightarrow> (int \<times> sys) option" where
  "cleanec rdma_trans retval s = do {
     t \<leftarrow> load (transports s) rdma_trans;
     Some (retval, rdma_destroy_event_channel (event_channel t) s) }"

text \<open>The result of the registration with the event loop is not looked at.\<close>

definition hmp_event_channel_create :: "env \<Rightarrow> ptr \<Rightarrow> sys \<Rightarrow> (int \<times> sys) option" where
  "hmp_event_channel_create E rdma_trans s = (let
     (ec, s) = rdma_create_event_channel E s
     in do {
       s \<leftarrow> upd_trans (\<lambda>t. t\<lparr>event_channel := ec\<rparr>) rdma_trans s;
       if ec = NULL then Some (- 1, ERROR_LOG ''rdma create event channel error.'' s)
       else do {
         fd \<leftarrow> load (chan_fds s) ec;
         let (flags, s) = set_nonblock E fd s;
         if flags = - 1
         then cleanec rdma_trans (- 1) (ERROR_LOG ''set event channel nonblock error.'' s)
         else do {
           t \<leftarrow> load (transports s) rdma_trans;
           (_, s) \<leftarrow> hmp_context_add_event_fd E (trans_ctx t) EPOLLIN fd ec EVENT_CHANNEL_HANDLER s;
           Some (0, s) } } })"

definition hmp_transport_create :: "env \<Rightarrow> ptr \<Rightarrow> ptr \<Rightarrow> sys \<Rightarrow> (ptr \<times> sys) option" where
  "hmp_transport_create E node ctx s = (let (rdma_trans, s) = calloc_transport E s in
     if rdma_trans = NULL then Some (NULL, ERROR_LOG ''allocate memory error.'' s)
     else do {
       s \<leftarrow> upd_trans (\<lambda>t. t\<lparr>trans_state := HMP_TRANSPORT_STATE_INIT\<rparr>) rdma_trans s;
       s \<leftarrow> upd_trans (\<lambda>t. t\<lparr>trans_ctx := ctx\<rparr>) rdma_trans s;
       s \<leftarrow> upd_trans (\<lambda>t. t\<lparr>nodeptr := node\<rparr>) rdma_trans s;
       (err, s) \<leftarrow> hmp_event_channel_create E rdma_trans s;
       if err \<noteq> 0 then do {
         s \<leftarrow> free_transport rdma_trans (ERROR_LOG ''hmp event channel create error.'' s);
         Some (NULL, s) }
       else Some (rdma_trans, s) })"

section \<open>Listening and connecting\<close>

definition cleanid :: "ptr \<Rightarrow> int \<Rightarrow> sys \<Rightarrow> (int \<times> sys) option" where
  "cleanid rdma_trans retval s = do {
     t \<leftarrow> load (transports s) rdma_trans;
     s \<leftarrow> rdma_destroy_id (trans_cm_id t) s;
     s \<leftarrow> upd_trans (\<lambda>t. t\<lparr>trans_cm_id := NULL\<rparr>) rdma_trans s;
     Some (retval, s) }"

definition hmp_transport_listen :: "env \<Rightarrow> ptr \<Rightarrow> int \<Rightarrow> sys \<Rightarrow> (int \<times> sys) option" where
  "hmp_transport_listen E rdma_trans port s = do {
     t \<leftarrow> load (transports s) rdma_trans;
     (retval, s) \<leftarrow> rdma_create_id E (event_channel t) rdma_trans s;
     if retval \<noteq> 0 then Some (retval, ERROR_LOG ''rdma create id error.'' s)
     else do {
       let addr = zero_sockaddr\<lparr>sin_family := AF_INET, sin_port := htons port\<rparr>;
       t \<leftarrow> load (transports s) rdma_trans;
       let (retval, s) = int_call E (Cm (Bind_addr (trans_cm_id t) addr)) s;
       if retval \<noteq> 0 then cleanid rdma_trans retval (ERROR_LOG ''rdma bind addr error.'' s)
       else do {
         let (retval, s) = int_call E (Cm (Listen (trans_cm_id t) 10)) s;
         if retval \<noteq> 0 then cleanid rdma_trans retval (ERROR_LOG ''rdma listen error.'' s)
         else do {
           s \<leftarrow> upd_trans (\<lambda>t. t\<lparr>trans_state := HMP_TRANSPORT_STATE_LISTEN\<rparr>) rdma_trans s;
           Some (retval, INFO_LOG ''rdma listening on port %d'' s) } } } }"

text \<open>The result of \<open>inet_pton\<close> is the result: 1 for an address, 0 for a text that is none.\<close>

definition hmp_port_uri_init :: "env \<Rightarrow> ptr \<Rightarrow> string \<Rightarrow> int \<Rightarrow> sys \<Rightarrow> (int \<times> sys) option" where
  "hmp_port_uri_init E rdma_trans url port s = (let
     a = e_sin_addr E s;
     (retval, s) = int_call E (Os (Inet_pton url)) s
     in if retval \<le> 0 then Some (retval, ERROR_LOG ''IP Transfer Error.'' s)
        else do {
          s \<leftarrow> upd_trans (\<lambda>t. t\<lparr>peer_addr :=
            \<lparr>sin_family = AF_INET, sin_port = htons port, sin_addr = a\<rparr>\<rparr>) rdma_trans s;
          Some (retval, s) })"

text \<open>The \<open>url\<close> the callers pass is an array, never NULL.\<close>

definition hmp_transport_connect :: "env \<Rightarrow> ptr \<Rightarrow> string \<Rightarrow> int \<Rightarrow> sys \<Rightarrow> (int \<times> sys) option" where
  "hmp_transport_connect E rdma_trans url port s =
     (if port = 0 then Some (- 1, ERROR_LOG ''Url or port input error.'' s)
      else do {
        (retval, s) \<leftarrow> hmp_port_uri_init E rdma_trans url port s;
        if retval < 0 then Some (retval, ERROR_LOG ''rdma init port uri error.'' s)
        else do {
          t \<leftarrow> load (transports s) rdma_trans;
          (retval, s) \<leftarrow> rdma_create_id E (event_channel t) rdma_trans s;
          if retval \<noteq> 0 then do {
            s \<leftarrow> upd_trans (\<lambda>t. t\<lparr>trans_cm_id := NULL\<rparr>) rdma_trans (ERROR_LOG ''rdma create id error.'' s);
            Some (retval, s) }
          else do {
            t \<leftarrow> load (transports s) rdma_trans;
            let (retval, s) = int_call E
              (Cm (Resolve_addr (trans_cm_id t) (peer_addr t) ADDR_RESOLVE_TIMEOUT)) s;
            if retval \<noteq> 0
            then cleanid rdma_trans retval (ERROR_LOG ''RDMA Device resolve addr error.'' s)
            else do {
              s \<leftarrow> upd_trans (\<lambda>t. t\<lparr>trans_state := HMP_TRANSPORT_STATE_CONNECTING\<rparr>) rdma_trans s;
              Some (retval, s) } } } })"

section \<open>Events\<close>

definition on_cm_addr_resolved :: "env \<Rightarrow> rdma_cm_event \<Rightarrow> ptr \<Rightarrow> sys \<Rightarrow> (int \<times> sys) option" where
  "on_cm_addr_resolved E event rdma_trans s = do {
     t \<leftarrow> load (transports s) rdma_trans;
     i \<leftarrow> load (cm_ids s) (trans_cm_id t);
     dev \<leftarrow> hmp_device_lookup E (nodeptr t) (id_verbs i) s;
     s \<leftarrow> upd_trans (\<lambda>t. t\<lparr>trans_device := dev\<rparr>) rdma_trans s;
     if dev = NULL then Some (- 1, ERROR_LOG ''not found the hmr device.'' s)
     else do {
       let (retval, s) = int_call E (Cm (Resolve_route (trans_cm_id t) ROUTE_RESOLVE_TIMEOUT)) s;
       Some (retval, if retval \<noteq> 0 then ERROR_LOG ''RDMA resolve route error.'' s else s) } }"

text \<open>The transport fails: the thread of its context is told to stop.\<close>

definition fail_transport :: "ptr \<Rightarrow> sys \<Rightarrow> sys option" where
  "fail_transport rdma_trans s = do {
     t \<leftarrow> load (transports s) rdma_trans;
     s \<leftarrow> upd_context (\<lambda>c. c\<lparr>ctx_stop := 1\<rparr>) (trans_ctx t) s;
     upd_trans (\<lambda>t. t\<lparr>trans_state := HMP_TRANSPORT_STATE_ERROR\<rparr>) rdma_trans s }"

definition connect_param :: rdma_conn_param where
  "connect_param = conn_param_zero
     \<lparr>retry_count := 3, rnr_retry_count := 7, responder_resources := 1, initiator_depth := 1\<rparr>"

definition on_cm_route_resolved :: "env \<Rightarrow> rdma_cm_event \<Rightarrow> ptr \<Rightarrow> sys \<Rightarrow> (int \<times> sys) option" where
  "on_cm_route_resolved E event rdma_trans s = do {
     (retval, s) \<leftarrow> hmp_qp_create E rdma_trans s;
     if retval \<noteq> 0 then Some (retval, ERROR_LOG ''hmr qp create error.'' s)
     else do {
       s \<leftarrow> hmp_pre_post_recv E rdma_trans s;
       let s = INFO_LOG ''RDMA Connect.'' s;
       t \<leftarrow> load (transports s) rdma_trans;
       let (retval, s) = int_call E (Cm (Connect (trans_cm_id t) connect_param)) s;
       if retval \<noteq> 0 then do {
         s \<leftarrow> hmp_qp_release E rdma_trans (ERROR_LOG ''rdma connect error.'' s);
         s \<leftarrow> fail_transport rdma_trans s;
         Some (retval, s) }
       else Some (retval, s) } }"

text \<open>The slots of the transport to node \<open>i\<close>: four of them, at the start of the pool.\<close>

definition set_region :: "ptr \<Rightarrow> int \<Rightarrow> sys \<Rightarrow> sys option" where
  "set_region rdma_trans i s = do {
     s \<leftarrow> upd_trans (\<lambda>t. t\<lparr>region := (region t)\<lparr>cur_recv := 0\<rparr>\<rparr>) rdma_trans s;
     m \<leftarrow> load (mempools s) (dram_mempool (curnode s));
     let a = base_addr m + word_of_int (i * 4 * int HMP_TASK_SIZE);
     s \<leftarrow> upd_trans (\<lambda>t. t\<lparr>region := (region t)\<lparr>send_addr := a\<rparr>\<rparr>) rdma_trans s;
     upd_trans (\<lambda>t. t\<lparr>region := (region t)\<lparr>recv_addr :=
       send_addr (region t) + word_of_int (int HMP_TASK_SIZE)\<rparr>\<rparr>) rdma_trans s }"

text \<open>The search for the peer among the nodes before this one.\<close>

fun assign_peer :: "nat \<Rightarrow> nat \<Rightarrow> string \<Rightarrow> ptr \<Rightarrow> sys \<Rightarrow> sys option" where
  "assign_peer 0 i peer new_trans s = Some s"
| "assign_peer (Suc n) i peer new_trans s = do {
     info \<leftarrow> get_info (int i) s;
     if ni_addr info = peer then do {
       s \<leftarrow> set_connect_trans (int i) new_trans (INFO_LOG ''find addr trans %d %s'' s);
       s \<leftarrow> upd_trans (\<lambda>t. t\<lparr>trans_node_id := int i\<rparr>) new_trans s;
       set_region new_trans (int i) s }
     else assign_peer n (Suc i) peer new_trans s }"

definition on_cm_connect_request :: "env \<Rightarrow> rdma_cm_event \<Rightarrow> ptr \<Rightarrow> sys \<Rightarrow> (int \<times> sys) option" where
  "on_cm_connect_request E event rdma_trans s = do {
     let s = INFO_LOG ''event id %p rdma_trans cm_id %p event_listenid %p'' s;
     t \<leftarrow> load (transports s) rdma_trans;
     (new_trans, s) \<leftarrow> hmp_transport_create E (nodeptr t) (trans_ctx t) s;
     if new_trans = NULL
     then Some (- 1, ERROR_LOG ''rdma trans process connect request error.'' s)
     else do {
       s \<leftarrow> upd_trans (\<lambda>t. t\<lparr>trans_cm_id := ev_id event\<rparr>) new_trans s;
       s \<leftarrow> upd_cm_id (\<lambda>i. i\<lparr>id_context := new_trans\<rparr>) (ev_id event) s;
       nt \<leftarrow> load (transports s) new_trans;
       i \<leftarrow> load (cm_ids s) (ev_id event);
       dev \<leftarrow> hmp_device_lookup E (nodeptr nt) (id_verbs i) s;
       s \<leftarrow> upd_trans (\<lambda>t. t\<lparr>trans_device := dev\<rparr>) new_trans s;
       if dev = NULL then Some (- 1, ERROR_LOG ''can't find the rdma device.'' s)
       else do {
         (retval, s) \<leftarrow> hmp_qp_create E new_trans s;
         if retval \<noteq> 0 then Some (retval, ERROR_LOG ''hmp qp create error.'' s)
         else do {
           i \<leftarrow> load (cm_ids s) (ev_id event);
           let peer = e_ntoa E (sin_addr (id_dst_sin i));
           s \<leftarrow> assign_peer (nat (curnode_id (config (curnode s)))) 0 peer new_trans s;
           s \<leftarrow> hmp_pre_post_recv E new_trans s;
           nt \<leftarrow> load (transports s) new_trans;
           let (retval, s) = int_call E (Cm (Accept (trans_cm_id nt) conn_param_zero)) s;
           if retval \<noteq> 0 then Some (- 1, ERROR_LOG ''rdma accept error.'' s)
           else do {
             s \<leftarrow> upd_trans (\<lambda>t. t\<lparr>trans_state := HMP_TRANSPORT_STATE_CONNECTING\<rparr>) new_trans s;
             Some (retval, s) } } } } }"

text \<open>The initial message: address, length and remote key of the pool, 20 bytes.\<close>

definition INIT_MSG_SIZE :: nat where
  "INIT_MSG_SIZE = 20"

definition hmp_build_init_msg :: "env \<Rightarrow> sys \<Rightarrow> (hmp_msg \<times> sys) option" where
  "hmp_build_init_msg E s = (let (data, s) = malloc_block E INIT_MSG_SIZE s in do {
     m \<leftarrow> load (mempools s) (dram_mempool (curnode s));
     s \<leftarrow> with_mem (\<lambda>h. write_bytes h data (to_le 8 (base_addr m))) s;
     r \<leftarrow> load (mrs s) (pool_mr m);
     s \<leftarrow> with_mem (\<lambda>h. write_bytes h (data + 8) (to_le 8 (mr_length r))) s;
     s \<leftarrow> with_mem (\<lambda>h. write_bytes h (data + 8 + 8) (to_le 4 (mr_rkey r))) s;
     Some (\<lparr>msg_type = msg_type_code HMP_MSG_INIT, msg_data_size = int INIT_MSG_SIZE,
       msg_data = data\<rparr>, s) })"

definition on_cm_established :: "env \<Rightarrow> rdma_cm_event \<Rightarrow> ptr \<Rightarrow> sys \<Rightarrow> (int \<times> sys) option" where
  "on_cm_established E event rdma_trans s = do {
     t \<leftarrow> load (transports s) rdma_trans;
     i \<leftarrow> load (cm_ids s) (trans_cm_id t);
     s \<leftarrow> upd_trans (\<lambda>t. t\<lparr>local_addr := id_src_sin i\<rparr>) rdma_trans s;
     s \<leftarrow> upd_trans (\<lambda>t. t\<lparr>peer_addr := id_dst_sin i\<rparr>) rdma_trans s;
     (msg, s) \<leftarrow> hmp_build_init_msg E s;
     s \<leftarrow> hmp_post_send E rdma_trans msg s;
     Some (0, s) }"

definition on_cm_disconnected :: "env \<Rightarrow> rdma_cm_event \<Rightarrow> ptr \<Rightarrow> sys \<Rightarrow> (int \<times> sys) option" where
  "on_cm_disconnected E event rdma_trans s = do {
     t \<leftarrow> load (transports s) rdma_trans;
     s \<leftarrow> rdma_destroy_qp (trans_cm_id t) s;
     h \<leftarrow> load (hcqs s) (trans_hcq t);
     fd \<leftarrow> load (chan_fds s) (hcq_comp_channel h);
     (_, s) \<leftarrow> hmp_context_del_event_fd E (trans_ctx t) fd s;
     fd \<leftarrow> load (chan_fds s) (event_channel t);
     (_, s) \<leftarrow> hmp_context_del_event_fd E (trans_ctx t) fd s;
     Some (0, INFO_LOG ''rdma disconnected success.'' s) }"

text \<open>The case of \<open>CONNECT_ERROR\<close> falls through to the default.\<close>

definition hmp_handle_ec_event :: "env \<Rightarrow> rdma_cm_event \<Rightarrow> sys \<Rightarrow> (int \<times> sys) option" where
  "hmp_handle_ec_event E event s = do {
     i \<leftarrow> load (cm_ids s) (ev_id event);
     let rdma_trans = id_context i;
     let s = INFO_LOG ''cm event [%s],status:%d'' s;
     case ev_event event of
       RDMA_CM_EVENT_ADDR_RESOLVED \<Rightarrow> on_cm_addr_resolved E event rdma_trans s
     | RDMA_CM_EVENT_ROUTE_RESOLVED \<Rightarrow> on_cm_route_resolved E event rdma_trans s
     | RDMA_CM_EVENT_CONNECT_REQUEST \<Rightarrow> on_cm_connect_request E event rdma_trans s
     | RDMA_CM_EVENT_ESTABLISHED \<Rightarrow> on_cm_established E event rdma_trans s
     | RDMA_CM_EVENT_DISCONNECTED \<Rightarrow> on_cm_disconnected E event rdma_trans s
     | RDMA_CM_EVENT_CONNECT_ERROR \<Rightarrow> do { s \<leftarrow> fail_transport rdma_trans s; Some (- 1, s) }
     | _ \<Rightarrow> Some (- 1, s) }"

definition EAGAIN :: int where
  "EAGAIN = 11"

text \<open>The loop over the channel's events ends when there is none, or when one fails.\<close>

definition hmp_event_channel_handler :: "env \<Rightarrow> int \<Rightarrow> ptr \<Rightarrow> sys \<Rightarrow> sys option" where
  "hmp_event_channel_handler E fd data s = loop (\<lambda>s. let
     errno = e_errno E s;
     (retval, event, s) = rdma_get_cm_event E data s
     in if retval = 0 then do {
          let s = record_call (Cm Ack_cm_event) s;
          (r, s) \<leftarrow> hmp_handle_ec_event E event s;
          Some (if r \<noteq> 0 then Inr s else Inl s) }
        else Some (Inr (if errno \<noteq> EAGAIN then ERROR_LOG ''rdma get cm event error.'' s else s))) s"

text \<open>The call of a registered handler by the event loop.\<close>

definition call_handler :: "env \<Rightarrow> dispatch" where
  "call_handler E h fd data s = (case h of
     CQ_COMP_CHANNEL_HANDLER \<Rightarrow> hmp_cq_comp_channel_handler E fd data s
   | EVENT_CHANNEL_HANDLER \<Rightarrow> hmp_event_channel_handler E fd data s)"

end
