(* ===== verification/Hmp_Access.thy ===== *)
theory Hmp_Access
  imports Hmp_Transport Hmp_Mem
begin

text \<open>
  Remote memory: \<open>hmp_rdma_read\<close> and \<open>hmp_rdma_write\<close> of \<open>src/hmp_transport.c\<close>, and \<open>hmp_read\<close> and
  \<open>hmp_write\<close> of \<open>src/hmp_mem.c\<close> on top of them. These run in the caller's thread and wait for
  the thread of the event loop by looking at a field until it changes. What that thread does
  between two looks is a parameter, \<open>W\<close>; \<open>event_thread\<close> is the thread of this program.
\<close>

definition event_thread :: "env \<Rightarrow> sys \<Rightarrow> sys option" where
  "event_thread E s = map_option snd (context_turn E (call_handler E) (node_ctx (curnode s)) s)"

section \<open>Waiting\<close>

definition await :: "(sys \<Rightarrow> sys option) \<Rightarrow> (sys \<Rightarrow> bool option) \<Rightarrow> sys \<Rightarrow> sys option" where
  "await W busy s = loop (\<lambda>s. do {
     b \<leftarrow> busy s;
     if b then do { s \<leftarrow> W s; Some (Inl s) } else Some (Inr s) }) s"

definition hmp_transport_check_state ::
  "(sys \<Rightarrow> sys option) \<Rightarrow> ptr \<Rightarrow> sys \<Rightarrow> (int \<times> sys) option" where
  "hmp_transport_check_state W rdma_trans s = do {
     s \<leftarrow> await W (\<lambda>s. do {
       t \<leftarrow> load (transports s) rdma_trans;
       Some (trans_state t < HMP_TRANSPORT_STATE_CONNECTED) }) s;
     t \<leftarrow> load (transports s) rdma_trans;
     if trans_state t > HMP_TRANSPORT_STATE_CONNECTED
     then Some (- 1, ERROR_LOG ''rdma transport exits error.'' s)
     else Some (0, s) }"

section \<open>One-sided operations\<close>

definition rdma_wr :: "ptr \<Rightarrow> hmp_task \<Rightarrow> ibv_wr_opcode \<Rightarrow> ptr \<Rightarrow> 32 word \<Rightarrow> ibv_send_wr" where
  "rdma_wr task t opcode remote_addr rkey = \<lparr>swr_wr_id = task, swr_sge = task_ibv_sge t,
     swr_num_sge = 1, swr_opcode = opcode, swr_send_flags = IBV_SEND_SIGNALED,
     swr_remote_addr = remote_addr, swr_rkey = rkey\<rparr>"

definition hmp_rdma_write ::
  "env \<Rightarrow> (sys \<Rightarrow> sys option) \<Rightarrow> ptr \<Rightarrow> ptr \<Rightarrow> ptr \<Rightarrow> int \<Rightarrow> sys \<Rightarrow> sys option" where
  "hmp_rdma_write E W rdma_trans laddr raddr len s = do {
     (r, s) \<leftarrow> hmp_transport_check_state W rdma_trans s;
     if r = - 1 then Some s
     else do {
       (task, s) \<leftarrow> hmp_write_task_create E rdma_trans laddr len True s;
       if task = NULL then Some (ERROR_LOG ''write task create error.'' s)
       else do {
         t \<leftarrow> load (tasks s) task;
         tr \<leftarrow> load (transports s) rdma_trans;
         info \<leftarrow> get_info (trans_node_id tr) s;
         let (err, s) = int_call E (Verbs (Post_send (trans_qp tr)
           (rdma_wr task t IBV_WR_RDMA_WRITE raddr (mri_rkey (dram_mr info))))) s;
         Some (if err \<noteq> 0 then ERROR_LOG ''ibv_post_send error.'' s else s) } } }"

definition hmp_rdma_read ::
  "env \<Rightarrow> (sys \<Rightarrow> sys option) \<Rightarrow> ptr \<Rightarrow> ptr \<Rightarrow> ptr \<Rightarrow> int \<Rightarrow> sys \<Rightarrow> sys option" where
  "hmp_rdma_read E W rdma_trans laddr raddr len s = do {
     (r, s) \<leftarrow> hmp_transport_check_state W rdma_trans s;
     if r = - 1 then Some s
     else do {
       (task, s) \<leftarrow> hmp_read_task_create E rdma_trans laddr len True s;
       if task = NULL then Some (ERROR_LOG ''create task error.'' s)
       else do {
         t \<leftarrow> load (tasks s) task;
         tr \<leftarrow> load (transports s) rdma_trans;
         info \<leftarrow> get_info (trans_node_id tr) s;
         let (err, s) = int_call E (Verbs (Post_send (trans_qp tr)
           (rdma_wr task t IBV_WR_RDMA_READ raddr (mri_rkey (dram_mr info))))) s;
         let s = (if err \<noteq> 0 then ERROR_LOG ''ibv_post_send error'' s else s);
         s \<leftarrow> await W (\<lambda>s. do {
           t \<leftarrow> load (tasks s) task;
           Some (task_type t \<noteq> HMP_TASK_DONE) }) s;
         Some (INFO_LOG ''read content is %s'' s) } } }"

section \<open>Hybrid memory\<close>

text \<open>
  The length is cut to an unsigned 64-bit number by \<open>memcpy\<close>; on a node's own memory the
  address that is left of the hybrid one is used as it is.
\<close>

definition local_copy :: "ptr \<Rightarrow> ptr \<Rightarrow> int \<Rightarrow> sys \<Rightarrow> sys option" where
  "local_copy dst src len s = with_mem (memcpy dst src (unat (word_of_int len :: 64 word))) s"

definition hmp_read ::
  "env \<Rightarrow> (sys \<Rightarrow> sys option) \<Rightarrow> ptr \<Rightarrow> ptr \<Rightarrow> int \<Rightarrow> sys \<Rightarrow> ((halt + int) \<times> sys) option" where
  "hmp_read E W local_dst remote_src len s = (case hmp_get_hm_node_id remote_src s of
     (Inl h, s) \<Rightarrow> Some (Inl h, s)
   | (Inr (i, addr), s) \<Rightarrow> do {
       s \<leftarrow> (if i = curnode_id (config (curnode s)) then local_copy local_dst addr len s
            else do {
              tr \<leftarrow> get_connect_trans i s;
              hmp_rdma_read E W tr local_dst addr len s });
       Some (Inr 0, s) })"

definition hmp_write ::
  "env \<Rightarrow> (sys \<Rightarrow> sys option) \<Rightarrow> ptr \<Rightarrow> ptr \<Rightarrow> int \<Rightarrow> sys \<Rightarrow> ((halt + int) \<times> sys) option" where
  "hmp_write E W local_src remote_dst len s = (case hmp_get_hm_node_id remote_dst s of
     (Inl h, s) \<Rightarrow> Some (Inl h, s)
   | (Inr (i, addr), s) \<Rightarrow> do {
       s \<leftarrow> (if i = curnode_id (config (curnode s)) then local_copy addr local_src len s
            else do {
              tr \<leftarrow> get_connect_trans i s;
              hmp_rdma_write E W tr local_src addr len s });
       Some (Inr 0, s) })"

end
