(* ===== verification/Hmp_Node.thy ===== *)
theory Hmp_Node
  imports Hmp_Config Hmp_Access Murmur_Hash
begin

text \<open>
  \<open>src/hmp_node.c\<close>: the start and the end of a node. The ring of consistent hashing is a
  circular list of hash nodes, kept in the order of the keys by insertion.
\<close>

section \<open>The hash ring\<close>

text \<open>
  The text that is hashed: the address and the port, copied into a buffer of 50 chars one
  after the other with a terminating NUL, which is hashed too. The port is cut to the 9 chars
  that fit its own buffer.
\<close>

definition KEY_SIZE :: nat where
  "KEY_SIZE = 50"

definition port_str :: "int \<Rightarrow> string" where
  "port_str p = cut 10 (dec_of_int p)"

definition char_byte :: "char \<Rightarrow> 8 word" where
  "char_byte c = word_of_nat (of_char c)"

definition hash_key :: "hmp_node_info \<Rightarrow> 32 word option" where
  "hash_key info = (let
     key = ni_addr info @ port_str (ni_port info)
     in if length key + 1 \<le> KEY_SIZE
        then murmur_hash (map char_byte key @ [0]) (word_of_nat (length key + 1))
        else None)"

definition upd_hash_node :: "(hmp_hash_node \<Rightarrow> hmp_hash_node) \<Rightarrow> ptr \<Rightarrow> sys \<Rightarrow> sys option" where
  "upd_hash_node f p s = do { h \<leftarrow> modify f p (hash_nodes s); Some (s\<lparr>hash_nodes := h\<rparr>) }"

text \<open>The place of a new node: before the first one with a greater key, or at the end.\<close>

definition hash_place :: "env \<Rightarrow> ptr \<Rightarrow> sys \<Rightarrow> sys option" where
  "hash_place E hash_node s = (let entry = member_of hash_node hash_node_list_entry_off in do {
     e \<leftarrow> list_empty (e_hash_list E) (links s);
     if e then with_links (list_add entry (e_hash_list E)) s
     else do {
       r \<leftarrow> list_for_each_entry links hash_node_list_entry_off (e_hash_list E) (\<lambda>tmp s. do {
         t \<leftarrow> load (hash_nodes s) tmp;
         n \<leftarrow> load (hash_nodes s) hash_node;
         if hn_key t > hn_key n
         then map_option Inr (with_links (list_add_tail entry (member_of tmp hash_node_list_entry_off)) s)
         else Some (Inl s) }) s;
       case r of
         Inr s \<Rightarrow> Some s
       | Inl s \<Rightarrow> with_links (list_add_tail entry (e_hash_list E)) s } })"

definition hash_add :: "env \<Rightarrow> int \<Rightarrow> sys \<Rightarrow> ((halt + unit) \<times> sys) option" where
  "hash_add E i s = do {
     info \<leftarrow> get_info i s;
     let (hash_node, s) = malloc_hash_node E s;
     if hash_node = NULL
     then Some (Inl (Exited (- 1)), ERROR_LOG ''allocate memory error.'' s)
     else do {
       k \<leftarrow> hash_key info;
       s \<leftarrow> upd_hash_node (\<lambda>n. n\<lparr>hn_key := k\<rparr>) hash_node s;
       s \<leftarrow> upd_hash_node (\<lambda>n. n\<lparr>hn_node_id := i\<rparr>) hash_node s;
       s \<leftarrow> with_links (INIT_LIST_HEAD (member_of hash_node hash_node_list_entry_off)) s;
       s \<leftarrow> hash_place E hash_node s;
       Some (Inr (), s) } }"

fun hash_add_all :: "env \<Rightarrow> nat \<Rightarrow> nat \<Rightarrow> sys \<Rightarrow> ((halt + unit) \<times> sys) option" where
  "hash_add_all E i 0 s = Some (Inr (), s)"
| "hash_add_all E i (Suc n) s = do {
     (r, s) \<leftarrow> hash_add E (int i) s;
     case r of Inl h \<Rightarrow> Some (Inl h, s) | Inr _ \<Rightarrow> hash_add_all E (Suc i) n s }"

definition hmp_hash_init :: "env \<Rightarrow> sys \<Rightarrow> ((halt + unit) \<times> sys) option" where
  "hmp_hash_init E s = do {
     s \<leftarrow> with_links (INIT_LIST_HEAD (e_hash_list E)) s;
     (r, s) \<leftarrow> hash_add_all E 0 (nat (node_cnt (config (curnode s)))) s;
     case r of
       Inl h \<Rightarrow> Some (Inl h, s)
     | Inr _ \<Rightarrow> do {
         s \<leftarrow> loop_end (list_for_each_entry links hash_node_list_entry_off (e_hash_list E) (\<lambda>tmp s. do {
           _ \<leftarrow> load (hash_nodes s) tmp;
           Some (Inl (INFO_LOG ''key %lu id %d'' s)) }) s);
         Some (Inr (), s) } }"

section \<open>Start\<close>

text \<open>A failure the program answers with \<open>exit(-1)\<close>.\<close>

definition die :: "string \<Rightarrow> sys \<Rightarrow> ((halt + unit) \<times> sys) option" where
  "die m s = Some (Inl (Exited (- 1)), ERROR_LOG m s)"

text \<open>The listening transport gets the first device of the list, if there is one.\<close>

definition first_device :: "env \<Rightarrow> sys \<Rightarrow> sys option" where
  "first_device E s = do {
     r \<leftarrow> list_for_each_entry links dev_list_entry_off (e_dev_list E) (\<lambda>device s.
       map_option Inr (upd_trans (\<lambda>t. t\<lparr>trans_device := device\<rparr>) (listen_trans (curnode s)) s)) s;
     Some (case r of Inl s \<Rightarrow> s | Inr s \<Rightarrow> s) }"

text \<open>The loop that connects to the nodes after this one.\<close>

fun connect_all :: "env \<Rightarrow> nat \<Rightarrow> nat \<Rightarrow> sys \<Rightarrow> ((halt + unit) \<times> sys) option" where
  "connect_all E i 0 s = Some (Inr (), s)"
| "connect_all E i (Suc n) s = do {
     let s = INFO_LOG ''create the [%d]-th transport.'' s;
     (t, s) \<leftarrow> hmp_transport_create E (e_curnode E) (node_ctx (curnode s)) s;
     s \<leftarrow> set_connect_trans (int i) t s;
     if t = NULL then die ''create rdma trans error.'' s
     else do {
       s \<leftarrow> upd_trans (\<lambda>t. t\<lparr>trans_node_id := int i\<rparr>) t s;
       s \<leftarrow> set_region t (int i) s;
       info \<leftarrow> get_info (int i) s;
       (_, s) \<leftarrow> hmp_transport_connect E t (ni_addr info) (ni_port info) s;
       connect_all E (Suc i) n s } }"

text \<open>\<open>hmp_node_init\<close> after the configuration and the hash ring.\<close>

definition start_transports :: "env \<Rightarrow> sys \<Rightarrow> ((halt + unit) \<times> sys) option" where
  "start_transports E s = do {
     s \<leftarrow> hmp_transport_init E s;
     (ctx, s) \<leftarrow> hmp_context_create E s;
     let s = upd_curnode (\<lambda>n. n\<lparr>node_ctx := ctx\<rparr>) s;
     if ctx = NULL then die ''create context error.'' s
     else do {
       (t, s) \<leftarrow> hmp_transport_create E (e_curnode E) ctx s;
       let s = upd_curnode (\<lambda>n. n\<lparr>listen_trans := t\<rparr>) s;
       if t = NULL then die ''create listen trans error.'' s
       else do {
         s \<leftarrow> first_device E s;
         (r, s) \<leftarrow> hmp_mem_init E s;
         case r of
           Inl h \<Rightarrow> Some (Inl h, s)
         | Inr _ \<Rightarrow> do {
             info \<leftarrow> get_info (curnode_id (config (curnode s))) s;
             (_, s) \<leftarrow> hmp_transport_listen E (listen_trans (curnode s)) (ni_port info) s;
             let s = upd_curnode (\<lambda>n. n\<lparr>connect_trans := replicate HMP_NODE_NUM NULL\<rparr>) s;
             let c = config (curnode s);
             connect_all E (nat (curnode_id c + 1)) (nat (node_cnt c - (curnode_id c + 1))) s } } } }"

definition hmp_node_init :: "env \<Rightarrow> xml_lib \<Rightarrow> ifreq list \<Rightarrow> sys \<Rightarrow> ((halt + unit) \<times> sys) option" where
  "hmp_node_init E X ifs s = do {
     (r, c, s) \<leftarrow> hmp_config_init E X ifs (config (curnode s)) s;
     let s = upd_curnode (\<lambda>n. n\<lparr>config := c\<rparr>) s;
     case r of
       Inl h \<Rightarrow> Some (Inl h, s)
     | Inr _ \<Rightarrow> do {
         (r, s) \<leftarrow> hmp_hash_init E s;
         case r of
           Inl h \<Rightarrow> Some (Inl h, s)
         | Inr _ \<Rightarrow> start_transports E s } }"

section \<open>End\<close>

definition hmp_node_release :: "env \<Rightarrow> sys \<Rightarrow> sys option" where
  "hmp_node_release E s = do {
     c \<leftarrow> load (contexts s) (node_ctx (curnode s));
     let s = record_call (Os (Pthread_join (epoll_thread c))) s;
     let s = INFO_LOG ''hmp node release.'' s;
     s \<leftarrow> hmp_transport_release E s;
     hmp_mem_destroy s }"

end
