(* ===== verification/Verbs_Inline.thy ===== *)
theory Verbs_Inline
  imports Verbs_Types Hmp_Bytes Hmp_Span
begin

text \<open>
  The code of \<open>src/infiniband/verbs.h\<close>: its \<open>static inline\<close> functions, through which the program
  reaches the device's driver (the provider). A verb is a function pointer, in the table of the
  device context or, for the extended verbs, in a structure that ends with that context and
  that grew at its front from release to release; \<open>verbs_get_ctx_op\<close> decides whether the
  provider's structure is new enough to have the verb.

  Objects are in byte memory here, at the offsets the structures have on a 64-bit machine. A
  call of a function pointer, and the functions of \<open>libibverbs\<close> that the inline functions call,
  are answered by the parameter \<open>provider\<close>.
\<close>

section \<open>Memory and calls\<close>

record vstate =
  vmem :: bytes
  verrno :: int

datatype lib_fn =
    Lib_query_device | Lib_query_port | Lib_create_srq | Lib_create_qp | Lib_mutex_init | Lib_cond_init

text \<open>A call has the arguments as 64-bit registers, and so is its result; it may change memory.\<close>

record provider =
  pv_call :: "ptr \<Rightarrow> ptr list \<Rightarrow> vstate \<Rightarrow> 64 word \<times> vstate"
  pv_lib :: "lib_fn \<Rightarrow> ptr list \<Rightarrow> vstate \<Rightarrow> 64 word \<times> vstate"
  pv_attr_ex_size :: nat

definition ENOSYS :: int where
  "ENOSYS = 38"

definition EINVAL :: int where
  "EINVAL = 22"

text \<open>The field of eight or four bytes at an offset of the object \<open>p\<close>.\<close>

definition field64 :: "ptr \<Rightarrow> nat \<Rightarrow> vstate \<Rightarrow> ptr option" where
  "field64 p off s = (if p = NULL then None else read_u64 (vmem s) (p + of_nat off))"

definition field32 :: "ptr \<Rightarrow> nat \<Rightarrow> vstate \<Rightarrow> 32 word option" where
  "field32 p off s = (if p = NULL then None else read_u32 (vmem s) (p + of_nat off))"

definition call_fn :: "provider \<Rightarrow> ptr \<Rightarrow> ptr list \<Rightarrow> vstate \<Rightarrow> (64 word \<times> vstate) option" where
  "call_fn P f args s = (if f = NULL then None else Some (pv_call P f args s))"

text \<open>An int result is in the lower half of the register.\<close>

definition to_int :: "64 word \<times> vstate \<Rightarrow> int \<times> vstate" where
  "to_int r = (sint (ucast (fst r) :: 32 word), snd r)"

section \<open>The context and its tables\<close>

text \<open>The order of the members of \<open>struct ibv_context_ops\<close> and \<open>struct verbs_context\<close>.\<close>

datatype ctx_op =
    O_query_device | O_query_port | O_alloc_pd | O_dealloc_pd | O_reg_mr | O_rereg_mr | O_dereg_mr
  | O_alloc_mw | O_bind_mw | O_dealloc_mw | O_create_cq | O_poll_cq | O_req_notify_cq | O_cq_event
  | O_resize_cq | O_destroy_cq | O_create_srq | O_modify_srq | O_query_srq | O_destroy_srq
  | O_post_srq_recv | O_create_qp | O_query_qp | O_modify_qp | O_destroy_qp | O_post_send | O_post_recv
  | O_create_ah | O_destroy_ah | O_attach_mcast | O_detach_mcast | O_async_event

definition ibv_context_ops :: "ctx_op list" where
  "ibv_context_ops =
     [O_query_device, O_query_port, O_alloc_pd, O_dealloc_pd, O_reg_mr, O_rereg_mr, O_dereg_mr,
      O_alloc_mw, O_bind_mw, O_dealloc_mw, O_create_cq, O_poll_cq, O_req_notify_cq, O_cq_event,
      O_resize_cq, O_destroy_cq, O_create_srq, O_modify_srq, O_query_srq, O_destroy_srq,
      O_post_srq_recv, O_create_qp, O_query_qp, O_modify_qp, O_destroy_qp, O_post_send, O_post_recv,
      O_create_ah, O_destroy_ah, O_attach_mcast, O_detach_mcast, O_async_event]"

datatype vop =
    V_alloc_parent_domain | V_dealloc_td | V_alloc_td | V_modify_cq | V_post_srq_ops
  | V_destroy_rwq_ind_table | V_create_rwq_ind_table | V_destroy_wq | V_modify_wq | V_create_wq
  | V_query_rt_values | V_create_cq_ex | V_priv | V_query_device_ex | V_destroy_flow
  | V_ABI_placeholder2 | V_create_flow | V_ABI_placeholder1 | V_open_qp | V_create_qp_ex
  | V_get_srq_num | V_create_srq_ex | V_open_xrcd | V_close_xrcd | V_ABI_placeholder3 | V_sz

definition verbs_context :: "vop list" where
  "verbs_context =
     [V_alloc_parent_domain, V_dealloc_td, V_alloc_td, V_modify_cq, V_post_srq_ops,
      V_destroy_rwq_ind_table, V_create_rwq_ind_table, V_destroy_wq, V_modify_wq, V_create_wq,
      V_query_rt_values, V_create_cq_ex, V_priv, V_query_device_ex, V_destroy_flow,
      V_ABI_placeholder2, V_create_flow, V_ABI_placeholder1, V_open_qp, V_create_qp_ex,
      V_get_srq_num, V_create_srq_ex, V_open_xrcd, V_close_xrcd, V_ABI_placeholder3, V_sz]"

fun index_of :: "'a list \<Rightarrow> 'a \<Rightarrow> nat" where
  "index_of [] x = 0"
| "index_of (y # ys) x = (if x = y then 0 else Suc (index_of ys x))"

text \<open>The context: a device pointer, the table, three ints, a mutex of 40 bytes, \<open>abi_compat\<close>.\<close>

definition ops_off :: "ctx_op \<Rightarrow> nat" where
  "ops_off f = 8 + 8 * index_of ibv_context_ops f"

definition abi_compat_off :: nat where
  "abi_compat_off = 320"

definition ibv_context_size :: nat where
  "ibv_context_size = 328"

definition vop_off :: "vop \<Rightarrow> nat" where
  "vop_off f = 8 * index_of verbs_context f"

definition context_off :: nat where
  "context_off = 8 * length verbs_context"

definition verbs_context_size :: nat where
  "verbs_context_size = context_off + ibv_context_size"

definition VERBS_ABI_IS_EXTENDED :: ptr where
  "VERBS_ABI_IS_EXTENDED = - 1"

definition verbs_get_ctx :: "ptr \<Rightarrow> vstate \<Rightarrow> ptr option" where
  "verbs_get_ctx ctx s = do {
     a \<leftarrow> field64 ctx abi_compat_off s;
     Some (if a \<noteq> VERBS_ABI_IS_EXTENDED then NULL else ctx - of_nat context_off) }"

text \<open>The disjunction of the macro, each part evaluated only when the one before is false.\<close>

definition verbs_get_ctx_op :: "ptr \<Rightarrow> vop \<Rightarrow> vstate \<Rightarrow> ptr option" where
  "verbs_get_ctx_op ctx op s = do {
     vctx \<leftarrow> verbs_get_ctx ctx s;
     if vctx = NULL then Some NULL
     else do {
       sz \<leftarrow> field64 vctx (vop_off V_sz) s;
       if sz < of_nat (verbs_context_size - vop_off op) then Some NULL
       else do {
         f \<leftarrow> field64 vctx (vop_off op) s;
         Some (if f = NULL then NULL else vctx) } } }"

text \<open>The call through the structure, and the three ways a wrapper treats a missing verb.\<close>

definition vctx_call :: "provider \<Rightarrow> ptr \<Rightarrow> vop \<Rightarrow> ptr list \<Rightarrow> vstate \<Rightarrow> (64 word \<times> vstate) option" where
  "vctx_call P vctx op args s = do { f \<leftarrow> field64 vctx (vop_off op) s; call_fn P f args s }"

definition ext_ptr :: "provider \<Rightarrow> vop \<Rightarrow> ptr \<Rightarrow> ptr list \<Rightarrow> vstate \<Rightarrow> (ptr \<times> vstate) option" where
  "ext_ptr P op ctx args s = do {
     vctx \<leftarrow> verbs_get_ctx_op ctx op s;
     if vctx = NULL then Some (NULL, s\<lparr>verrno := ENOSYS\<rparr>) else vctx_call P vctx op args s }"

definition ext_int :: "provider \<Rightarrow> vop \<Rightarrow> ptr \<Rightarrow> ptr list \<Rightarrow> vstate \<Rightarrow> (int \<times> vstate) option" where
  "ext_int P op ctx args s = do {
     vctx \<leftarrow> verbs_get_ctx_op ctx op s;
     if vctx = NULL then Some (ENOSYS, s) else map_option to_int (vctx_call P vctx op args s) }"

text \<open>A call through the table of the context that the object \<open>p\<close> belongs to.\<close>

definition ops_call :: "provider \<Rightarrow> ctx_op \<Rightarrow> ptr \<Rightarrow> ptr list \<Rightarrow> vstate \<Rightarrow> (int \<times> vstate) option" where
  "ops_call P op p args s = do {
     ctx \<leftarrow> field64 p 0 s;
     f \<leftarrow> field64 ctx (ops_off op) s;
     map_option to_int (call_fn P f args s) }"

section \<open>Ports\<close>

text \<open>The members of \<open>struct ibv_port_attr\<close> with their sizes; there are no gaps between them.\<close>

definition ibv_port_attr :: "(string \<times> nat) list" where
  "ibv_port_attr =
     [(''state'', 4), (''max_mtu'', 4), (''active_mtu'', 4), (''gid_tbl_len'', 4),
      (''port_cap_flags'', 4), (''max_msg_sz'', 4), (''bad_pkey_cntr'', 4), (''qkey_viol_cntr'', 4),
      (''pkey_tbl_len'', 2), (''lid'', 2), (''sm_lid'', 2), (''lmc'', 1), (''max_vl_num'', 1),
      (''sm_sl'', 1), (''subnet_timeout'', 1), (''init_type_reply'', 1), (''active_width'', 1),
      (''active_speed'', 1), (''phys_state'', 1), (''link_layer'', 1), (''reserved'', 1)]"

fun member_offset :: "(string \<times> nat) list \<Rightarrow> string \<Rightarrow> nat" where
  "member_offset [] m = 0"
| "member_offset ((x, n) # ms) m = (if x = m then 0 else n + member_offset ms m)"

definition IBV_LINK_LAYER_UNSPECIFIED :: "8 word" where
  "IBV_LINK_LAYER_UNSPECIFIED = 0"

definition put8 :: "ptr \<Rightarrow> string \<Rightarrow> 8 word \<Rightarrow> vstate \<Rightarrow> vstate option" where
  "put8 port_attr m b s = (if port_attr = NULL then None
     else do {
       h \<leftarrow> modify (\<lambda>_. b) (port_attr + of_nat (member_offset ibv_port_attr m)) (vmem s);
       Some (s\<lparr>vmem := h\<rparr>) })"

text \<open>The macro \<open>ibv_query_port\<close> expands to \<open>___ibv_query_port\<close>: a library from before the two last
  members leaves them alone, so they are set first.\<close>

definition ibv_query_port :: "provider \<Rightarrow> ptr \<Rightarrow> 8 word \<Rightarrow> ptr \<Rightarrow> vstate \<Rightarrow> (int \<times> vstate) option" where
  "ibv_query_port P ctx port_num port_attr s = do {
     s \<leftarrow> put8 port_attr ''link_layer'' IBV_LINK_LAYER_UNSPECIFIED s;
     s \<leftarrow> put8 port_attr ''reserved'' 0 s;
     Some (to_int (pv_lib P Lib_query_port [ctx, ucast port_num, port_attr] s)) }"

section \<open>Extended verbs\<close>

definition ibv_create_flow :: "provider \<Rightarrow> ptr \<Rightarrow> ptr \<Rightarrow> vstate \<Rightarrow> (ptr \<times> vstate) option" where
  "ibv_create_flow P qp flow s = do {
     ctx \<leftarrow> field64 qp 0 s;
     ext_ptr P V_create_flow ctx [qp, flow] s }"

text \<open>The flow's context is its second member; the error is negative here.\<close>

definition ibv_destroy_flow :: "provider \<Rightarrow> ptr \<Rightarrow> vstate \<Rightarrow> (int \<times> vstate) option" where
  "ibv_destroy_flow P flow_id s = do {
     ctx \<leftarrow> field64 flow_id 8 s;
     vctx \<leftarrow> verbs_get_ctx_op ctx V_destroy_flow s;
     if vctx = NULL then Some (- ENOSYS, s)
     else map_option to_int (vctx_call P vctx V_destroy_flow [flow_id] s) }"

definition ibv_open_xrcd :: "provider \<Rightarrow> ptr \<Rightarrow> ptr \<Rightarrow> vstate \<Rightarrow> (ptr \<times> vstate) option" where
  "ibv_open_xrcd P ctx xrcd_init_attr s = ext_ptr P V_open_xrcd ctx [ctx, xrcd_init_attr] s"

text \<open>No test here: the caller has an open domain, so the provider has the verb.\<close>

definition ibv_close_xrcd :: "provider \<Rightarrow> ptr \<Rightarrow> vstate \<Rightarrow> (int \<times> vstate) option" where
  "ibv_close_xrcd P xrcd s = do {
     ctx \<leftarrow> field64 xrcd 0 s;
     vctx \<leftarrow> verbs_get_ctx ctx s;
     map_option to_int (vctx_call P vctx V_close_xrcd [xrcd] s) }"

definition ibv_create_cq_ex :: "provider \<Rightarrow> ptr \<Rightarrow> ptr \<Rightarrow> vstate \<Rightarrow> (ptr \<times> vstate) option" where
  "ibv_create_cq_ex P ctx cq_attr s = ext_ptr P V_create_cq_ex ctx [ctx, cq_attr] s"

definition ibv_modify_cq :: "provider \<Rightarrow> ptr \<Rightarrow> ptr \<Rightarrow> vstate \<Rightarrow> (int \<times> vstate) option" where
  "ibv_modify_cq P cq attr s = do {
     ctx \<leftarrow> field64 cq 0 s;
     ext_int P V_modify_cq ctx [cq, attr] s }"

definition IBV_SRQ_INIT_ATTR_TYPE :: "32 word" where
  "IBV_SRQ_INIT_ATTR_TYPE = push_bit 0 1"

definition IBV_SRQ_INIT_ATTR_PD :: "32 word" where
  "IBV_SRQ_INIT_ATTR_PD = push_bit 1 1"

definition IBV_SRQT_BASIC :: "32 word" where
  "IBV_SRQT_BASIC = 0"

text \<open>The attributes: \<open>comp_mask\<close> at 20, \<open>srq_type\<close> at 24, \<open>pd\<close> at 32.\<close>

definition ibv_create_srq_ex :: "provider \<Rightarrow> ptr \<Rightarrow> ptr \<Rightarrow> vstate \<Rightarrow> (ptr \<times> vstate) option" where
  "ibv_create_srq_ex P ctx attr s = do {
     mask \<leftarrow> field32 attr 20 s;
     srq_type \<leftarrow> field32 attr 24 s;
     if mask AND NOT (IBV_SRQ_INIT_ATTR_PD OR IBV_SRQ_INIT_ATTR_TYPE) = 0 \<and>
        mask AND IBV_SRQ_INIT_ATTR_PD \<noteq> 0 \<and>
        (mask AND IBV_SRQ_INIT_ATTR_TYPE = 0 \<or> srq_type = IBV_SRQT_BASIC)
     then do {
       pd \<leftarrow> field64 attr 32 s;
       Some (pv_lib P Lib_create_srq [pd, attr] s) }
     else ext_ptr P V_create_srq_ex ctx [ctx, attr] s }"

definition ibv_get_srq_num :: "provider \<Rightarrow> ptr \<Rightarrow> ptr \<Rightarrow> vstate \<Rightarrow> (int \<times> vstate) option" where
  "ibv_get_srq_num P q srq_num s = do {
     ctx \<leftarrow> field64 q 0 s;
     ext_int P V_get_srq_num ctx [q, srq_num] s }"

text \<open>A missing verb also reports the operation that failed, the first one.\<close>

definition ibv_post_srq_ops :: "provider \<Rightarrow> ptr \<Rightarrow> ptr \<Rightarrow> ptr \<Rightarrow> vstate \<Rightarrow> (int \<times> vstate) option" where
  "ibv_post_srq_ops P q op bad_op s = do {
     ctx \<leftarrow> field64 q 0 s;
     vctx \<leftarrow> verbs_get_ctx_op ctx V_post_srq_ops s;
     if vctx = NULL then do {
       m \<leftarrow> write_bytes (vmem s) bad_op (to_le 8 op);
       Some (ENOSYS, s\<lparr>vmem := m\<rparr>) }
     else map_option to_int (vctx_call P vctx V_post_srq_ops [q, op, bad_op] s) }"

definition IBV_QP_INIT_ATTR_PD :: "32 word" where
  "IBV_QP_INIT_ATTR_PD = push_bit 0 1"

text \<open>The attributes: \<open>comp_mask\<close> at 60, \<open>pd\<close> at 64.\<close>

definition ibv_create_qp_ex :: "provider \<Rightarrow> ptr \<Rightarrow> ptr \<Rightarrow> vstate \<Rightarrow> (ptr \<times> vstate) option" where
  "ibv_create_qp_ex P ctx attr s = do {
     mask \<leftarrow> field32 attr 60 s;
     if mask = IBV_QP_INIT_ATTR_PD then do {
       pd \<leftarrow> field64 attr 64 s;
       Some (pv_lib P Lib_create_qp [pd, attr] s) }
     else ext_ptr P V_create_qp_ex ctx [ctx, attr] s }"

definition ibv_alloc_td :: "provider \<Rightarrow> ptr \<Rightarrow> ptr \<Rightarrow> vstate \<Rightarrow> (ptr \<times> vstate) option" where
  "ibv_alloc_td P ctx init_attr s = ext_ptr P V_alloc_td ctx [ctx, init_attr] s"

definition ibv_dealloc_td :: "provider \<Rightarrow> ptr \<Rightarrow> vstate \<Rightarrow> (int \<times> vstate) option" where
  "ibv_dealloc_td P td s = do { ctx \<leftarrow> field64 td 0 s; ext_int P V_dealloc_td ctx [td] s }"

definition ibv_alloc_parent_domain :: "provider \<Rightarrow> ptr \<Rightarrow> ptr \<Rightarrow> vstate \<Rightarrow> (ptr \<times> vstate) option" where
  "ibv_alloc_parent_domain P ctx attr s = ext_ptr P V_alloc_parent_domain ctx [ctx, attr] s"

definition ibv_query_rt_values_ex :: "provider \<Rightarrow> ptr \<Rightarrow> ptr \<Rightarrow> vstate \<Rightarrow> (int \<times> vstate) option" where
  "ibv_query_rt_values_ex P ctx values s = ext_int P V_query_rt_values ctx [ctx, values] s"

text \<open>The label \<open>legacy\<close>: clear the attributes and ask the old verb for their first part.\<close>

definition query_device_legacy :: "provider \<Rightarrow> ptr \<Rightarrow> ptr \<Rightarrow> vstate \<Rightarrow> (int \<times> vstate) option" where
  "query_device_legacy P ctx attr s = do {
     m \<leftarrow> write_bytes (vmem s) attr (replicate (pv_attr_ex_size P) 0);
     Some (to_int (pv_lib P Lib_query_device [ctx, attr] (s\<lparr>vmem := m\<rparr>))) }"

definition ibv_query_device_ex :: "provider \<Rightarrow> ptr \<Rightarrow> ptr \<Rightarrow> ptr \<Rightarrow> vstate \<Rightarrow> (int \<times> vstate) option" where
  "ibv_query_device_ex P ctx input attr s = do {
     vctx \<leftarrow> verbs_get_ctx_op ctx V_query_device_ex s;
     if vctx = NULL then query_device_legacy P ctx attr s
     else do {
       r \<leftarrow> vctx_call P vctx V_query_device_ex [ctx, input, attr, of_nat (pv_attr_ex_size P)] s;
       let (ret, s) = to_int r;
       if ret = ENOSYS then query_device_legacy P ctx attr s else Some (ret, s) } }"

definition ibv_open_qp :: "provider \<Rightarrow> ptr \<Rightarrow> ptr \<Rightarrow> vstate \<Rightarrow> (ptr \<times> vstate) option" where
  "ibv_open_qp P ctx qp_open_attr s = ext_ptr P V_open_qp ctx [ctx, qp_open_attr] s"

text \<open>A new work queue: mutex at 56, condition at 96, \<open>events_completed\<close> at 144.\<close>

definition ibv_create_wq :: "provider \<Rightarrow> ptr \<Rightarrow> ptr \<Rightarrow> vstate \<Rightarrow> (ptr \<times> vstate) option" where
  "ibv_create_wq P ctx wq_init_attr s = do {
     vctx \<leftarrow> verbs_get_ctx_op ctx V_create_wq s;
     if vctx = NULL then Some (NULL, s\<lparr>verrno := ENOSYS\<rparr>)
     else do {
       (wq, s) \<leftarrow> vctx_call P vctx V_create_wq [ctx, wq_init_attr] s;
       if wq \<noteq> NULL then do {
         m \<leftarrow> write_bytes (vmem s) (wq + 144) (to_le 4 (0 :: 32 word));
         let s = snd (pv_lib P Lib_mutex_init [wq + 56, NULL] (s\<lparr>vmem := m\<rparr>));
         let s = snd (pv_lib P Lib_cond_init [wq + 96, NULL] s);
         Some (wq, s) }
       else Some (wq, s) } }"

definition ibv_modify_wq :: "provider \<Rightarrow> ptr \<Rightarrow> ptr \<Rightarrow> vstate \<Rightarrow> (int \<times> vstate) option" where
  "ibv_modify_wq P wq wq_attr s = do { ctx \<leftarrow> field64 wq 0 s; ext_int P V_modify_wq ctx [wq, wq_attr] s }"

definition ibv_destroy_wq :: "provider \<Rightarrow> ptr \<Rightarrow> vstate \<Rightarrow> (int \<times> vstate) option" where
  "ibv_destroy_wq P wq s = do { ctx \<leftarrow> field64 wq 0 s; ext_int P V_destroy_wq ctx [wq] s }"

definition ibv_create_rwq_ind_table :: "provider \<Rightarrow> ptr \<Rightarrow> ptr \<Rightarrow> vstate \<Rightarrow> (ptr \<times> vstate) option" where
  "ibv_create_rwq_ind_table P ctx init_attr s =
     ext_ptr P V_create_rwq_ind_table ctx [ctx, init_attr] s"

definition ibv_destroy_rwq_ind_table :: "provider \<Rightarrow> ptr \<Rightarrow> vstate \<Rightarrow> (int \<times> vstate) option" where
  "ibv_destroy_rwq_ind_table P tab s = do {
     ctx \<leftarrow> field64 tab 0 s;
     ext_int P V_destroy_rwq_ind_table ctx [tab] s }"

section \<open>Verbs of the context's table\<close>

text \<open>Memory windows: the domain's context is its first member, a window's type is at 24.\<close>

definition IBV_MW_TYPE_1 :: "32 word" where
  "IBV_MW_TYPE_1 = 1"

definition ibv_alloc_mw :: "provider \<Rightarrow> ptr \<Rightarrow> 32 word \<Rightarrow> vstate \<Rightarrow> (ptr \<times> vstate) option" where
  "ibv_alloc_mw P pd ty s = do {
     ctx \<leftarrow> field64 pd 0 s;
     f \<leftarrow> field64 ctx (ops_off O_alloc_mw) s;
     if f = NULL then Some (NULL, s\<lparr>verrno := ENOSYS\<rparr>) else call_fn P f [pd, ucast ty] s }"

definition ibv_dealloc_mw :: "provider \<Rightarrow> ptr \<Rightarrow> vstate \<Rightarrow> (int \<times> vstate) option" where
  "ibv_dealloc_mw P mw s = ops_call P O_dealloc_mw mw [mw] s"

definition ibv_bind_mw :: "provider \<Rightarrow> ptr \<Rightarrow> ptr \<Rightarrow> ptr \<Rightarrow> vstate \<Rightarrow> (int \<times> vstate) option" where
  "ibv_bind_mw P qp mw mw_bind s = do {
     ty \<leftarrow> field32 mw 24 s;
     if ty \<noteq> IBV_MW_TYPE_1 then Some (EINVAL, s) else ops_call P O_bind_mw mw [qp, mw, mw_bind] s }"

text \<open>The tag of a remote key is its lower eight bits.\<close>

definition ibv_inc_rkey :: "32 word \<Rightarrow> 32 word" where
  "ibv_inc_rkey rkey = (let
     mask = 0xff;
     newtag = ucast ((rkey + 1) AND mask) :: 8 word
     in (rkey AND NOT mask) OR ucast newtag)"

definition ibv_poll_cq :: "provider \<Rightarrow> ptr \<Rightarrow> 32 word \<Rightarrow> ptr \<Rightarrow> vstate \<Rightarrow> (int \<times> vstate) option" where
  "ibv_poll_cq P cq num_entries wc s = ops_call P O_poll_cq cq [cq, ucast num_entries, wc] s"

definition ibv_req_notify_cq :: "provider \<Rightarrow> ptr \<Rightarrow> 32 word \<Rightarrow> vstate \<Rightarrow> (int \<times> vstate) option" where
  "ibv_req_notify_cq P cq solicited_only s = ops_call P O_req_notify_cq cq [cq, ucast solicited_only] s"

definition ibv_post_srq_recv :: "provider \<Rightarrow> ptr \<Rightarrow> ptr \<Rightarrow> ptr \<Rightarrow> vstate \<Rightarrow> (int \<times> vstate) option" where
  "ibv_post_srq_recv P q recv_wr bad_recv_wr s =
     ops_call P O_post_srq_recv q [q, recv_wr, bad_recv_wr] s"

definition ibv_post_send :: "provider \<Rightarrow> ptr \<Rightarrow> ptr \<Rightarrow> ptr \<Rightarrow> vstate \<Rightarrow> (int \<times> vstate) option" where
  "ibv_post_send P qp wr bad_wr s = ops_call P O_post_send qp [qp, wr, bad_wr] s"

definition ibv_post_recv :: "provider \<Rightarrow> ptr \<Rightarrow> ptr \<Rightarrow> ptr \<Rightarrow> vstate \<Rightarrow> (int \<times> vstate) option" where
  "ibv_post_recv P qp wr bad_wr s = ops_call P O_post_recv qp [qp, wr, bad_wr] s"

text \<open>The receive function of a work queue is a member of its own, at 48.\<close>

definition ibv_post_wq_recv :: "provider \<Rightarrow> ptr \<Rightarrow> ptr \<Rightarrow> ptr \<Rightarrow> vstate \<Rightarrow> (int \<times> vstate) option" where
  "ibv_post_wq_recv P wq recv_wr bad_recv_wr s = do {
     f \<leftarrow> field64 wq 48 s;
     map_option to_int (call_fn P f [wq, recv_wr, bad_recv_wr] s) }"

fun qp_type_code :: "ibv_qp_type \<Rightarrow> nat" where
  "qp_type_code IBV_QPT_RC = 2"
| "qp_type_code IBV_QPT_UC = 3"
| "qp_type_code IBV_QPT_UD = 4"
| "qp_type_code IBV_QPT_RAW_PACKET = 8"
| "qp_type_code IBV_QPT_XRC_SEND = 9"
| "qp_type_code IBV_QPT_XRC_RECV = 10"

definition ibv_is_qpt_supported :: "32 word \<Rightarrow> ibv_qp_type \<Rightarrow> bool" where
  "ibv_is_qpt_supported caps qpt \<longleftrightarrow> caps AND push_bit (qp_type_code qpt) 1 \<noteq> 0"

section \<open>Extended completion queues\<close>

text \<open>
  The functions behind the readers are members of the queue, from offset 144 on, in this order.
\<close>

datatype cq_op =
    C_start_poll | C_next_poll | C_end_poll | C_read_opcode | C_read_vendor_err | C_read_byte_len
  | C_read_imm_data | C_read_qp_num | C_read_src_qp | C_read_wc_flags | C_read_slid | C_read_sl
  | C_read_dlid_path_bits | C_read_completion_ts | C_read_cvlan | C_read_flow_tag | C_read_tm_info
  | C_read_completion_wallclock_ns

definition ibv_cq_ex :: "cq_op list" where
  "ibv_cq_ex =
     [C_start_poll, C_next_poll, C_end_poll, C_read_opcode, C_read_vendor_err, C_read_byte_len,
      C_read_imm_data, C_read_qp_num, C_read_src_qp, C_read_wc_flags, C_read_slid, C_read_sl,
      C_read_dlid_path_bits, C_read_completion_ts, C_read_cvlan, C_read_flow_tag, C_read_tm_info,
      C_read_completion_wallclock_ns]"

definition cq_call :: "provider \<Rightarrow> cq_op \<Rightarrow> ptr \<Rightarrow> ptr list \<Rightarrow> vstate \<Rightarrow> (64 word \<times> vstate) option" where
  "cq_call P f cq args s = do {
     g \<leftarrow> field64 cq (144 + 8 * index_of ibv_cq_ex f) s;
     call_fn P g (cq # args) s }"

definition cq_read :: "provider \<Rightarrow> cq_op \<Rightarrow> ptr \<Rightarrow> vstate \<Rightarrow> ('a::len word \<times> vstate) option" where
  "cq_read P f cq s = do { (v, s) \<leftarrow> cq_call P f cq [] s; Some (ucast v, s) }"

definition ibv_cq_ex_to_cq :: "ptr \<Rightarrow> ptr" where
  "ibv_cq_ex_to_cq cq = cq"

definition ibv_start_poll :: "provider \<Rightarrow> ptr \<Rightarrow> ptr \<Rightarrow> vstate \<Rightarrow> (int \<times> vstate) option" where
  "ibv_start_poll P cq attr s = map_option to_int (cq_call P C_start_poll cq [attr] s)"

definition ibv_next_poll :: "provider \<Rightarrow> ptr \<Rightarrow> vstate \<Rightarrow> (int \<times> vstate) option" where
  "ibv_next_poll P cq s = map_option to_int (cq_call P C_next_poll cq [] s)"

definition ibv_end_poll :: "provider \<Rightarrow> ptr \<Rightarrow> vstate \<Rightarrow> vstate option" where
  "ibv_end_poll P cq s = map_option snd (cq_call P C_end_poll cq [] s)"

definition ibv_wc_read_opcode :: "provider \<Rightarrow> ptr \<Rightarrow> vstate \<Rightarrow> (32 word \<times> vstate) option" where
  "ibv_wc_read_opcode P cq s = cq_read P C_read_opcode cq s"

definition ibv_wc_read_vendor_err :: "provider \<Rightarrow> ptr \<Rightarrow> vstate \<Rightarrow> (32 word \<times> vstate) option" where
  "ibv_wc_read_vendor_err P cq s = cq_read P C_read_vendor_err cq s"

definition ibv_wc_read_byte_len :: "provider \<Rightarrow> ptr \<Rightarrow> vstate \<Rightarrow> (32 word \<times> vstate) option" where
  "ibv_wc_read_byte_len P cq s = cq_read P C_read_byte_len cq s"

definition ibv_wc_read_imm_data :: "provider \<Rightarrow> ptr \<Rightarrow> vstate \<Rightarrow> (32 word \<times> vstate) option" where
  "ibv_wc_read_imm_data P cq s = cq_read P C_read_imm_data cq s"

text \<open>The invalidated key is read through the same function as the immediate data.\<close>

definition ibv_wc_read_invalidated_rkey :: "provider \<Rightarrow> ptr \<Rightarrow> vstate \<Rightarrow> (32 word \<times> vstate) option" where
  "ibv_wc_read_invalidated_rkey P cq s = cq_read P C_read_imm_data cq s"

definition ibv_wc_read_qp_num :: "provider \<Rightarrow> ptr \<Rightarrow> vstate \<Rightarrow> (32 word \<times> vstate) option" where
  "ibv_wc_read_qp_num P cq s = cq_read P C_read_qp_num cq s"

definition ibv_wc_read_src_qp :: "provider \<Rightarrow> ptr \<Rightarrow> vstate \<Rightarrow> (32 word \<times> vstate) option" where
  "ibv_wc_read_src_qp P cq s = cq_read P C_read_src_qp cq s"

definition ibv_wc_read_wc_flags :: "provider \<Rightarrow> ptr \<Rightarrow> vstate \<Rightarrow> (32 word \<times> vstate) option" where
  "ibv_wc_read_wc_flags P cq s = cq_read P C_read_wc_flags cq s"

definition ibv_wc_read_slid :: "provider \<Rightarrow> ptr \<Rightarrow> vstate \<Rightarrow> (32 word \<times> vstate) option" where
  "ibv_wc_read_slid P cq s = cq_read P C_read_slid cq s"

definition ibv_wc_read_sl :: "provider \<Rightarrow> ptr \<Rightarrow> vstate \<Rightarrow> (8 word \<times> vstate) option" where
  "ibv_wc_read_sl P cq s = cq_read P C_read_sl cq s"

definition ibv_wc_read_dlid_path_bits :: "provider \<Rightarrow> ptr \<Rightarrow> vstate \<Rightarrow> (8 word \<times> vstate) option" where
  "ibv_wc_read_dlid_path_bits P cq s = cq_read P C_read_dlid_path_bits cq s"

definition ibv_wc_read_completion_ts :: "provider \<Rightarrow> ptr \<Rightarrow> vstate \<Rightarrow> (64 word \<times> vstate) option" where
  "ibv_wc_read_completion_ts P cq s = cq_read P C_read_completion_ts cq s"

definition ibv_wc_read_completion_wallclock_ns ::
  "provider \<Rightarrow> ptr \<Rightarrow> vstate \<Rightarrow> (64 word \<times> vstate) option" where
  "ibv_wc_read_completion_wallclock_ns P cq s = cq_read P C_read_completion_wallclock_ns cq s"

definition ibv_wc_read_cvlan :: "provider \<Rightarrow> ptr \<Rightarrow> vstate \<Rightarrow> (16 word \<times> vstate) option" where
  "ibv_wc_read_cvlan P cq s = cq_read P C_read_cvlan cq s"

definition ibv_wc_read_flow_tag :: "provider \<Rightarrow> ptr \<Rightarrow> vstate \<Rightarrow> (32 word \<times> vstate) option" where
  "ibv_wc_read_flow_tag P cq s = cq_read P C_read_flow_tag cq s"

definition ibv_wc_read_tm_info :: "provider \<Rightarrow> ptr \<Rightarrow> ptr \<Rightarrow> vstate \<Rightarrow> vstate option" where
  "ibv_wc_read_tm_info P cq tm_info s = map_option snd (cq_call P C_read_tm_info cq [tm_info] s)"

end
