(* ===== verification/Verbs_Props.thy ===== *)
theory Verbs_Props
  imports Verbs_Inline
begin

text \<open>
  What holds of the inline functions of \<open>verbs.h\<close>: the test for an extended verb never reads
  outside the provider's structure, whichever release it was built with; a provider without
  extended verbs gets the documented errors; the tag arithmetic of remote keys.
\<close>

section \<open>Ports\<close>

text \<open>The library is asked with the two last members cleared and everything else as it was.\<close>

lemma query_port_run:
  assumes "a \<noteq> NULL" "allocated (vmem s) (a + 46) 2"
  shows "\<exists>h. ibv_query_port P ctx n a s =
      Some (to_int (pv_lib P Lib_query_port [ctx, ucast n, a] (s\<lparr>vmem := h\<rparr>))) \<and>
    h (a + 46) = Some 0 \<and> h (a + 47) = Some 0 \<and> agree_on (- {a + 46, a + 47}) (vmem s) h"
proof -
  have span: "span (a + 46) 2 = {a + 46, a + 47}"
    by (auto simp: numeral_2_eq_2 span_Suc add.assoc)
  obtain x y where "vmem s (a + 46) = Some x" "vmem s (a + 47) = Some y" "a + 46 \<noteq> NULL" "a + 47 \<noteq> NULL"
    using assms(2) unfolding allocated_def span by auto
  with assms(1) show ?thesis
    by (intro exI [of _ "(vmem s)(a + 46 \<mapsto> 0, a + 47 \<mapsto> 0)"])
      (simp add: ibv_query_port_def put8_def ibv_port_attr_def IBV_LINK_LAYER_UNSPECIFIED_def agree_on_def)
qed

section \<open>Remote keys\<close>

lemma inc_rkey_eq: "ibv_inc_rkey k = (k AND NOT 0xff) OR take_bit 8 (k + 1)"
proof -
  have "(0xff :: 32 word) = mask 8" by (simp add: mask_eq_exp_minus_1)
  then have m: "x AND 0xff = take_bit 8 x" for x :: "32 word" by (simp add: take_bit_eq_mask)
  have "ucast (ucast (take_bit 8 x) :: 8 word) = take_bit 8 x" for x :: "32 word"
    by (rule bit_word_eqI) (auto simp: bit_simps)
  then show ?thesis by (simp add: ibv_inc_rkey_def m)
qed

lemma take_bit_parts:
  "take_bit 8 ((k AND NOT 0xff) OR take_bit 8 x) = take_bit 8 (x :: 32 word)"
  "((k AND NOT 0xff) OR take_bit 8 x) AND NOT 0xff = k AND NOT (0xff :: 32 word)"
proof -
  have m: "(0xff :: 32 word) = mask 8" by (simp add: mask_eq_exp_minus_1)
  show "take_bit 8 ((k AND NOT 0xff) OR take_bit 8 x) = take_bit 8 x"
    unfolding m by (rule bit_word_eqI) (auto simp: bit_simps)
  show "((k AND NOT 0xff) OR take_bit 8 x) AND NOT 0xff = k AND NOT (0xff :: 32 word)"
    unfolding m by (rule bit_word_eqI) (auto simp: bit_simps)
qed

lemma unat_take_bit_8: "unat (take_bit 8 (x :: 32 word)) = unat x mod 256"
proof -
  have "unat (take_bit 8 x) = take_bit 8 (unat x)" by (rule unsigned_take_bit_eq)
  also have "\<dots> = unat x mod 256" by (simp only: take_bit_eq_mod) simp
  finally show ?thesis .
qed

lemma unat_plus_mod_256: "unat (x + y :: 32 word) mod 256 = (unat x + unat y) mod 256"
proof -
  have "unat (x + y) mod 256 = ((unat x + unat y) mod 2 ^ 32) mod 256"
    by (simp add: unat_word_ariths take_bit_eq_mod)
  then show ?thesis by (simp add: mod_mod_cancel)
qed

lemma take_bit_plus_1: "take_bit 8 (take_bit 8 x + 1) = take_bit 8 (x + 1 :: 32 word)"
  by (simp add: word_unat_eq_iff unat_take_bit_8 unat_plus_mod_256 mod_simps)

lemma inc_rkey_times:
  "(ibv_inc_rkey ^^ n) k = (k AND NOT 0xff) OR take_bit 8 (k + of_nat n)"
proof (induction n)
  case 0
  have m: "(0xff :: 32 word) = mask 8" by (simp add: mask_eq_exp_minus_1)
  show ?case unfolding m by (rule bit_word_eqI) (auto simp: bit_simps)
next
  case (Suc n)
  let ?x = "(k AND NOT 0xff) OR take_bit 8 (k + of_nat n)"
  have "take_bit 8 (?x + 1) = take_bit 8 (take_bit 8 ?x + 1)"
    by (rule take_bit_plus_1 [symmetric])
  also have "\<dots> = take_bit 8 (take_bit 8 (k + of_nat n) + 1)"
    by (simp only: take_bit_parts)
  also have "\<dots> = take_bit 8 (k + of_nat n + 1)"
    by (rule take_bit_plus_1)
  also have "\<dots> = take_bit 8 (k + of_nat (Suc n))"
    by (simp add: ac_simps)
  finally show ?case
    using Suc.IH by (simp only: funpow.simps o_apply inc_rkey_eq [of ?x] take_bit_parts(2))
qed

text \<open>\<open>ibv_inc_rkey\<close> adds one to the tag, the lower eight bits of the key, modulo 256, and
  leaves the upper 24 bits alone: a window's key never turns into the key of another object, and
  exactly after every 256 increments it is the old key again.\<close>

theorem inc_rkey_correct:
  "ibv_inc_rkey k AND NOT 0xff = k AND NOT 0xff \<and>
   unat (take_bit 8 (ibv_inc_rkey k)) = (unat k + 1) mod 256 \<and>
   ((ibv_inc_rkey ^^ n) k = k \<longleftrightarrow> n mod 256 = 0)"
proof (intro conjI)
  show "ibv_inc_rkey k AND NOT 0xff = k AND NOT 0xff"
    unfolding inc_rkey_eq by (rule take_bit_parts(2))
  have r: "unat (take_bit 8 (k + of_nat n)) = (unat k + n) mod 256" for n
  proof -
    have "unat (take_bit 8 (k + of_nat n)) = (unat k + n mod 2 ^ 32) mod 256"
      by (simp add: unat_take_bit_8 unat_plus_mod_256 unat_of_nat)
    also have "\<dots> = (unat k + n mod 2 ^ 32 mod 256) mod 256" by (simp add: mod_add_right_eq)
    also have "\<dots> = (unat k + n) mod 256" by (simp add: mod_mod_cancel mod_add_right_eq)
    finally show ?thesis .
  qed
  show "unat (take_bit 8 (ibv_inc_rkey k)) = (unat k + 1) mod 256"
    using r [of 1] by (simp add: inc_rkey_eq take_bit_parts(1))
  show "(ibv_inc_rkey ^^ n) k = k \<longleftrightarrow> n mod 256 = 0"
  proof
    assume "(ibv_inc_rkey ^^ n) k = k"
    then have "take_bit 8 k = take_bit 8 (k + of_nat n)"
      by (metis inc_rkey_times take_bit_parts(1))
    then have "unat k mod 256 = (unat k + n) mod 256"
      using r [of n] by (metis unat_take_bit_8)
    then have "256 dvd (unat k + n) - unat k"
      by (subst mod_eq_dvd_iff_nat [symmetric]) simp_all
    then show "n mod 256 = 0" by simp
  next
    assume "n mod 256 = 0"
    then have "unat (take_bit 8 (k + of_nat n)) = unat (take_bit 8 (k + of_nat 0))"
      unfolding r by (metis mod_add_right_eq)
    then have "take_bit 8 (k + of_nat n) = take_bit 8 (k + of_nat 0)" by (simp only: word_unat_eq_iff)
    then show "(ibv_inc_rkey ^^ n) k = k"
      using inc_rkey_times [of n k] inc_rkey_times [of 0 k] by simp
  qed
qed

section \<open>The test for an extended verb\<close>

text \<open>
  A provider's structure of \<open>sz\<close> bytes around the context \<open>ctx\<close>: it ends where the context ends
  and starts wherever the release it was built with starts; it holds at least its size.
\<close>

definition extended_context :: "ptr \<Rightarrow> nat \<Rightarrow> vstate \<Rightarrow> bool" where
  "extended_context ctx sz s \<longleftrightarrow> ctx \<noteq> NULL \<and> ctx - of_nat context_off \<noteq> NULL \<and>
     ibv_context_size + 8 \<le> sz \<and> sz \<le> verbs_context_size \<and>
     allocated (vmem s) (ctx + of_nat ibv_context_size - of_nat sz) sz \<and>
     field64 ctx abi_compat_off s = Some VERBS_ABI_IS_EXTENDED \<and>
     field64 (ctx - of_nat context_off) (vop_off V_sz) s = Some (of_nat sz)"

definition legacy_context :: "ptr \<Rightarrow> vstate \<Rightarrow> bool" where
  "legacy_context ctx s \<longleftrightarrow> (\<exists>a. field64 ctx abi_compat_off s = Some a \<and> a \<noteq> VERBS_ABI_IS_EXTENDED)"

lemma vop_off_le: "vop_off op \<le> 200"
  by (cases op) (simp_all add: vop_off_def verbs_context_def)

lemma sizes: "context_off = 208" "verbs_context_size = 536" "vop_off V_sz = 200"
  by (simp_all add: context_off_def verbs_context_size_def ibv_context_size_def verbs_context_def
    vop_off_def)

text \<open>The slot of a verb that the size admits is inside the structure.\<close>

lemma slot_inside:
  assumes "extended_context ctx sz s" "verbs_context_size - vop_off op \<le> sz"
  shows "allocated (vmem s) (ctx - of_nat context_off + of_nat (vop_off op)) 8"
proof -
  let ?b = "ctx + of_nat ibv_context_size - of_nat sz"
  let ?k = "sz - (verbs_context_size - vop_off op)"
  note o = vop_off_le [of op]
  have k: "?k + 8 \<le> sz"
    using assms o by (auto simp: extended_context_def sizes ibv_context_size_def)
  have "(of_nat sz :: ptr) = of_nat ?k + of_nat (verbs_context_size - vop_off op)"
    using assms(2) by (simp flip: of_nat_add)
  also have "\<dots> = of_nat ?k + (of_nat 536 - of_nat (vop_off op))"
    using o by (subst of_nat_diff) (simp_all add: sizes)
  finally have eq: "ctx - of_nat context_off + of_nat (vop_off op) = ?b + of_nat ?k"
    by (simp add: sizes ibv_context_size_def)
  have "span (?b + of_nat ?k) 8 \<subseteq> span ?b sz"
  proof
    fix a assume "a \<in> span (?b + of_nat ?k) 8"
    then obtain i where "i < 8" "a = ?b + of_nat ?k + of_nat i" by (auto simp: span_def)
    then have "a = ?b + of_nat (?k + i)" "?k + i < sz" using k by auto
    then show "a \<in> span ?b sz" unfolding span_def by blast
  qed
  also have "\<dots> \<subseteq> dom (vmem s) - {NULL}"
    using assms(1) by (simp add: extended_context_def allocated_def)
  finally show ?thesis unfolding allocated_def eq .
qed

lemma field64_read:
  "p \<noteq> NULL \<Longrightarrow> allocated (vmem s) (p + of_nat off) 8 \<Longrightarrow> \<exists>v. field64 p off s = Some v"
  using read_bytes_total [of "vmem s" "p + of_nat off" 8]
  by (auto simp: field64_def read_u64_def)


text \<open>A provider of an old release: its structure has the last four members only.\<close>

definition old_byte :: "ptr \<Rightarrow> 8 word" where
  "old_byte a = (if 0x1140 \<le> a then 0xff else if a = 0xff8 then 0x68 else if a = 0xff9 then 1
     else if a = 0xfe0 then 0x77 else 0)"

definition old_state :: vstate where
  "old_state = \<lparr>vmem = (\<lambda>a. if 0xfe0 \<le> a \<and> a < 0x1148 then Some (old_byte a) else None), verrno = 0\<rparr>"

lemma old_alloc: "unat p + n \<le> 0x1148 \<Longrightarrow> 0xfe0 \<le> unat p \<Longrightarrow> allocated (vmem old_state) p n"
  using span_unat [of p n]
  by (auto simp: allocated_def old_state_def word_le_nat_alt word_less_nat_alt split: if_splits)

lemma read_u64_unfold:
  "read_u64 h p = do {
     b0 \<leftarrow> load h p; b1 \<leftarrow> load h (p + 1); b2 \<leftarrow> load h (p + 2); b3 \<leftarrow> load h (p + 3);
     b4 \<leftarrow> load h (p + 4); b5 \<leftarrow> load h (p + 5); b6 \<leftarrow> load h (p + 6); b7 \<leftarrow> load h (p + 7);
     Some (from_le [b0, b1, b2, b3, b4, b5, b6, b7]) }"
proof -
  have "read_bytes h p 8 = read_bytes h p (Suc (Suc (Suc (Suc (Suc (Suc (Suc (Suc 0))))))))"
    by (simp add: eval_nat_numeral)
  then show ?thesis
    by (simp add: read_u64_def add.assoc Option.map_conv_bind_option o_def)
qed

lemma old_fields:
  "field64 0x1000 abi_compat_off old_state = Some VERBS_ABI_IS_EXTENDED"
  "field64 (0x1000 - of_nat context_off) (vop_off V_sz) old_state = Some (of_nat 360)"
  "field64 (0x1000 - of_nat context_off) (vop_off V_open_xrcd) old_state = Some 0x77"
proof -
  show "field64 0x1000 abi_compat_off old_state = Some VERBS_ABI_IS_EXTENDED"
    by (simp add: field64_def read_u64_unfold abi_compat_off_def old_state_def old_byte_def
      VERBS_ABI_IS_EXTENDED_def)
  show "field64 (0x1000 - of_nat context_off) (vop_off V_sz) old_state = Some (of_nat 360)"
    by (simp add: field64_def read_u64_unfold sizes old_state_def old_byte_def)
  have "vop_off V_open_xrcd = 176" by (simp add: vop_off_def verbs_context_def)
  then show "field64 (0x1000 - of_nat context_off) (vop_off V_open_xrcd) old_state = Some 0x77"
    by (simp add: field64_def read_u64_unfold sizes old_state_def old_byte_def)
qed

lemma old_context: "extended_context 0x1000 360 old_state"
  using old_fields by (simp add: extended_context_def ibv_context_size_def sizes old_alloc)


section \<open>A provider without extended verbs\<close>

lemma legacy_none: "legacy_context ctx s \<Longrightarrow> verbs_get_ctx_op ctx op s = Some NULL"
  by (auto simp: legacy_context_def verbs_get_ctx_op_def verbs_get_ctx_def)

lemma legacy_ext:
  "legacy_context ctx s \<Longrightarrow> ext_ptr P op ctx args s = Some (NULL, s\<lparr>verrno := ENOSYS\<rparr>)"
  "legacy_context ctx s \<Longrightarrow> ext_int P op ctx args s = Some (ENOSYS, s)"
  by (simp_all add: ext_ptr_def ext_int_def legacy_none)

text \<open>C38. Against a provider without the extension every extended verb reports it and the
  provider is never called: those that make an object return NULL with \<open>errno\<close> set to \<open>ENOSYS\<close>,
  the others return \<open>ENOSYS\<close> and change nothing, \<open>ibv_destroy_flow\<close> returns it negated,
  \<open>ibv_post_srq_ops\<close> names the first operation as the failed one, and \<open>ibv_query_device_ex\<close>
  clears the attributes and asks the old verb. \<open>ibv_close_xrcd\<close> alone makes no test: it
  dereferences NULL.\<close>

theorem legacy_provider_errors:
  assumes l: "legacy_context ctx s"
    and obj: "field64 p 0 s = Some ctx" "field64 fl 8 s = Some ctx"
    and srq: "field32 a 20 s = Some m" "field32 a 24 s = Some ty" "m AND NOT 3 \<noteq> 0"
    and qp: "field32 b 60 s = Some n" "n \<noteq> 1"
    and out: "write_bytes (vmem s) out (to_le 8 op) = Some h"
    and clear: "write_bytes (vmem s) d (replicate (pv_attr_ex_size P) 0) = Some h2"
  defines "failed \<equiv> Some (NULL, s\<lparr>verrno := ENOSYS\<rparr>)"
  shows "(ibv_create_flow P p x s = failed \<and> ibv_open_xrcd P ctx x s = failed \<and>
      ibv_create_cq_ex P ctx x s = failed \<and> ibv_create_srq_ex P ctx a s = failed \<and>
      ibv_create_qp_ex P ctx b s = failed \<and> ibv_alloc_td P ctx x s = failed \<and>
      ibv_alloc_parent_domain P ctx x s = failed \<and> ibv_open_qp P ctx x s = failed \<and>
      ibv_create_wq P ctx x s = failed \<and> ibv_create_rwq_ind_table P ctx x s = failed) \<and>
    (ibv_modify_cq P p x s = Some (ENOSYS, s) \<and> ibv_get_srq_num P p x s = Some (ENOSYS, s) \<and>
      ibv_dealloc_td P p s = Some (ENOSYS, s) \<and> ibv_modify_wq P p x s = Some (ENOSYS, s) \<and>
      ibv_query_rt_values_ex P ctx x s = Some (ENOSYS, s) \<and>
      ibv_destroy_wq P p s = Some (ENOSYS, s) \<and>
      ibv_destroy_rwq_ind_table P p s = Some (ENOSYS, s)) \<and>
    ibv_destroy_flow P fl s = Some (- ENOSYS, s) \<and>
    ibv_post_srq_ops P p op out s = Some (ENOSYS, s\<lparr>vmem := h\<rparr>) \<and>
    ibv_query_device_ex P ctx x d s =
      Some (to_int (pv_lib P Lib_query_device [ctx, d] (s\<lparr>vmem := h2\<rparr>))) \<and>
    ibv_close_xrcd P p s = None"
proof -
  have "ibv_create_srq_ex P ctx a s = failed"
    using srq legacy_ext(1) [OF l]
    by (simp add: ibv_create_srq_ex_def failed_def IBV_SRQ_INIT_ATTR_PD_def IBV_SRQ_INIT_ATTR_TYPE_def)
  moreover have "ibv_create_qp_ex P ctx b s = failed"
    using qp legacy_ext(1) [OF l]
    by (simp add: ibv_create_qp_ex_def failed_def IBV_QP_INIT_ATTR_PD_def)
  moreover have "ibv_close_xrcd P p s = None"
    using l obj by (auto simp: ibv_close_xrcd_def legacy_context_def verbs_get_ctx_def
      vctx_call_def field64_def)
  moreover have "ibv_query_device_ex P ctx x d s =
      Some (to_int (pv_lib P Lib_query_device [ctx, d] (s\<lparr>vmem := h2\<rparr>)))"
    using clear by (simp add: ibv_query_device_ex_def query_device_legacy_def legacy_none [OF l])
  moreover have "ibv_post_srq_ops P p op out s = Some (ENOSYS, s\<lparr>vmem := h\<rparr>)"
    using obj out by (simp add: ibv_post_srq_ops_def legacy_none [OF l])
  ultimately show ?thesis
    using obj legacy_ext [OF l] legacy_none [OF l]
    by (simp add: failed_def ibv_create_flow_def ibv_open_xrcd_def ibv_create_cq_ex_def
      ibv_alloc_td_def ibv_alloc_parent_domain_def ibv_open_qp_def ibv_create_wq_def
      ibv_create_rwq_ind_table_def ibv_modify_cq_def ibv_get_srq_num_def ibv_dealloc_td_def
      ibv_modify_wq_def ibv_query_rt_values_ex_def ibv_destroy_wq_def
      ibv_destroy_rwq_ind_table_def ibv_destroy_flow_def)
qed

text \<open>
  A context at 0x1000 without the extension; at 0x2000 an object whose first two words both point
  to it, with the attribute masks the theorem asks for.
\<close>

definition bare_byte :: "ptr \<Rightarrow> 8 word" where
  "bare_byte a = (if a = 0x2001 \<or> a = 0x2009 then 0x10 else if a = 0x2014 then 4
     else if a = 0x203c then 2 else 0)"

definition bare_state :: vstate where
  "bare_state = \<lparr>vmem = (\<lambda>a. if 0x1000 \<le> a \<and> a < 0x3000 then Some (bare_byte a) else None), verrno = 0\<rparr>"

definition no_provider :: provider where
  "no_provider = \<lparr>pv_call = (\<lambda>f args s. (0, s)), pv_lib = (\<lambda>f args s. (7, s)), pv_attr_ex_size = 16\<rparr>"

lemma read_u32_unfold:
  "read_u32 h p = do {
     b0 \<leftarrow> load h p; b1 \<leftarrow> load h (p + 1); b2 \<leftarrow> load h (p + 2); b3 \<leftarrow> load h (p + 3);
     Some (from_le [b0, b1, b2, b3]) }"
proof -
  have "read_bytes h p 4 = read_bytes h p (Suc (Suc (Suc (Suc 0))))"
    by (simp add: eval_nat_numeral)
  then show ?thesis
    by (simp add: read_u32_def add.assoc Option.map_conv_bind_option o_def)
qed

lemma bare_fields:
  "field64 0x1000 abi_compat_off bare_state = Some 0"
  "field64 0x2000 0 bare_state = Some 0x1000" "field64 0x2000 8 bare_state = Some 0x1000"
  "field32 0x2000 20 bare_state = Some 4" "field32 0x2000 24 bare_state = Some 0"
  "field32 0x2000 60 bare_state = Some 2"
  by (simp_all add: field64_def field32_def read_u64_unfold read_u32_unfold abi_compat_off_def
    bare_state_def bare_byte_def)

lemma bare_alloc: "unat p + n \<le> 0x3000 \<Longrightarrow> 0x1000 \<le> unat p \<Longrightarrow> allocated (vmem bare_state) p n"
  using span_unat [of p n]
  by (auto simp: allocated_def bare_state_def word_le_nat_alt word_less_nat_alt split: if_splits)

theorem legacy_provider_errors_witness:
  "\<exists>h h2. ibv_create_flow no_provider 0x2000 1 bare_state =
      Some (NULL, bare_state\<lparr>verrno := ENOSYS\<rparr>) \<and>
    ibv_create_qp_ex no_provider 0x1000 0x2000 bare_state =
      Some (NULL, bare_state\<lparr>verrno := ENOSYS\<rparr>) \<and>
    ibv_destroy_flow no_provider 0x2000 bare_state = Some (- 38, bare_state) \<and>
    ibv_post_srq_ops no_provider 0x2000 5 0x2800 bare_state = Some (38, bare_state\<lparr>vmem := h\<rparr>) \<and>
    ibv_query_device_ex no_provider 0x1000 1 0x2900 bare_state = Some (7, bare_state\<lparr>vmem := h2\<rparr>) \<and>
    ibv_close_xrcd no_provider 0x2000 bare_state = None"
proof -
  have l: "legacy_context 0x1000 bare_state"
    using bare_fields(1) by (simp add: legacy_context_def VERBS_ABI_IS_EXTENDED_def)
  obtain h where h: "write_bytes (vmem bare_state) 0x2800 (to_le 8 (5 :: ptr)) = Some h"
    using write_bytes_total [of "vmem bare_state" "0x2800" "to_le 8 (5 :: ptr)"] bare_alloc by auto
  obtain h2 where h2: "write_bytes (vmem bare_state) 0x2900
      (replicate (pv_attr_ex_size no_provider) 0) = Some h2"
    using write_bytes_total [of "vmem bare_state" "0x2900" "replicate (pv_attr_ex_size no_provider) 0"]
      bare_alloc by (auto simp: no_provider_def)
  from legacy_provider_errors [OF l bare_fields(2-5) _ bare_fields(6) _ h h2, where x = 1]
  show ?thesis
    by (intro exI [of _ h] exI [of _ h2]) (simp add: ENOSYS_def to_int_def no_provider_def)
qed

end
