(* ===== verification/Hmp_Keep.thy ===== *)
theory Hmp_Keep
  imports Hmp_Transport Hmp_Vc
begin

text \<open>
  Invariants of the event thread, proved once for all of them. \<open>whenever m Q\<close> is partial
  correctness of a run (it may fault; if it does not, \<open>Q\<close> holds of its result), and \<open>keeps\<close> the
  special case of an invariant that goes in and comes out. The locale \<open>quiet\<close> asks of an invariant
  that the primitive steps keep it, with no change of a transport's state among them, and follows
  the operations built from them; \<open>linking\<close> adds the table of the connections, \<open>moving\<close> the
  changes of state, \<open>starting\<close> what makes and starts a transport, \<open>serving\<close> what a completion may
  do, and \<open>kept\<close> joins them and adds the stop flag: they follow the handlers, up to a turn of the
  event loop.
\<close>

section \<open>Partial correctness\<close>

definition whenever :: "'a option \<Rightarrow> ('a \<Rightarrow> bool) \<Rightarrow> bool" where
  "whenever m Q \<longleftrightarrow> (\<forall>x. m = Some x \<longrightarrow> Q x)"

definition keeps :: "(sys \<Rightarrow> bool) \<Rightarrow> sys option \<Rightarrow> bool" where
  "keeps I m \<longleftrightarrow> whenever m I"

definition keeps2 :: "(sys \<Rightarrow> bool) \<Rightarrow> ('a \<times> sys) option \<Rightarrow> bool" where
  "keeps2 I m \<longleftrightarrow> whenever m (\<lambda>(r, s). I s)"

named_theorems keep \<open>introduction rules for the operations that keep an invariant\<close>

lemma wheneverD: "whenever m Q \<Longrightarrow> m = Some x \<Longrightarrow> Q x"
  by (simp add: whenever_def)

lemma keepsD: "keeps I m \<Longrightarrow> m = Some s \<Longrightarrow> I s"
  by (simp add: keeps_def whenever_def)

lemma keeps2D: "keeps2 I m \<Longrightarrow> m = Some (r, s) \<Longrightarrow> I s"
  by (auto simp: keeps2_def whenever_def)

lemma keeps_base [keep]:
  "I s \<Longrightarrow> keeps I (Some s)" "keeps I None" "I s \<Longrightarrow> keeps2 I (Some (r, s))" "keeps2 I None"
  by (simp_all add: keeps_def keeps2_def whenever_def)

lemma keeps_if [keep]:
  "(b \<Longrightarrow> keeps I m) \<Longrightarrow> (\<not> b \<Longrightarrow> keeps I n) \<Longrightarrow> keeps I (if b then m else n)"
  "(b \<Longrightarrow> keeps2 I m2) \<Longrightarrow> (\<not> b \<Longrightarrow> keeps2 I n2) \<Longrightarrow> keeps2 I (if b then m2 else n2)"
  by simp_all

lemma keeps_bind [keep]:
  "keeps I m \<Longrightarrow> (\<And>s. I s \<Longrightarrow> keeps I (f s)) \<Longrightarrow> keeps I (Option.bind m f)"
  "keeps I m \<Longrightarrow> (\<And>s. I s \<Longrightarrow> keeps2 I (g s)) \<Longrightarrow> keeps2 I (Option.bind m g)"
  "keeps2 I n \<Longrightarrow> (\<And>r s. I s \<Longrightarrow> keeps I (h (r, s))) \<Longrightarrow> keeps I (Option.bind n h)"
  "keeps2 I n \<Longrightarrow> (\<And>r s. I s \<Longrightarrow> keeps2 I (k (r, s))) \<Longrightarrow> keeps2 I (Option.bind n k)"
  by (auto simp: keeps_def keeps2_def whenever_def Option.bind_eq_Some_conv)

lemma keeps_pure:
  "(\<And>x. keeps I (f x)) \<Longrightarrow> keeps I (Option.bind m f)"
  "(\<And>x. keeps2 I (g x)) \<Longrightarrow> keeps2 I (Option.bind m g)"
  by (auto simp: keeps_def keeps2_def whenever_def Option.bind_eq_Some_conv)

lemma whenever_keeps:
  "keeps I m \<Longrightarrow> (\<And>s. I s \<Longrightarrow> whenever (f s) Q) \<Longrightarrow> whenever (Option.bind m f) Q"
  "keeps2 I n \<Longrightarrow> (\<And>r s. I s \<Longrightarrow> whenever (g (r, s)) Q) \<Longrightarrow> whenever (Option.bind n g) Q"
  by (auto simp: keeps_def keeps2_def whenever_def Option.bind_eq_Some_conv)

lemma whenever_pure: "(\<And>x. m = Some x \<Longrightarrow> whenever (f x) Q) \<Longrightarrow> whenever (Option.bind m f) Q"
  by (auto simp: whenever_def Option.bind_eq_Some_conv)

lemma whenever_base:
  "Q x \<Longrightarrow> whenever (Some x) Q" "whenever None Q"
  "(b \<Longrightarrow> whenever m Q) \<Longrightarrow> (\<not> b \<Longrightarrow> whenever n Q) \<Longrightarrow> whenever (if b then m else n) Q"
  by (simp_all add: whenever_def)

lemma keeps_case_prod [keep]:
  "(\<And>a b. x = (a, b) \<Longrightarrow> keeps I (f a b)) \<Longrightarrow> keeps I (case x of (a, b) \<Rightarrow> f a b)"
  "(\<And>a b. x = (a, b) \<Longrightarrow> keeps2 I (g a b)) \<Longrightarrow> keeps2 I (case x of (a, b) \<Rightarrow> g a b)"
  by (cases x; simp)+

text \<open>Reads, whose result does not matter here.\<close>

lemma keeps_reads [keep]:
  "(\<And>x. keeps I (f1 x)) \<Longrightarrow> keeps I (Option.bind (load h p) f1)"
  "(\<And>x. keeps2 I (g1 x)) \<Longrightarrow> keeps2 I (Option.bind (load h p) g1)"
  "(\<And>x. keeps I (f2 x)) \<Longrightarrow> keeps I (Option.bind (get_info i s) f2)"
  "(\<And>x. keeps I (f3 x)) \<Longrightarrow> keeps I (Option.bind (pool_lkey s) f3)"
  "(\<And>x. keeps2 I (g4 x)) \<Longrightarrow> keeps2 I (Option.bind (hmp_device_lookup E n v s) g4)"
  by (rule keeps_pure; assumption)+

lemma keeps_loop:
  assumes "I s" "\<And>s. I s \<Longrightarrow> whenever (f s) (\<lambda>r. case r of Inl s \<Rightarrow> I s | Inr s \<Rightarrow> I s)"
  shows "keeps I (loop f s)"
  unfolding keeps_def whenever_def
proof (intro allI impI)
  fix s' assume "loop f s = Some s'"
  then show "I s'"
    by (rule loop_partial [where I = I]) (use assms in \<open>fastforce simp: whenever_def\<close>)+
qed

section \<open>Operations without a change of state\<close>

locale quiet =
  fixes E :: env and I :: "sys \<Rightarrow> bool"
  assumes call: "I s \<Longrightarrow> I (record_call c s)"
    and logs: "I s \<Longrightarrow> I (ERROR_LOG m s)" "I s \<Longrightarrow> I (INFO_LOG m s)"
    and trans: "(\<And>t. trans_state (ft t) = trans_state t) \<Longrightarrow> I s \<Longrightarrow> keeps I (upd_trans ft p s)"
    and task: "I s \<Longrightarrow> keeps I (upd_task fk p s)"
    and hcq: "I s \<Longrightarrow> keeps I (upd_hcq fh p s)"
    and cm_id: "I s \<Longrightarrow> keeps I (upd_cm_id fi p s)"
    and bytes: "I s \<Longrightarrow> keeps I (with_mem fm s)"
    and gone: "I s \<Longrightarrow> keeps I (free_hcq p s)"
    and new: "I s \<Longrightarrow> malloc_task E s = (p, s') \<Longrightarrow> I s'" "I s \<Longrightarrow> calloc_hcq E s = (p, s') \<Longrightarrow> I s'"
      "I s \<Longrightarrow> malloc_block E n s = (p, s') \<Longrightarrow> I s'"
    and chan: "I s \<Longrightarrow> I (s\<lparr>chan_fds := cf\<rparr>)"
    and registry: "I s \<Longrightarrow> I (s\<lparr>interest := (interest s)(k := None)\<rparr>)"
    and add_fd: "I s \<Longrightarrow> keeps2 I (hmp_context_add_event_fd E ctx ev fd d h s)"
begin

lemmas steps [keep] = call logs trans task hcq cm_id bytes gone chan registry add_fd

lemma calls:
  "I s \<Longrightarrow> int_call E c s = (r, s') \<Longrightarrow> I s'"
  "I s \<Longrightarrow> ptr_call E c s = (p, s') \<Longrightarrow> I s'"
  "I s \<Longrightarrow> epoll_ctl_del E ep fd s = (r, s') \<Longrightarrow> I s'"
  "I s \<Longrightarrow> set_nonblock E fd s = (r, s') \<Longrightarrow> I s'"
  "I s \<Longrightarrow> ibv_create_comp_channel E v s = (p, s') \<Longrightarrow> I s'"
  "I s \<Longrightarrow> rdma_create_event_channel E s = (p, s') \<Longrightarrow> I s'"
  by (auto simp: int_call_def ptr_call_def epoll_ctl_del_def set_nonblock_def
    ibv_create_comp_channel_def rdma_create_event_channel_def Let_def split: if_splits
    intro: call chan registry registry [OF call, simplified])

lemma destroy [keep]:
  "I s \<Longrightarrow> I (ibv_destroy_comp_channel p s)" "I s \<Longrightarrow> I (rdma_destroy_event_channel p s)"
  by (auto simp: ibv_destroy_comp_channel_def rdma_destroy_event_channel_def intro!: call chan)

lemma del_event_fd [keep]: "I s \<Longrightarrow> keeps2 I (hmp_context_del_event_fd E ctx fd s)"
  unfolding hmp_context_del_event_fd_def Let_def
  by (auto intro!: keep dest: calls)

lemma set_task_lkey [keep]: "I s \<Longrightarrow> keeps I (set_task_lkey d p s)"
  unfolding set_task_lkey_def by (auto intro!: keep)

lemma send_task [keep]: "I s \<Longrightarrow> keeps2 I (hmp_send_task_create E p m d s)"
  unfolding hmp_send_task_create_def Let_def by (auto intro!: keep dest: new)

lemma recv_task [keep]: "I s \<Longrightarrow> keeps2 I (hmp_recv_task_create E p m d s)"
  unfolding hmp_recv_task_create_def Let_def by (auto intro!: keep dest: new)

lemma post_recv [keep]: "I s \<Longrightarrow> keeps I (hmp_post_recv E p s)"
  unfolding hmp_post_recv_def Let_def by (auto intro!: keep dest: calls)

lemma pre_post_recv [keep]: "I s \<Longrightarrow> keeps I (hmp_pre_post_recv E p s)"
  unfolding hmp_pre_post_recv_def by (auto intro!: keep)

lemma post_send [keep]: "I s \<Longrightarrow> keeps I (hmp_post_send E p m s)"
  unfolding hmp_post_send_def Let_def by (auto intro!: keep dest: calls)

lemma build_init_msg [keep]: "I s \<Longrightarrow> keeps2 I (hmp_build_init_msg E s)"
  unfolding hmp_build_init_msg_def Let_def by (auto intro!: keep dest: new)

lemma clean [keep]:
  "I s \<Longrightarrow> keeps2 I (cleanhcq p s)"
  "I s \<Longrightarrow> keeps2 I (cleanchannel p s)"
  "I s \<Longrightarrow> keeps2 I (cleaneventfd E c p s)"
  by (auto simp: cleanhcq_def cleanchannel_def cleaneventfd_def intro!: keep)

lemma cq_get [keep]: "I s \<Longrightarrow> keeps2 I (hmp_cq_get E d c s)"
  unfolding hmp_cq_get_def Let_def by (auto intro!: keep dest: new calls)

lemma create_qp [keep]: "I s \<Longrightarrow> keeps2 I (rdma_create_qp E i pd a s)"
  unfolding rdma_create_qp_def Let_def by (auto intro!: keep dest: calls)

lemma qp_create [keep]: "I s \<Longrightarrow> keeps2 I (hmp_qp_create E p s)"
  unfolding hmp_qp_create_def Let_def by (auto intro!: keep)

lemma qp_release [keep]: "I s \<Longrightarrow> keeps I (hmp_qp_release E p s)"
  unfolding hmp_qp_release_def Let_def by (auto intro!: keep)

lemma set_region [keep]: "I s \<Longrightarrow> keeps I (set_region p i s)"
  unfolding set_region_def Let_def by (auto intro!: keep)

lemma destroy_qp [keep]: "I s \<Longrightarrow> keeps I (rdma_destroy_qp i s)"
  unfolding rdma_destroy_qp_def by (auto intro!: keep)

lemma cleanec [keep]: "I s \<Longrightarrow> keeps2 I (cleanec p r s)"
  unfolding cleanec_def by (auto intro!: keep)

lemma event_channel [keep]: "I s \<Longrightarrow> keeps2 I (hmp_event_channel_create E p s)"
  unfolding hmp_event_channel_create_def Let_def by (auto intro!: keep dest: calls)

end

text \<open>The table of the connections may change.\<close>

locale linking = quiet +
  assumes peer: "I s \<Longrightarrow> keeps I (set_connect_trans i q s)"
begin

lemma assign_peer [keep]: "I s \<Longrightarrow> keeps I (assign_peer n i a p s)"
  by (induction n arbitrary: i s) (auto intro!: keep peer)

end

text \<open>The state of a transport may change.\<close>

locale moving = quiet +
  assumes state: "I s \<Longrightarrow> keeps I (upd_trans ft p s)"

section \<open>Transports\<close>

locale starting = moving +
  assumes create: "I s \<Longrightarrow> calloc_transport E s = (p, s') \<Longrightarrow> I s'" "I s \<Longrightarrow> keeps I (free_transport p s)"
    and ids: "I s \<Longrightarrow> I (s\<lparr>cm_ids := ci\<rparr>)"
begin

lemmas open_steps [keep] = state create(2) ids

lemma transport_create [keep]: "I s \<Longrightarrow> keeps2 I (hmp_transport_create E n c s)"
  unfolding hmp_transport_create_def Let_def by (auto intro!: keep dest: create(1))

lemma create_id [keep]: "I s \<Longrightarrow> keeps2 I (rdma_create_id E c p s)"
  unfolding rdma_create_id_def Let_def by (auto intro!: keep dest: calls)

lemma destroy_id [keep]: "I s \<Longrightarrow> keeps I (rdma_destroy_id i s)"
  unfolding rdma_destroy_id_def by (auto intro!: keep)

lemma cleanid [keep]: "I s \<Longrightarrow> keeps2 I (cleanid p r s)"
  unfolding cleanid_def by (auto intro!: keep)

lemma port_uri [keep]: "I s \<Longrightarrow> keeps2 I (hmp_port_uri_init E p u n s)"
  unfolding hmp_port_uri_init_def Let_def by (auto intro!: keep dest: calls)

lemma listen [keep]: "I s \<Longrightarrow> keeps2 I (hmp_transport_listen E p n s)"
  unfolding hmp_transport_listen_def Let_def by (auto intro!: keep dest: calls)

lemma connect [keep]: "I s \<Longrightarrow> keeps2 I (hmp_transport_connect E p u n s)"
  unfolding hmp_transport_connect_def Let_def by (auto intro!: keep dest: calls)

end

section \<open>Completions\<close>

text \<open>The configuration up to what the peers send: the pools of the nodes.\<close>

definition same_nodes :: "hmp_config \<Rightarrow> hmp_config \<Rightarrow> bool" where
  "same_nodes c c' \<longleftrightarrow> curnode_id c' = curnode_id c \<and> node_cnt c' = node_cnt c \<and>
     map ni_addr (node_infos c') = map ni_addr (node_infos c) \<and>
     map ni_port (node_infos c') = map ni_port (node_infos c)"

lemma same_nodes_refl [simp]: "same_nodes c c"
  by (simp add: same_nodes_def)

lemma same_nodes_trans: "same_nodes a b \<Longrightarrow> same_nodes b c \<Longrightarrow> same_nodes a c"
  by (simp add: same_nodes_def)

lemma map_update_same: "g (f (xs ! k)) = g (xs ! k) \<Longrightarrow> map g (xs[k := f (xs ! k)]) = map g xs"
  by (cases "k < length xs") (simp_all add: map_update list_update_same_conv list_update_beyond)

lemma upd_info_same_nodes:
  "upd_info f i c = Some c' \<Longrightarrow> (\<And>n. ni_addr (f n) = ni_addr n) \<Longrightarrow> (\<And>n. ni_port (f n) = ni_port n) \<Longrightarrow>
   same_nodes c c'"
  by (auto simp: upd_info_def same_nodes_def map_update_same split: if_splits)

locale serving = moving +
  assumes peer_info: "I s \<Longrightarrow> same_nodes (config (curnode s)) c \<Longrightarrow>
      I (upd_curnode (\<lambda>n. n\<lparr>config := c\<rparr>) s)"
begin

lemmas serve_steps [keep] = peer_info state

lemma handle_mr_msg [keep]: "I s \<Longrightarrow> keeps I (hmp_handle_mr_msg p msg s)"
  unfolding hmp_handle_mr_msg_def Let_def
proof (rule keeps_reads)
  fix t assume s: "I s"
  show "keeps I (do {
      a \<leftarrow> read_u64 (mem s) (msg_data msg);
      c \<leftarrow> upd_info (\<lambda>n. n\<lparr>dram_mr := (dram_mr n)\<lparr>mri_addr := a\<rparr>\<rparr>) (trans_node_id t) (config (curnode s));
      l \<leftarrow> read_u64 (mem s) (msg_data msg + 8);
      c \<leftarrow> upd_info (\<lambda>n. n\<lparr>dram_mr := (dram_mr n)\<lparr>mri_length := l\<rparr>\<rparr>) (trans_node_id t) c;
      k \<leftarrow> read_u32 (mem s) (msg_data msg + 8 + 8);
      c \<leftarrow> upd_info (\<lambda>n. n\<lparr>dram_mr := (dram_mr n)\<lparr>mri_rkey := k\<rparr>\<rparr>) (trans_node_id t) c;
      upd_trans (\<lambda>t. t\<lparr>trans_state := HMP_TRANSPORT_STATE_CONNECTED\<rparr>) p
        (INFO_LOG ''node_id %d addr %p length %d rkey %ld'' (upd_curnode (\<lambda>n. n\<lparr>config := c\<rparr>) s)) })"
    unfolding keeps_def
  proof (intro whenever_pure)
    fix a c1 l c2 k c3
    assume "upd_info (\<lambda>n. n\<lparr>dram_mr := (dram_mr n)\<lparr>mri_addr := a\<rparr>\<rparr>) (trans_node_id t) (config (curnode s)) = Some c1"
      "upd_info (\<lambda>n. n\<lparr>dram_mr := (dram_mr n)\<lparr>mri_length := l\<rparr>\<rparr>) (trans_node_id t) c1 = Some c2"
      "upd_info (\<lambda>n. n\<lparr>dram_mr := (dram_mr n)\<lparr>mri_rkey := k\<rparr>\<rparr>) (trans_node_id t) c2 = Some c3"
    then have "same_nodes (config (curnode s)) c3"
      by (auto dest!: upd_info_same_nodes intro: same_nodes_trans)
    then show "whenever (upd_trans (\<lambda>t. t\<lparr>trans_state := HMP_TRANSPORT_STATE_CONNECTED\<rparr>) p
        (INFO_LOG ''node_id %d addr %p length %d rkey %ld'' (upd_curnode (\<lambda>n. n\<lparr>config := c3\<rparr>) s))) I"
      using s by (fold keeps_def) (intro keep)
  qed
qed

lemma wc_success_handler [keep]: "I s \<Longrightarrow> keeps I (hmp_wc_success_handler wc s)"
  unfolding hmp_wc_success_handler_def Let_def
  by (intro keeps_reads keeps_pure) (auto intro!: keep split: ibv_wc_opcode.split option.split)

lemma handle_wc [keep]: "I s \<Longrightarrow> keeps I (handle_wc wc s)"
  by (auto simp: handle_wc_def hmp_wc_error_handler_def intro!: keep)

lemma poll_loop [keep]: "I s \<Longrightarrow> keeps I (poll_loop E cq s)"
  unfolding poll_loop_def
proof (rule keeps_loop, assumption)
  fix s assume "I s"
  then have "I (record_call (Verbs (Poll_cq cq)) s)" by (rule call)
  with handle_wc [of "record_call (Verbs (Poll_cq cq)) s" "e_wc E s"]
  show "whenever (let wc = e_wc E s; (n, s) = int_call E (Verbs (Poll_cq cq)) s
      in if n = 0 then Some (Inr s) else do { s \<leftarrow> handle_wc wc s; Some (Inl s) })
      (\<lambda>r. case r of Inl s \<Rightarrow> I s | Inr s \<Rightarrow> I s)"
    by (auto simp: whenever_def keeps_def int_call_def Let_def Option.bind_eq_Some_conv split: if_splits)
qed

lemma comp_channel_handler [keep]: "I s \<Longrightarrow> keeps I (hmp_cq_comp_channel_handler E fd d s)"
  unfolding hmp_cq_comp_channel_handler_def Let_def
  by (auto intro!: keep dest: calls calls(1) [OF call])

end

section \<open>Events of the connection manager\<close>

locale kept = serving + starting + linking +
  assumes stop: "I s \<Longrightarrow> keeps I (upd_context (\<lambda>c. c\<lparr>ctx_stop := 1\<rparr>) p s)"
begin

lemmas more_steps [keep] = stop peer

lemma fail_transport [keep]: "I s \<Longrightarrow> keeps I (fail_transport p s)"
  unfolding fail_transport_def by (auto intro!: keep)

lemma addr_resolved [keep]: "I s \<Longrightarrow> keeps2 I (on_cm_addr_resolved E ev p s)"
  unfolding on_cm_addr_resolved_def Let_def by (auto intro!: keep dest: calls)

lemma route_resolved [keep]: "I s \<Longrightarrow> keeps2 I (on_cm_route_resolved E ev p s)"
  unfolding on_cm_route_resolved_def Let_def
  by (auto intro!: keep dest: calls calls(1) [OF logs(2)])

lemma connect_request [keep]: "I s \<Longrightarrow> keeps2 I (on_cm_connect_request E ev p s)"
  unfolding on_cm_connect_request_def Let_def by (auto intro!: keep dest: calls)

lemma established [keep]: "I s \<Longrightarrow> keeps2 I (on_cm_established E ev p s)"
  unfolding on_cm_established_def by (auto intro!: keep)

lemma disconnected [keep]: "I s \<Longrightarrow> keeps2 I (on_cm_disconnected E ev p s)"
  unfolding on_cm_disconnected_def by (auto intro!: keep)

lemma handle_ec_event [keep]: "I s \<Longrightarrow> keeps2 I (hmp_handle_ec_event E ev s)"
  unfolding hmp_handle_ec_event_def Let_def
  by (auto intro!: keep split: rdma_cm_event_type.split)

lemma event_channel_handler [keep]: "I s \<Longrightarrow> keeps I (hmp_event_channel_handler E fd d s)"
  unfolding hmp_event_channel_handler_def
proof (rule keeps_loop, assumption)
  fix s assume s: "I s"
  obtain r ev s1 where g: "rdma_get_cm_event E d s = (r, ev, s1)" by (cases "rdma_get_cm_event E d s")
  then have "I s1" using s
    by (auto simp: rdma_get_cm_event_def int_call_def Let_def split: if_splits intro: call ids)
  then have "I (record_call (Cm Ack_cm_event) s1)" "I (ERROR_LOG m s1)" for m by (auto intro: call logs)
  with \<open>I s1\<close> handle_ec_event [of "record_call (Cm Ack_cm_event) s1" ev] g
  show "whenever (let errno = e_errno E s; (retval, event, s) = rdma_get_cm_event E d s
      in if retval = 0 then do {
           let s = record_call (Cm Ack_cm_event) s;
           (r, s) \<leftarrow> hmp_handle_ec_event E event s;
           Some (if r \<noteq> 0 then Inr s else Inl s) }
         else Some (Inr (if errno \<noteq> EAGAIN then ERROR_LOG ''rdma get cm event error.'' s else s)))
      (\<lambda>r. case r of Inl s \<Rightarrow> I s | Inr s \<Rightarrow> I s)"
    by (auto simp: whenever_def keeps2_def Let_def Option.bind_eq_Some_conv split: if_splits)
qed

section \<open>The event loop\<close>

lemma call_handler [keep]: "I s \<Longrightarrow> keeps I (call_handler E h fd d s)"
  by (auto simp: call_handler_def intro!: keep split: hmp_event_handler.split)

lemma run_events [keep]: "I s \<Longrightarrow> keeps I (run_events (call_handler E) n ps s)"
  by (induction n arbitrary: ps s; case_tac ps) (auto intro!: keep)

lemma context_turn [keep]: "I s \<Longrightarrow> keeps2 I (context_turn E (call_handler E) ctx s)"
  unfolding context_turn_def Let_def by (auto intro!: keep dest: calls)

end

end
