(* ===== verification/Conn_Keep.thy ===== *)
theory Conn_Keep
  imports Hmp_Keep
begin

text \<open>
  Which operations leave the connection states alone. \<open>states s\<close> is what the state machine of the
  connections sees of the system: the state of every transport. A fixed value of it is a \<open>quiet\<close>
  invariant.
\<close>

section \<open>The states of the transports\<close>

type_synonym conn_states = "ptr \<rightharpoonup> hmp_transport_state"

definition states :: "sys \<Rightarrow> conn_states" where
  "states s = (\<lambda>p. map_option trans_state (transports s p))"

lemma states_cong: "transports s' = transports s \<Longrightarrow> states s' = states s"
  by (simp add: states_def)

lemma states_fields [simp]:
  "states (record_call c s) = states s"
  "states (put_block f p n s) = states s"
  "states (ERROR_LOG m s) = states s"
  "states (INFO_LOG m s) = states s"
  "states (upd_curnode u s) = states s"
  "states (s\<lparr>curnode := cn\<rparr>) = states s"
  "states (s\<lparr>tasks := tk\<rparr>) = states s"
  "states (s\<lparr>hcqs := hc\<rparr>) = states s"
  "states (s\<lparr>contexts := cx\<rparr>) = states s"
  "states (s\<lparr>event_datas := ed\<rparr>) = states s"
  "states (s\<lparr>links := ls\<rparr>) = states s"
  "states (s\<lparr>mem := mm\<rparr>) = states s"
  "states (s\<lparr>blocks := bs\<rparr>) = states s"
  "states (s\<lparr>cm_ids := ci\<rparr>) = states s"
  "states (s\<lparr>chan_fds := cf\<rparr>) = states s"
  "states (s\<lparr>interest := it\<rparr>) = states s"
  "states (s\<lparr>calls := cl\<rparr>) = states s"
  by (simp_all add: states_def)

text \<open>Primitive steps.\<close>

abbreviation at :: "conn_states \<Rightarrow> sys \<Rightarrow> bool" where
  "at A s \<equiv> states s = A"

lemma states_upd: "transports s p = Some t \<Longrightarrow> trans_state t' = trans_state t \<Longrightarrow>
   states (s\<lparr>transports := (transports s)(p \<mapsto> t')\<rparr>) = states s"
  by (auto simp: states_def fun_eq_iff)

lemma upd_trans_at [keep]:
  "(\<And>t. trans_state (f t) = trans_state t) \<Longrightarrow> at A s \<Longrightarrow> keeps (at A) (upd_trans f p s)"
  by (auto simp: keeps_def whenever_def upd_trans_def modify_eq_Some_iff Option.bind_eq_Some_conv
    states_upd)

lemma upd_other_at [keep]:
  "at A s \<Longrightarrow> keeps (at A) (upd_task fk p s)"
  "at A s \<Longrightarrow> keeps (at A) (upd_hcq fh p s)"
  "at A s \<Longrightarrow> keeps (at A) (upd_context fc p s)"
  "at A s \<Longrightarrow> keeps (at A) (upd_event_data fe p s)"
  "at A s \<Longrightarrow> keeps (at A) (upd_cm_id fi p s)"
  "at A s \<Longrightarrow> keeps (at A) (with_mem fm s)"
  "at A s \<Longrightarrow> keeps (at A) (with_links fl s)"
  "at A s \<Longrightarrow> keeps (at A) (set_connect_trans i q s)"
  "at A s \<Longrightarrow> keeps (at A) (free_hcq p s)"
  "at A s \<Longrightarrow> keeps (at A) (free_event_data p s)"
  by (auto simp: keeps_def whenever_def upd_defs upd_event_data_def set_connect_trans_def free_defs
    Option.bind_eq_Some_conv split: if_splits)

lemma alloc_at:
  "malloc_task E s = (p, s') \<Longrightarrow> states s' = states s"
  "calloc_hcq E s = (p, s') \<Longrightarrow> states s' = states s"
  "calloc_event_data E s = (p, s') \<Longrightarrow> states s' = states s"
  "malloc_block E n s = (p, s') \<Longrightarrow> states s' = states s"
  by (auto simp: malloc_task_def calloc_hcq_def calloc_event_data_def malloc_block_def ptr_call_def
    split: if_splits)

lemma call_at:
  "int_call E c s = (r, s') \<Longrightarrow> states s' = states s"
  "ptr_call E c s = (p, s') \<Longrightarrow> states s' = states s"
  "epoll_ctl_add E ep fd ev d s = (r, s') \<Longrightarrow> states s' = states s"
  "epoll_ctl_del E ep fd s = (r, s') \<Longrightarrow> states s' = states s"
  "set_nonblock E fd s = (r, s') \<Longrightarrow> states s' = states s"
  "ibv_create_comp_channel E v s = (p, s') \<Longrightarrow> states s' = states s"
  "rdma_create_event_channel E s = (p, s') \<Longrightarrow> states s' = states s"
  by (auto simp: int_call_def ptr_call_def epoll_ctl_add_def epoll_ctl_del_def set_nonblock_def
    ibv_create_comp_channel_def rdma_create_event_channel_def Let_def split: if_splits)

lemma add_event_fd_at [keep]:
  "at A s \<Longrightarrow> keeps2 (at A) (hmp_context_add_event_fd E ctx ev fd d h s)"
  unfolding hmp_context_add_event_fd_def Let_def
  by (auto intro!: keep dest!: alloc_at call_at)

interpretation conn: linking E "at A" for E A
  by unfold_locales (auto intro: keep dest: alloc_at)

end
