(* ===== verification/Conn_Machine.thy ===== *)
theory Conn_Machine
  imports Conn_Keep Hmp_Sample Hmp_Access
begin

text \<open>
  The state machine of the connections. The abstract machine sees only the state of every
  transport and says what each event may do to it; the handlers of \<open>hmp_transport.c\<close>, with all
  their calls, refine it. Reachability over the steps of a node then gives the states a transport
  can ever be in.
\<close>

section \<open>The abstract machine\<close>

inductive conn_event ::
  "rdma_cm_event_type \<Rightarrow> ptr \<Rightarrow> int \<Rightarrow> conn_states \<Rightarrow> conn_states \<Rightarrow> bool" where
  quiet: "ev \<in> {RDMA_CM_EVENT_ADDR_RESOLVED, RDMA_CM_EVENT_ESTABLISHED, RDMA_CM_EVENT_DISCONNECTED} \<Longrightarrow>
    conn_event ev p r A A"
| ignored: "ev \<notin> {RDMA_CM_EVENT_ADDR_RESOLVED, RDMA_CM_EVENT_ROUTE_RESOLVED,
      RDMA_CM_EVENT_CONNECT_REQUEST, RDMA_CM_EVENT_ESTABLISHED, RDMA_CM_EVENT_DISCONNECTED,
      RDMA_CM_EVENT_CONNECT_ERROR} \<Longrightarrow> conn_event ev p (- 1) A A"
| routed: "conn_event RDMA_CM_EVENT_ROUTE_RESOLVED p 0 A A"
| no_queue: "r \<noteq> 0 \<Longrightarrow> conn_event RDMA_CM_EVENT_ROUTE_RESOLVED p r A A"
| no_connect: "r \<noteq> 0 \<Longrightarrow> p \<in> dom A \<Longrightarrow>
    conn_event RDMA_CM_EVENT_ROUTE_RESOLVED p r A (A(p \<mapsto> HMP_TRANSPORT_STATE_ERROR))"
| refused: "r \<noteq> 0 \<Longrightarrow> conn_event RDMA_CM_EVENT_CONNECT_REQUEST p r A A"
| abandoned: "r \<noteq> 0 \<Longrightarrow> q \<notin> dom A \<Longrightarrow>
    conn_event RDMA_CM_EVENT_CONNECT_REQUEST p r A (A(q \<mapsto> HMP_TRANSPORT_STATE_INIT))"
| accepted: "q \<notin> dom A \<Longrightarrow>
    conn_event RDMA_CM_EVENT_CONNECT_REQUEST p 0 A (A(q \<mapsto> HMP_TRANSPORT_STATE_CONNECTING))"
| failed: "p \<in> dom A \<Longrightarrow>
    conn_event RDMA_CM_EVENT_CONNECT_ERROR p (- 1) A (A(p \<mapsto> HMP_TRANSPORT_STATE_ERROR))"

inductive_simps conn_request: "conn_event RDMA_CM_EVENT_CONNECT_REQUEST p r A B"
inductive_simps conn_route: "conn_event RDMA_CM_EVENT_ROUTE_RESOLVED p r A B"
inductive_simps conn_error: "conn_event RDMA_CM_EVENT_CONNECT_ERROR p r A B"
inductive_cases conn_eventE: "conn_event ev p r A B"

section \<open>The handlers\<close>

lemma states_put: "transports s p = Some t \<Longrightarrow> trans_state t' = st \<Longrightarrow>
   states (s\<lparr>transports := (transports s)(p \<mapsto> t')\<rparr>) = (states s)(p \<mapsto> st)"
  by (auto simp: states_def fun_eq_iff)

lemma states_dom: "p \<in> dom (states s) \<longleftrightarrow> p \<in> dom (transports s)"
  by (auto simp: states_def)

lemma set_state_eq:
  "upd_trans (\<lambda>t. t\<lparr>trans_state := st\<rparr>) p s = Some s' \<Longrightarrow>
   p \<in> dom (states s) \<and> states s' = (states s)(p \<mapsto> st)"
  by (auto simp: upd_trans_def modify_eq_Some_iff Option.bind_eq_Some_conv states_put states_dom)

lemma whenever_set:
  "(\<And>s'. states s' = (states s)(p \<mapsto> st) \<Longrightarrow> whenever (f s') Q) \<Longrightarrow>
   whenever (Option.bind (upd_trans (\<lambda>t. t\<lparr>trans_state := st\<rparr>) p s) f) Q"
  by (auto intro!: whenever_pure dest!: set_state_eq)

lemma whenever_call:
  "(\<And>r s'. states s' = states s \<Longrightarrow> whenever (f r s') Q) \<Longrightarrow>
   whenever (case int_call E c s of (r, s) \<Rightarrow> f r s) Q"
  by (auto simp: int_call_def)

lemma atD: "keeps (at A) m \<Longrightarrow> m = Some s' \<Longrightarrow> states s' = A"
  by (simp add: keeps_def whenever_def)

lemma at2D: "keeps2 (at A) m \<Longrightarrow> m = Some (r, s') \<Longrightarrow> states s' = A"
  by (auto simp: keeps2_def whenever_def)

lemmas upd_context_same = upd_other_at(3) [OF refl, THEN atD]
lemmas pre_post_recv_same = conn.pre_post_recv [OF refl, THEN atD]
lemmas qp_release_same = conn.qp_release [OF refl, THEN atD]
lemmas assign_peer_same = conn.assign_peer [OF refl, THEN atD]
lemmas qp_create_same = conn.qp_create [OF refl, THEN at2D]
lemmas event_channel_same = conn.event_channel [OF refl, THEN at2D]

lemma fail_transport_eq:
  assumes "fail_transport p s = Some s'"
  shows "p \<in> dom (states s) \<and> states s' = (states s)(p \<mapsto> HMP_TRANSPORT_STATE_ERROR)"
proof -
  from assms obtain c s1 where "upd_context (\<lambda>c. c\<lparr>ctx_stop := 1\<rparr>) c s = Some s1"
      "upd_trans (\<lambda>t. t\<lparr>trans_state := HMP_TRANSPORT_STATE_ERROR\<rparr>) p s1 = Some s'"
    by (auto simp: fail_transport_def Option.bind_eq_Some_conv)
  with set_state_eq upd_context_same show ?thesis by metis
qed

lemma addr_resolved_at: "keeps2 (at (states s)) (on_cm_addr_resolved E ev p s)"
  unfolding on_cm_addr_resolved_def Let_def by (auto intro!: keep dest!: call_at)

lemma established_at: "keeps2 (at (states s)) (on_cm_established E ev p s)"
  unfolding on_cm_established_def Let_def by (auto intro!: keep)

lemma disconnected_at: "keeps2 (at (states s)) (on_cm_disconnected E ev p s)"
  unfolding on_cm_disconnected_def Let_def by (auto intro!: keep)

lemma route_resolved_event:
  assumes run: "on_cm_route_resolved E ev p s = Some (r, s')"
  shows "conn_event RDMA_CM_EVENT_ROUTE_RESOLVED p r (states s) (states s')"
proof -
  from run obtain r1 s1 where q: "hmp_qp_create E p s = Some (r1, s1)"
    by (auto simp: on_cm_route_resolved_def Option.bind_eq_Some_conv)
  note s1 = qp_create_same [OF q]
  show ?thesis
  proof (cases "r1 = 0")
    case False
    with run q s1 show ?thesis by (auto simp: on_cm_route_resolved_def conn_route)
  next
    case True
    with run q obtain s2 where p: "hmp_pre_post_recv E p s1 = Some s2"
      by (auto simp: on_cm_route_resolved_def Option.bind_eq_Some_conv)
    with run q True obtain t where t: "load (transports s2) p = Some t"
      by (auto simp: on_cm_route_resolved_def Option.bind_eq_Some_conv)
    obtain r3 s3 where c: "int_call E (Cm (Connect (trans_cm_id t) connect_param))
        (INFO_LOG ''RDMA Connect.'' s2) = (r3, s3)"
      by (cases "int_call E (Cm (Connect (trans_cm_id t) connect_param))
        (INFO_LOG ''RDMA Connect.'' s2)")
    with run q True p t have rest: "if r \<noteq> 0 then \<exists>s4. hmp_qp_release E p (ERROR_LOG ''rdma connect error.'' s3) = Some s4 \<and>
        fail_transport p s4 = Some s' else s' = s3"
      by (auto simp: on_cm_route_resolved_def Option.bind_eq_Some_conv Let_def split: if_splits)
    have s3: "states s3 = states s"
      using call_at(1) [OF c] pre_post_recv_same [OF p] s1 by simp
    show ?thesis
    proof (cases "r = 0")
      case True
      with rest s3 show ?thesis by (simp add: conn_route)
    next
      case False
      with rest obtain s4 where s4: "hmp_qp_release E p (ERROR_LOG ''rdma connect error.'' s3) = Some s4"
          "fail_transport p s4 = Some s'" by auto
      have "p \<in> dom (states s) \<and> states s' = (states s)(p \<mapsto> HMP_TRANSPORT_STATE_ERROR)"
        using qp_release_same [OF s4(1)] fail_transport_eq [OF s4(2)] s3 by simp
      with False show ?thesis by (auto simp: conn_route)
    qed
  qed
qed

lemma transport_create_event:
  assumes alloc: "alloc_ok E" and run: "hmp_transport_create E n c s = Some (p, s')"
  shows "if p = NULL then states s' = states s
    else p \<notin> dom (states s) \<and> states s' = (states s)(p \<mapsto> HMP_TRANSPORT_STATE_INIT)"
proof -
  let ?c = "Mem (Alloc A_transport)"
  let ?q = "e_ptr E s ?c"
  show ?thesis
  proof (cases "?q = NULL")
    case True
    with run show ?thesis
      by (auto simp: hmp_transport_create_def calloc_transport_def ptr_call_def)
  next
    case False
    let ?s = "(record_call ?c s)\<lparr>transports := (transports s)(?q \<mapsto> zero_transport)\<rparr>"
    let ?A = "(states s)(?q \<mapsto> HMP_TRANSPORT_STATE_INIT)"
    have new: "?q \<notin> dom (states s)"
      using alloc_okD [OF alloc False] by (simp add: states_def unused_block_def unused_def domIff)
    have A: "states ?s = ?A"
      by (auto simp: states_def fun_eq_iff zero_transport_def)
    from run False obtain s1 s2 s3 r s4 where
      s1: "upd_trans (\<lambda>t. t\<lparr>trans_state := HMP_TRANSPORT_STATE_INIT\<rparr>) ?q ?s = Some s1"
      and s2: "upd_trans (\<lambda>t. t\<lparr>trans_ctx := c\<rparr>) ?q s1 = Some s2"
      and s3: "upd_trans (\<lambda>t. t\<lparr>nodeptr := n\<rparr>) ?q s2 = Some s3"
      and s4: "hmp_event_channel_create E ?q s3 = Some (r, s4)"
      and rest: "if r \<noteq> 0 then p = NULL \<and> free_transport ?q (ERROR_LOG ''hmp event channel create error.'' s4) = Some s'
        else p = ?q \<and> s' = s4"
      by (auto simp: hmp_transport_create_def calloc_transport_def ptr_call_def Let_def
        Option.bind_eq_Some_conv split: if_splits)
    have "states s1 = ?A"
      using set_state_eq [OF s1] A by (auto simp: fun_eq_iff)
    moreover have "states s2 = states s1" "states s3 = states s2"
      using upd_trans_at [OF _ refl, THEN atD, OF _ s2] upd_trans_at [OF _ refl, THEN atD, OF _ s3]
      by simp_all
    ultimately have s4: "states s4 = ?A"
      using event_channel_same [OF s4] by simp
    show ?thesis
    proof (cases "r = 0")
      case True
      with rest s4 new False show ?thesis by simp
    next
      case False
      with rest s4 new \<open>?q \<noteq> NULL\<close> show ?thesis
        by (auto simp: free_defs Option.bind_eq_Some_conv states_def fun_eq_iff domIff split: if_splits)
    qed
  qed
qed

lemma connect_request_event:
  assumes alloc: "alloc_ok E" and run: "on_cm_connect_request E ev p s = Some (r, s')"
  shows "conn_event RDMA_CM_EVENT_CONNECT_REQUEST p r (states s) (states s')"
proof -
  let ?s = "INFO_LOG ''event id %p rdma_trans cm_id %p event_listenid %p'' s"
  from run obtain t q s1 where t: "load (transports ?s) p = Some t"
    and q: "hmp_transport_create E (nodeptr t) (trans_ctx t) ?s = Some (q, s1)"
    by (auto simp: on_cm_connect_request_def Option.bind_eq_Some_conv)
  note create = transport_create_event [OF alloc q]
  show ?thesis
  proof (cases "q = NULL")
    case True
    with run t q create show ?thesis
      by (auto simp: on_cm_connect_request_def conn_request)
  next
    case False
    let ?A = "(states s)(q \<mapsto> HMP_TRANSPORT_STATE_INIT)"
    have A: "q \<notin> dom (states s)" "states s1 = ?A" using create False by auto
    have "whenever (on_cm_connect_request E ev p s)
        (\<lambda>(r, s'). (r \<noteq> 0 \<and> states s' = ?A) \<or>
          (r = 0 \<and> states s' = ?A(q \<mapsto> HMP_TRANSPORT_STATE_CONNECTING)))"
      using t q False A unfolding on_cm_connect_request_def Let_def
      by simp ((rule whenever_set | rule whenever_call
          | (rule whenever_keeps [where I = "at ?A"], (fastforce intro!: keep)[1])
          | rule whenever_base whenever_pure conjI impI | simp)+)
    then show ?thesis
      using run A(1) by (auto simp: whenever_def conn_request)
  qed
qed

section \<open>Refinement\<close>

lemma handle_ec_event_refines:
  assumes "alloc_ok E" "hmp_handle_ec_event E ev s = Some (r, s')" "cm_ids s (ev_id ev) = Some i"
  shows "conn_event (ev_event ev) (id_context i) r (states s) (states s')"
proof -
  let ?s = "INFO_LOG ''cm event [%s],status:%d'' s"
  have id: "load (cm_ids s) (ev_id ev) = Some i"
    using assms(2,3) by (auto simp: hmp_handle_ec_event_def load_def split: if_splits)
  note run = assms(2) [unfolded hmp_handle_ec_event_def, simplified id, simplified]
  show ?thesis
  proof (cases "ev_event ev")
    case RDMA_CM_EVENT_ADDR_RESOLVED
    with run at2D [OF addr_resolved_at] show ?thesis by (auto intro: quiet)
  next
    case RDMA_CM_EVENT_ROUTE_RESOLVED
    with run route_resolved_event [of E ev "id_context i" ?s r s'] show ?thesis by simp
  next
    case RDMA_CM_EVENT_CONNECT_REQUEST
    with run connect_request_event [OF assms(1), of ev "id_context i" ?s r s'] show ?thesis by simp
  next
    case RDMA_CM_EVENT_ESTABLISHED
    with run at2D [OF established_at] show ?thesis by (auto intro: quiet)
  next
    case RDMA_CM_EVENT_DISCONNECTED
    with run at2D [OF disconnected_at] show ?thesis by (auto intro: quiet)
  next
    case RDMA_CM_EVENT_CONNECT_ERROR
    with run fail_transport_eq [of "id_context i" ?s s'] show ?thesis
      by (auto simp: conn_error Option.bind_eq_Some_conv)
  qed (use run in \<open>auto intro: ignored\<close>)
qed

text \<open>C2. The event handler refines the abstract machine of the connections. Whatever the
  libraries answer, a run of \<open>hmp_handle_ec_event\<close> changes the states of the transports only by
  the transition the abstract machine has for its event, and the result tells which: an address,
  an establishment or a disconnection changes no state (so a disconnected transport still counts
  as connected), a resolved route fails the transport only with an error, a connection request
  adds at most one transport, connecting exactly if the result is 0, and an unhandled event is an
  error without a change.\<close>

theorem cm_refinement:
  assumes "alloc_ok E" "hmp_handle_ec_event E ev s = Some (r, s')" "cm_ids s (ev_id ev) = Some i"
  shows "conn_event (ev_event ev) (id_context i) r (states s) (states s')"
  using assms by (rule handle_ec_event_refines)

text \<open>Completions: only an initial message, received without an error, connects a transport.\<close>

lemma upd_task_same: "upd_task f p s = Some s' \<Longrightarrow> states s' = states s"
  by (auto simp: upd_task_def Option.bind_eq_Some_conv)

lemma handle_mr_msg_states:
  assumes "hmp_handle_mr_msg p msg s = Some s'"
  shows "p \<in> dom (states s) \<and> states s' = (states s)(p \<mapsto> HMP_TRANSPORT_STATE_CONNECTED)"
  using assms
  by (auto simp: hmp_handle_mr_msg_def Let_def Option.bind_eq_Some_conv dest!: set_state_eq)

definition init_message :: "ibv_wc \<Rightarrow> sys \<Rightarrow> ptr \<Rightarrow> bool" where
  "init_message wc s p \<longleftrightarrow> wc_status wc = IBV_WC_SUCCESS \<and> wc_opcode wc = IBV_WC_RECV \<and>
     (\<exists>t msg. tasks s (wc_wr_id wc) = Some t \<and> task_rdma_trans t = p \<and>
       read_msg (sge_addr (task_sge t)) (mem s) = Some msg \<and> msg_type msg = msg_type_code HMP_MSG_INIT)"

lemma handle_wc_states:
  assumes "handle_wc wc s = Some s'"
  shows "states s' = states s \<or>
    (\<exists>p. init_message wc s p \<and> p \<in> dom (states s) \<and>
      states s' = (states s)(p \<mapsto> HMP_TRANSPORT_STATE_CONNECTED))"
proof (cases "wc_status wc = IBV_WC_SUCCESS")
  case True
  with assms have run: "hmp_wc_success_handler wc s = Some s'" by (simp add: handle_wc_def)
  show ?thesis
  proof (cases "wc_opcode wc")
    case IBV_WC_RECV
    with run obtain t msg where t: "tasks s (wc_wr_id wc) = Some t"
        "read_msg (sge_addr (task_sge t)) (mem s) = Some msg"
        "if msg_type msg = msg_type_code HMP_MSG_INIT
         then hmp_handle_mr_msg (task_rdma_trans t) msg s = Some s' else s' = s"
      by (auto simp: hmp_wc_success_handler_def Option.bind_eq_Some_conv load_eq_Some_iff split: if_splits)
    with handle_mr_msg_states [of "task_rdma_trans t" msg s s'] True IBV_WC_RECV show ?thesis
      by (auto simp: init_message_def split: if_splits)
  qed (use run in \<open>auto simp: hmp_wc_success_handler_def Let_def Option.bind_eq_Some_conv
    dest!: upd_task_same\<close>)
next
  case False
  with assms show ?thesis by (auto simp: handle_wc_def hmp_wc_error_handler_def split: if_splits)
qed

section \<open>Listening and connecting\<close>

lemma rdma_create_id_at [keep]: "at A s \<Longrightarrow> keeps2 (at A) (rdma_create_id E c p s)"
  unfolding rdma_create_id_def Let_def by (auto intro!: keep dest!: call_at)

lemma rdma_destroy_id_at [keep]: "at A s \<Longrightarrow> keeps (at A) (rdma_destroy_id i s)"
  unfolding rdma_destroy_id_def by (auto intro!: keep)

lemma port_uri_at [keep]: "at A s \<Longrightarrow> keeps2 (at A) (hmp_port_uri_init E p u n s)"
  unfolding hmp_port_uri_init_def Let_def by (auto intro!: keep dest!: call_at)

lemma cleanid_whenever:
  "states s = A \<Longrightarrow> whenever (cleanid p n s) (\<lambda>(r, s'). r = n \<and> states s' = A)"
  unfolding cleanid_def
  by ((rule whenever_keeps [where I = "at A"], (fastforce intro!: keep)[1])
    | rule whenever_base whenever_pure | simp)+

lemma whenever_mono: "whenever m Q \<Longrightarrow> (\<And>x. Q x \<Longrightarrow> R x) \<Longrightarrow> whenever m R"
  by (auto simp: whenever_def)

text \<open>A call that returns 0 has moved the transport, any other result has moved none.\<close>

definition moved :: "hmp_transport_state \<Rightarrow> ptr \<Rightarrow> conn_states \<Rightarrow> int \<times> sys \<Rightarrow> bool" where
  "moved st p A = (\<lambda>(r, s'). if r = 0 then states s' = A(p \<mapsto> st) else states s' = A)"

lemma moved_pair [simp]:
  "moved st p A (r, s') \<longleftrightarrow> (if r = 0 then states s' = A(p \<mapsto> st) else states s' = A)"
  by (simp add: moved_def)

lemma cleanid_moved:
  "states s = A \<Longrightarrow> n \<noteq> 0 \<Longrightarrow> whenever (cleanid p n s) (moved st p A)"
  by (rule whenever_mono [OF cleanid_whenever]) (auto simp: moved_def)

lemma listen_moved:
  "whenever (hmp_transport_listen E p port s) (moved HMP_TRANSPORT_STATE_LISTEN p (states s))"
proof -
  let ?I = "at (states s)"
  show ?thesis
    unfolding hmp_transport_listen_def Let_def
    by ((rule whenever_set | rule whenever_call | rule cleanid_moved
        | (rule whenever_keeps [where I = ?I], (fastforce intro!: keep)[1])
        | rule whenever_base whenever_pure conjI impI | simp)+)
qed

lemma connect_moved:
  "whenever (hmp_transport_connect E p url port s)
     (moved HMP_TRANSPORT_STATE_CONNECTING p (states s))"
proof -
  let ?I = "at (states s)"
  show ?thesis
    unfolding hmp_transport_connect_def Let_def
    by ((rule whenever_set | rule whenever_call | rule cleanid_moved
        | (rule whenever_keeps [where I = ?I], (fastforce intro!: keep)[1])
        | rule whenever_base whenever_pure conjI impI | simp)+)
qed

section \<open>Runs of a node\<close>

text \<open>
  The steps of a node that can change a transport: the event thread handles an event of the
  connection manager or a completion, the main thread creates a transport, listens or connects.
  Everything else, in this process or outside it, leaves the transports as they are.
\<close>

inductive node_run :: "env \<Rightarrow> sys \<Rightarrow> sys \<Rightarrow> bool" for E where
  start: "node_run E s0 s0"
| event: "node_run E s0 s \<Longrightarrow> hmp_handle_ec_event E ev s = Some (r, s') \<Longrightarrow> node_run E s0 s'"
| completion: "node_run E s0 s \<Longrightarrow> handle_wc wc s = Some s' \<Longrightarrow> node_run E s0 s'"
| create: "node_run E s0 s \<Longrightarrow> hmp_transport_create E n c s = Some (p, s') \<Longrightarrow> node_run E s0 s'"
| listening: "node_run E s0 s \<Longrightarrow> hmp_transport_listen E p port s = Some (r, s') \<Longrightarrow> node_run E s0 s'"
| connecting: "node_run E s0 s \<Longrightarrow> hmp_transport_connect E p url port s = Some (r, s') \<Longrightarrow> node_run E s0 s'"
| other: "node_run E s0 s \<Longrightarrow> transports s' = transports s \<Longrightarrow> node_run E s0 s'"

text \<open>One step, as the abstract machine sees it: a transport appears, or one of them moves.\<close>

definition conn_step :: "hmp_transport_state set \<Rightarrow> conn_states \<Rightarrow> conn_states \<Rightarrow> bool" where
  "conn_step X A B \<longleftrightarrow> B = A \<or> (\<exists>p st. st \<in> X \<and> B = A(p \<mapsto> st))"

definition used_states :: "hmp_transport_state set" where
  "used_states = {HMP_TRANSPORT_STATE_INIT, HMP_TRANSPORT_STATE_LISTEN,
     HMP_TRANSPORT_STATE_CONNECTING, HMP_TRANSPORT_STATE_CONNECTED, HMP_TRANSPORT_STATE_ERROR}"

lemma conn_stepI [intro]: "conn_step X A A" "st \<in> X \<Longrightarrow> conn_step X A (A(p \<mapsto> st))"
  by (auto simp: conn_step_def)

lemma event_step:
  assumes "alloc_ok E" "hmp_handle_ec_event E ev s = Some (r, s')"
  shows "conn_step (used_states - {HMP_TRANSPORT_STATE_CONNECTED}) (states s) (states s')"
proof -
  from assms(2) obtain i where i: "cm_ids s (ev_id ev) = Some i"
    by (auto simp: hmp_handle_ec_event_def load_def Option.bind_eq_Some_conv split: if_splits)
  show ?thesis
    using handle_ec_event_refines [OF assms i] by (cases rule: conn_event.cases) (auto simp: used_states_def)
qed

lemma create_step:
  "alloc_ok E \<Longrightarrow> hmp_transport_create E n c s = Some (p, s') \<Longrightarrow>
   conn_step (used_states - {HMP_TRANSPORT_STATE_CONNECTED}) (states s) (states s')"
  using transport_create_event [of E n c s p s'] by (auto simp: used_states_def split: if_splits)

lemma moved_step:
  "whenever m (moved st p A) \<Longrightarrow> m = Some (r, s') \<Longrightarrow> st \<in> X \<Longrightarrow> conn_step X A (states s')"
  by (auto simp: whenever_def split: if_splits)

lemmas listen_step = moved_step [OF listen_moved] and connect_step = moved_step [OF connect_moved]

lemma completion_step:
  "handle_wc wc s = Some s' \<Longrightarrow> conn_step used_states (states s) (states s')"
  using handle_wc_states [of wc s s'] by (auto simp: used_states_def)

lemma conn_step_ran: "conn_step X A B \<Longrightarrow> ran B \<subseteq> ran A \<union> X"
  by (auto simp: conn_step_def ran_def split: if_splits)

lemma conn_step_dom: "conn_step X A B \<Longrightarrow> dom A \<subseteq> dom B"
  by (auto simp: conn_step_def)

lemma conn_step_mono: "conn_step X A B \<Longrightarrow> X \<subseteq> Y \<Longrightarrow> conn_step Y A B"
  by (auto simp: conn_step_def)

text \<open>What a node can do in one step.\<close>

lemma node_run_steps:
  assumes "node_run E s0 s" "alloc_ok E" "I (states s0)"
    and "\<And>A B. conn_step used_states A B \<Longrightarrow> I A \<Longrightarrow> I B"
  shows "I (states s)"
  using assms(1,3)
proof induction
  case (event s0 s ev r s')
  with event_step [OF assms(2)] conn_step_mono assms(4) show ?case by (metis Diff_subset)
next
  case (create s0 s n c p s')
  with create_step [OF assms(2)] conn_step_mono assms(4) show ?case by (metis Diff_subset)
next
  case (listening s0 s p port r s')
  with listen_step [of E p port s r s' used_states] assms(4) show ?case by (simp add: used_states_def)
next
  case (connecting s0 s p url port r s')
  with connect_step [of E p url port s r s' used_states] assms(4) show ?case by (simp add: used_states_def)
next
  case (other s0 s s')
  then show ?case using states_cong [of s' s] by simp
qed (use assms(4) completion_step in blast)+


section \<open>At a concrete node\<close>

definition failing_sys :: sys where
  "failing_sys = sample_sys\<lparr>transports := [0x60 \<mapsto> zero_transport\<lparr>trans_ctx := 0x50\<rparr>],
     cm_ids := [0x400 \<mapsto> zero_cm_id\<lparr>id_context := 0x60\<rparr>]\<rparr>"

definition failing_event :: rdma_cm_event where
  "failing_event = \<lparr>ev_id = 0x400, ev_listen_id = 0, ev_event = RDMA_CM_EVENT_CONNECT_ERROR, ev_status = 0\<rparr>"

theorem cm_refinement_witness:
  "\<exists>s'. hmp_handle_ec_event sample_env failing_event failing_sys = Some (- 1, s') \<and>
     conn_event RDMA_CM_EVENT_CONNECT_ERROR 0x60 (- 1) (states failing_sys) (states s')"
proof -
  have "\<exists>s'. hmp_handle_ec_event sample_env failing_event failing_sys = Some (- 1, s')"
    by (simp add: hmp_handle_ec_event_def failing_event_def failing_sys_def sample_sys_def
      fail_transport_def upd_defs INFO_LOG_eq)
  then obtain s' where s': "hmp_handle_ec_event sample_env failing_event failing_sys = Some (- 1, s')" ..
  have id: "cm_ids failing_sys (ev_id failing_event) = Some (zero_cm_id\<lparr>id_context := 0x60\<rparr>)"
    by (simp add: failing_sys_def failing_event_def)
  from cm_refinement [OF sample_env_alloc_ok s' id] s' show ?thesis
    by (auto simp: failing_event_def)
qed

definition new_sys :: sys where
  "new_sys = sample_sys\<lparr>transports := Map.empty\<rparr>"

lemma new_sys_create: "\<exists>p s. hmp_transport_create sample_env 0x10 0x50 new_sys = Some (p, s)"
proof -
  have p: "e_ptr sample_env new_sys (Mem (Alloc A_transport)) = 0x100000"
    by (simp add: sample_env_def sample_alloc_def sample_place_def new_sys_def sample_sys_def
      unused_block_def unused_def span_def)
  have ec: "e_ptr sample_env s (Cm Create_event_channel) = 0x100000 * (1 + word_of_nat (length (calls s)))"
      "e_int sample_env s c = 0" for s c
    by (simp_all add: sample_env_def sample_place_def)
  show ?thesis
    unfolding hmp_transport_create_def calloc_transport_def
    by (simp add: ptr_call_def p upd_defs record_call_def hmp_event_channel_create_def
      rdma_create_event_channel_def ec new_sys_def sample_sys_def)
      (simp add: set_nonblock_def int_call_def record_call_def ec hmp_context_add_event_fd_def calloc_event_data_def ptr_call_def epoll_ctl_add_def upd_event_data_def)
qed


end
