(* ===== verification/Task_Props.thy ===== *)
theory Task_Props
  imports Hmp_Transport Hmp_Vc Hmp_Sample Hmp_Mem
begin

text \<open>
  What the tasks of \<open>hmp_task.c\<close> promise: a send task leaves the message in the send slot in the
  layout the receiver reads back, and receive tasks take the receive slots of their transport in
  turn, which are never the memory that \<open>hmp_malloc\<close> hands out.
\<close>

section \<open>Messages in memory\<close>

lemma read_bytes_split:
  assumes "read_bytes h p (length xs + length ys) = Some (xs @ ys)"
  shows "read_bytes h p (length xs) = Some xs" "read_bytes h (p + of_nat (length xs)) (length ys) = Some ys"
proof -
  from assms obtain us vs where u: "read_bytes h p (length xs) = Some us"
      "read_bytes h (p + of_nat (length xs)) (length ys) = Some vs" "us @ vs = xs @ ys"
    by (auto simp: read_bytes_append Option.bind_eq_Some_conv)
  moreover have "length us = length xs" using read_bytes_length [OF u(1)] .
  ultimately show "read_bytes h p (length xs) = Some xs"
      "read_bytes h (p + of_nat (length xs)) (length ys) = Some ys" by auto
qed

text \<open>The bytes of a message: type, size, payload.\<close>

definition msg_bytes :: "hmp_msg \<Rightarrow> 8 word list \<Rightarrow> 8 word list" where
  "msg_bytes msg bs =
     to_le 4 (msg_type msg) @ to_le 4 (word_of_int (msg_data_size msg) :: 32 word) @ bs"

lemma msg_bytes_length [simp]: "length (msg_bytes msg bs) = 8 + length bs"
  by (simp add: msg_bytes_def)

lemma sint_int32: "n < 2 ^ 31 \<Longrightarrow> sint (word_of_int (int n) :: 32 word) = int n"
  by (simp only: sint_sbintrunc') (simp add: signed_take_bit_int_eq_self)

lemma read_msg_bytes:
  assumes r: "read_bytes h a (8 + length bs) = Some (msg_bytes msg bs)"
    and n: "msg_data_size msg = int (length bs)" "length bs < 2 ^ 31"
  shows "read_msg a h = Some \<lparr>msg_type = msg_type msg, msg_data_size = int (length bs), msg_data = a + 8\<rparr>"
    "read_bytes h (a + 8) (length bs) = Some bs"
proof -
  let ?t = "to_le 4 (msg_type msg)" and ?s = "to_le 4 (word_of_int (msg_data_size msg) :: 32 word)"
  have 1: "read_bytes h a 4 = Some ?t" "read_bytes h (a + 4) (4 + length bs) = Some (?s @ bs)"
    using read_bytes_split [of h a ?t "?s @ bs"] r by (simp_all add: msg_bytes_def)
  have 2: "read_bytes h (a + 4) 4 = Some ?s" "read_bytes h (a + 8) (length bs) = Some bs"
    using read_bytes_split [of h "a + 4" ?s bs] 1(2) by (simp_all add: add.assoc)
  have "sint (word_of_int (msg_data_size msg) :: 32 word) = int (length bs)"
    unfolding n(1) by (rule sint_int32) (fact n(2))
  with 1 2 show "read_msg a h =
      Some \<lparr>msg_type = msg_type msg, msg_data_size = int (length bs), msg_data = a + 8\<rparr>"
    by (simp add: read_msg_def read_u32_def add.assoc)
  from 2 show "read_bytes h (a + 8) (length bs) = Some bs" by simp
qed

lemma write_msg_bytes:
  assumes src: "read_bytes h (msg_data msg) (length bs) = Some bs"
    and n: "msg_data_size msg = int (length bs)" "length bs < 2 ^ 31"
    and apart: "span a 8 \<inter> span (msg_data msg) (length bs) = {}"
  shows "write_msg a msg h = write_bytes h a (msg_bytes msg bs)"
proof -
  let ?t = "to_le 4 (msg_type msg)" and ?s = "to_le 4 (word_of_int (msg_data_size msg) :: 32 word)"
  have u: "unat (word_of_int (msg_data_size msg) :: 64 word) = length bs"
    using n by (simp add: unat_of_nat take_bit_eq_mod)
  have keep: "read_bytes h2 (msg_data msg) (length bs) = Some bs"
    if "write_bytes h a (?t @ ?s) = Some h2" for h2
    using read_write_other [OF that, of "msg_data msg" "length bs"] src apart by simp
  have "write_bytes h a (msg_bytes msg bs) =
      do { h \<leftarrow> write_bytes h a (?t @ ?s); write_bytes h (a + 8) bs }"
    using write_bytes_append [of h a "?t @ ?s" bs] by (simp add: msg_bytes_def)
  also have "\<dots> = do { h \<leftarrow> write_bytes h a (?t @ ?s); memcpy (a + 8) (msg_data msg) (length bs) h }"
    using keep by (cases "write_bytes h a (?t @ ?s)") (auto simp: memcpy_def)
  also have "\<dots> = write_msg a msg h"
    by (simp add: write_msg_def write_bytes_append u add.assoc)
  finally show ?thesis ..
qed

section \<open>Send tasks\<close>

text \<open>A node whose pool is registered.\<close>

definition pool_ready :: "sys \<Rightarrow> hmp_mempool \<Rightarrow> ibv_mr \<Rightarrow> bool" where
  "pool_ready s m r \<longleftrightarrow> dram_mempool (curnode s) \<noteq> NULL \<and> mempools s (dram_mempool (curnode s)) = Some m \<and>
     pool_mr m \<noteq> NULL \<and> mrs s (pool_mr m) = Some r"

lemma pool_lkey_ready [simp]: "pool_ready s m r \<Longrightarrow> pool_lkey s = Some (mr_lkey r)"
  by (simp add: pool_ready_def pool_lkey_def)

lemma pool_ready_cong:
  "curnode s' = curnode s \<Longrightarrow> mempools s' = mempools s \<Longrightarrow> mrs s' = mrs s \<Longrightarrow>
   pool_ready s' m r = pool_ready s m r"
  by (simp add: pool_ready_def)

definition send_task :: "ptr \<Rightarrow> ptr \<Rightarrow> nat \<Rightarrow> 32 word \<Rightarrow> hmp_task" where
  "send_task p a n key = \<lparr>task_type = HMP_TASK_INIT,
     task_sge = \<lparr>sge_addr = a, sge_length = word_of_nat (8 + n), sge_lkey = key\<rparr>, task_rdma_trans = p\<rparr>"

text \<open>The run of the constructor when the task is allocated.\<close>

lemma send_task_run:
  assumes q: "e_ptr E s (Mem (Alloc A_task)) = q" "q \<noteq> NULL"
    and p: "p \<noteq> NULL" "transports s p = Some tr" and pool: "pool_ready s m r"
    and msg: "read_bytes (mem s) (msg_data msg) (length bs) = Some bs"
      "msg_data_size msg = int (length bs)" "length bs < 2 ^ 31"
    and slot: "allocated (mem s) (send_addr (region tr)) (8 + length bs)"
      "span (send_addr (region tr)) 8 \<inter> span (msg_data msg) (length bs) = {}"
  shows "\<exists>h. write_bytes (mem s) (send_addr (region tr)) (msg_bytes msg bs) = Some h \<and>
    hmp_send_task_create E p msg True s = Some (q, (record_call (Mem (Alloc A_task)) s)
      \<lparr>tasks := (tasks s)(q \<mapsto> send_task p (send_addr (region tr)) (length bs) (mr_lkey r)),
       mem := h\<rparr>)"
proof -
  obtain h where h: "write_bytes (mem s) (send_addr (region tr)) (msg_bytes msg bs) = Some h"
    using write_bytes_total [of "mem s" "send_addr (region tr)" "msg_bytes msg bs"] slot(1) by auto
  then have w: "write_msg (send_addr (region tr)) msg (mem s) = Some h"
    using write_msg_bytes [OF msg slot(2)] by simp
  have "(word_of_int (MSG_HEAD + msg_data_size msg) :: 32 word) = word_of_nat (8 + length bs)"
    using msg(2) by (simp add: MSG_HEAD_def)
  then show ?thesis
    using q p pool h w
    by (simp add: hmp_send_task_create_def malloc_task_def ptr_call_def Let_def upd_defs
      set_task_lkey_def pool_ready_def pool_lkey_def send_task_def junk_task_def record_call_def)
qed

text \<open>C18. A send task carries its message. When the task can be allocated, it describes exactly the
  message's bytes in the transport's send slot under the pool's key; what a receiver reads back
  from these bytes is the type, the size and the payload that were sent, and no byte outside them
  has changed. When it cannot, nothing has changed but the log.\<close>

theorem send_task_roundtrip:
  assumes p: "p \<noteq> NULL" "transports s p = Some tr" and pool: "pool_ready s m r"
    and msg: "read_bytes (mem s) (msg_data msg) (length bs) = Some bs"
      "msg_data_size msg = int (length bs)" "length bs < 2 ^ 31"
    and slot: "allocated (mem s) (send_addr (region tr)) (8 + length bs)"
      "span (send_addr (region tr)) 8 \<inter> span (msg_data msg) (length bs) = {}"
  shows "\<exists>q s'. hmp_send_task_create E p msg True s = Some (q, s') \<and>
    (if q = NULL then tasks s' = tasks s \<and> mem s' = mem s
     else tasks s' = (tasks s)(q \<mapsto> send_task p (send_addr (region tr)) (length bs) (mr_lkey r)) \<and>
       read_msg (send_addr (region tr)) (mem s') =
         Some \<lparr>msg_type = msg_type msg, msg_data_size = msg_data_size msg,
           msg_data = send_addr (region tr) + 8\<rparr> \<and>
       read_bytes (mem s') (send_addr (region tr) + 8) (length bs) = Some bs \<and>
       agree_on (- span (send_addr (region tr)) (8 + length bs)) (mem s) (mem s'))"
proof (cases "e_ptr E s (Mem (Alloc A_task)) = NULL")
  case True
  then show ?thesis
    by (simp add: hmp_send_task_create_def malloc_task_def ptr_call_def)
next
  case False
  from send_task_run [OF refl False p pool msg slot] obtain h where
    h: "write_bytes (mem s) (send_addr (region tr)) (msg_bytes msg bs) = Some h"
      "hmp_send_task_create E p msg True s = Some (e_ptr E s (Mem (Alloc A_task)),
        (record_call (Mem (Alloc A_task)) s)\<lparr>tasks := (tasks s)(e_ptr E s (Mem (Alloc A_task)) \<mapsto>
          send_task p (send_addr (region tr)) (length bs) (mr_lkey r)), mem := h\<rparr>)"
    by blast
  have "length (msg_bytes msg bs) \<le> 2 ^ 64" using msg(3) by simp
  note r = read_write_bytes [OF h(1) this, simplified]
  from read_msg_bytes [OF r msg(2,3)] write_bytes_frame [OF h(1)] False h(2) msg(2) show ?thesis
    by simp
qed

text \<open>
  The node of \<open>Hmp_Sample\<close> with a registered pool of one page at 0x10000, a transport to node 0 on
  its first four slots, and some memory of the caller at 0x20000.
\<close>

definition busy_mem :: bytes where
  "busy_mem = (\<lambda>a. if 0x10000 \<le> a \<and> a < 0x11000 \<or> 0x20000 \<le> a \<and> a < 0x20100 then Some 0 else None)"

definition busy_pool :: hmp_mempool where
  "busy_pool = \<lparr>base_addr = 0x10000, page_array = 0x120, page_num = 64, pool_size = 4096,
     alloc_size = 0, pool_mr = 0x110\<rparr>"

definition busy_mr :: ibv_mr where
  "busy_mr = \<lparr>mr_addr = 0x10000, mr_length = 4096, mr_lkey = 7, mr_rkey = 9\<rparr>"

definition busy_trans :: hmp_transport where
  "busy_trans = zero_transport\<lparr>trans_qp := 0x300, trans_ctx := 0x50,
     region := \<lparr>send_addr = 0x10000, recv_addr = 0x10028, cur_recv = 0\<rparr>\<rparr>"

definition busy_sys :: sys where
  "busy_sys = sample_sys\<lparr>curnode := sample_node\<lparr>dram_mempool := 0x100\<rparr>,
     mempools := [0x100 \<mapsto> busy_pool], mrs := [0x110 \<mapsto> busy_mr],
     transports := [0x60 \<mapsto> zero_transport, 0x200 \<mapsto> busy_trans], mem := busy_mem\<rparr>"

lemma busy_pool_ready: "pool_ready busy_sys busy_pool busy_mr"
  by (simp add: pool_ready_def busy_sys_def sample_sys_def sample_node_def busy_pool_def)

lemma busy_alloc:
  "0x10000 \<le> unat p \<Longrightarrow> unat p + n \<le> 0x11000 \<Longrightarrow> allocated busy_mem p n"
  "0x20000 \<le> unat p \<Longrightarrow> unat p + n \<le> 0x20100 \<Longrightarrow> allocated busy_mem p n"
  using span_unat [of p n]
  by (auto simp: allocated_def busy_mem_def word_le_nat_alt word_less_nat_alt split: if_splits)

definition busy_msg :: hmp_msg where
  "busy_msg = \<lparr>msg_type = 1, msg_data_size = 3, msg_data = 0x20000\<rparr>"

lemma busy_payload: "read_bytes busy_mem 0x20000 (length [0, 0, 0 :: 8 word]) = Some [0, 0, 0]"
  by (simp add: busy_mem_def)

lemma busy_slot_apart: "span 0x10000 8 \<inter> span 0x20000 (Suc (Suc (Suc 0))) = {}"
  using span_unat [of "0x10000" 8] span_unat [of "0x20000" "Suc (Suc (Suc 0))"] by auto

theorem send_task_roundtrip_witness:
  "\<exists>q s'. hmp_send_task_create sample_env 0x200 busy_msg True busy_sys = Some (q, s') \<and>
    (q \<noteq> NULL \<longrightarrow> read_msg 0x10000 (mem s') =
      Some \<lparr>msg_type = 1, msg_data_size = 3, msg_data = 0x10008\<rparr>)"
proof -
  have f: "transports busy_sys 0x200 = Some busy_trans" "mem busy_sys = busy_mem"
      "send_addr (region busy_trans) = 0x10000" "msg_data busy_msg = 0x20000"
      "msg_data_size busy_msg = 3" "msg_type busy_msg = 1"
    by (simp_all add: busy_sys_def busy_trans_def busy_msg_def)
  have "\<exists>q s'. hmp_send_task_create sample_env 0x200 busy_msg True busy_sys = Some (q, s') \<and>
    (if q = NULL then tasks s' = tasks busy_sys \<and> mem s' = mem busy_sys
     else tasks s' = (tasks busy_sys)(q \<mapsto> send_task 0x200 (send_addr (region busy_trans))
         (length [0, 0, 0 :: 8 word]) (mr_lkey busy_mr)) \<and>
       read_msg (send_addr (region busy_trans)) (mem s') =
         Some \<lparr>msg_type = msg_type busy_msg, msg_data_size = msg_data_size busy_msg,
           msg_data = send_addr (region busy_trans) + 8\<rparr> \<and>
       read_bytes (mem s') (send_addr (region busy_trans) + 8) (length [0, 0, 0 :: 8 word]) = Some [0, 0, 0] \<and>
       agree_on (- span (send_addr (region busy_trans)) (8 + length [0, 0, 0 :: 8 word])) (mem busy_sys) (mem s'))"
    by (rule send_task_roundtrip [OF _ f(1) busy_pool_ready])
      (use busy_payload busy_slot_apart busy_alloc(1) [of "0x10000" 11] in \<open>simp_all add: f\<close>)
  then show ?thesis unfolding f by (elim exE conjE) (intro exI conjI, assumption, simp)
qed

section \<open>Receive tasks\<close>

text \<open>The slots of \<open>n\<close> receive tasks that are created one after the other.\<close>

fun recv_tasks :: "env \<Rightarrow> ptr \<Rightarrow> nat \<Rightarrow> sys \<Rightarrow> (ptr list \<times> sys) option" where
  "recv_tasks E p 0 s = Some ([], s)"
| "recv_tasks E p (Suc n) s = do {
     (q, s) \<leftarrow> hmp_recv_task_create E p (int HMP_TASK_SIZE) True s;
     t \<leftarrow> load (tasks s) q;
     (as, s) \<leftarrow> recv_tasks E p n s;
     Some (sge_addr (task_sge t) # as, s) }"

lemma recv_task_run:
  assumes run: "hmp_recv_task_create E p sz True s = Some (q, s')" "q \<noteq> NULL"
    and p: "transports s p = Some tr" and pool: "pool_ready s m r"
  shows "\<exists>t. tasks s' q = Some t \<and>
      sge_addr (task_sge t) = recv_addr (region tr) + word_of_int (cur_recv (region tr) * int HMP_TASK_SIZE)"
    "transports s' = (transports s)(p \<mapsto> tr\<lparr>region :=
      (region tr)\<lparr>cur_recv := (cur_recv (region tr) + 1) smod 3\<rparr>\<rparr>)"
    "curnode s' = curnode s" "mempools s' = mempools s" "mrs s' = mrs s" "mem s' = mem s"
  using assms
  by (auto simp: hmp_recv_task_create_def malloc_task_def ptr_call_def Let_def upd_defs
    set_task_lkey_def pool_ready_def pool_lkey_def record_call_def Option.bind_eq_Some_conv
    modify_eq_Some_iff load_eq_Some_iff split: if_splits)

lemma smod_nonneg: "0 \<le> a \<Longrightarrow> 0 < b \<Longrightarrow> a smod b = a mod (b :: int)"
  by (cases "a = 0") (simp_all add: smod_int_alt_def)

lemma recv_tasks_run:
  assumes "recv_tasks E p n s = Some (as, s')" "transports s p = Some tr"
    and "cur_recv (region tr) = int c" "c < 3" "pool_ready s m r"
  shows "length as = n \<and>
    (\<forall>k<n. as ! k = recv_addr (region tr) + of_nat (40 * ((c + k) mod 3))) \<and>
    transports s' p = Some (tr\<lparr>region := (region tr)\<lparr>cur_recv := int ((c + n) mod 3)\<rparr>\<rparr>) \<and>
    curnode s' = curnode s \<and> mempools s' = mempools s"
  using assms
proof (induction n arbitrary: s as tr c)
  case 0
  then show ?case by (cases tr; cases "region tr") simp
next
  case (Suc n)
  from Suc.prems(1) obtain q s1 t as1 where
    q: "hmp_recv_task_create E p (int HMP_TASK_SIZE) True s = Some (q, s1)" "q \<noteq> NULL" "tasks s1 q = Some t"
    and as: "recv_tasks E p n s1 = Some (as1, s')" "as = sge_addr (task_sge t) # as1"
    by (auto simp: Option.bind_eq_Some_conv load_eq_Some_iff)
  note run = recv_task_run [OF q(1,2) Suc.prems(2,5)]
  let ?c = "(c + 1) mod 3"
  let ?tr = "tr\<lparr>region := (region tr)\<lparr>cur_recv := int ?c\<rparr>\<rparr>"
  have "(cur_recv (region tr) + 1) smod 3 = int ?c"
    using Suc.prems(3) by (simp add: smod_nonneg zmod_int add.commute)
  then have tr: "transports s1 p = Some ?tr"
    using run(2) by simp
  have pool: "pool_ready s1 m r"
    using Suc.prems(5) run(3-5) by (simp add: pool_ready_def)
  have c3: "?c < 3" by simp
  have t: "sge_addr (task_sge t) = recv_addr (region tr) + of_nat (40 * (c mod 3))"
    using run(1) q(3) Suc.prems(3,4) by (simp add: HMP_TASK_SIZE_def mult.commute)
  have rest: "length as1 = n" "\<forall>k<n. as1 ! k = recv_addr (region tr) + of_nat (40 * ((?c + k) mod 3))"
      "transports s' p = Some (tr\<lparr>region := (region tr)\<lparr>cur_recv := int ((?c + n) mod 3)\<rparr>\<rparr>)"
      "curnode s' = curnode s" "mempools s' = mempools s"
    using Suc.IH [OF as(1) tr _ c3 pool] run(3,4) by simp_all
  have "(?c + k) mod 3 = (c + Suc k) mod 3" for k by (simp add: mod_simps)
  then show ?case
    using rest t as(2) by (auto simp: nth_Cons split: nat.splits)
qed

lemma set_region_run:
  assumes "set_region p (int i) s = Some s'" "pool_ready s m r"
  shows "\<exists>tr. transports s' p = Some tr \<and> cur_recv (region tr) = 0 \<and>
    send_addr (region tr) = base_addr m + of_nat (160 * i) \<and>
    recv_addr (region tr) = base_addr m + of_nat (160 * i) + of_nat 40"
    "curnode s' = curnode s" "mempools s' = mempools s" "mrs s' = mrs s"
  using assms
  by (auto simp: set_region_def upd_defs Option.bind_eq_Some_conv modify_eq_Some_iff pool_ready_def
    HMP_TASK_SIZE_def mult.commute load_eq_Some_iff)

text \<open>C17. The message slots. The transport to node \<open>i\<close> has the 160 bytes at \<open>160 * i\<close> of the pool.
  Receive tasks take the three slots behind the send slot in turn, so each of them lies in these
  bytes, none is the send slot, and any three in a row are disjoint: a slot is used again only
  after the two other ones. The bytes of different nodes are disjoint, and all of them lie in
  the first \<open>slots_size\<close> bytes, behind which \<open>hmp_malloc\<close> starts.\<close>

theorem recv_slots_disjoint:
  assumes region: "set_region p (int i) s = Some s1" and run: "recv_tasks E p n s1 = Some (as, s2)"
    and pool: "pool_ready s m r" and i: "int i < node_cnt (config (curnode s))"
    and fits: "unat (base_addr m) + unat (slots_size s) \<le> 2 ^ 64" "node_cnt (config (curnode s)) \<le> 8"
  defines "slots \<equiv> \<lambda>j. span (base_addr m + of_nat (160 * j)) 160"
  shows "length as = n \<and>
    (\<forall>k<n. span (as ! k) 40 \<subseteq> slots i \<and>
      span (as ! k) 40 \<inter> span (base_addr m + of_nat (160 * i)) 40 = {}) \<and>
    (\<forall>k l. k < l \<longrightarrow> l < k + 3 \<longrightarrow> l < n \<longrightarrow> span (as ! k) 40 \<inter> span (as ! l) 40 = {}) \<and>
    (\<forall>j. j \<noteq> i \<longrightarrow> int j < node_cnt (config (curnode s)) \<longrightarrow> slots i \<inter> slots j = {}) \<and>
    slots i \<subseteq> span (base_addr m) (unat (slots_size s))"
proof -
  let ?b = "base_addr m" and ?n = "nat (node_cnt (config (curnode s)))"
  have size: "unat (slots_size s) = 160 * ?n" and n: "i < ?n"
  proof -
    have nn: "0 \<le> node_cnt (config (curnode s))" using i by linarith
    then have "slots_size s = of_nat (160 * ?n)"
      by (simp add: slots_size_def HMP_TASK_SIZE_def)
    then show "unat (slots_size s) = 160 * ?n"
      using fits(2) by (simp only: unat_of_nat) (simp add: take_bit_eq_mod)
    show "i < ?n" using i by linarith
  qed
  then have room: "unat ?b + 160 * ?n \<le> 2 ^ 64" using fits by simp
  obtain tr where tr: "transports s1 p = Some tr" "cur_recv (region tr) = int 0"
      "recv_addr (region tr) = ?b + of_nat (160 * i) + of_nat 40"
    using set_region_run(1) [OF region pool] by auto
  have "pool_ready s1 m r"
    using pool set_region_run(2-4) [OF region pool] by (simp add: pool_ready_def)
  from recv_tasks_run [OF run tr(1,2) _ this]
  have len: "length as = n" and as: "\<And>k. k < n \<Longrightarrow> as ! k = ?b + of_nat (160 * i + (40 + 40 * (k mod 3)))"
    using tr(3) by (auto simp: add.assoc)
  have in_slot: "160 * i + (40 + 40 * (k mod 3)) + 40 \<le> 160 * i + 160" for k by simp
  have i160: "160 * i + 160 \<le> 160 * ?n" using n by simp
  have sub: "span (as ! k) 40 \<subseteq> slots i" if "k < n" for k
  proof -
    have u: "unat (?b + of_nat (160 * i)) = unat ?b + 160 * i"
      using room i160 by (intro unat_plus_small) simp
    have "span (?b + of_nat (160 * i) + of_nat (40 + 40 * (k mod 3))) 40 \<subseteq> slots i"
      unfolding slots_def using in_slot [of k] u room i160 by (intro span_sub) auto
    then show ?thesis using as [OF that] by (simp add: add.assoc)
  qed
  moreover have "span (as ! k) 40 \<inter> span (?b + of_nat (160 * i)) 40 = {}" if "k < n" for k
    using span_parts_disjoint [OF room, of "160 * i" 40 "160 * i + (40 + 40 * (k mod 3))" 40]
      in_slot [of k] i160 as [OF that] by (auto simp: Int_commute)
  moreover have "span (as ! k) 40 \<inter> span (as ! l) 40 = {}" if "k < l" "l < k + 3" "l < n" for k l
  proof -
    have "k mod 3 \<noteq> l mod 3" using that by presburger
    then consider "k mod 3 + 1 \<le> l mod 3" | "l mod 3 + 1 \<le> k mod 3" by linarith
    then show ?thesis
    proof cases
      case 1
      then show ?thesis
        using span_parts_disjoint [OF room, of "160 * i + (40 + 40 * (k mod 3))" 40
          "160 * i + (40 + 40 * (l mod 3))" 40] in_slot [of l] i160 as [of k] as [of l] that by simp
    next
      case 2
      then show ?thesis
        using span_parts_disjoint [OF room, of "160 * i + (40 + 40 * (l mod 3))" 40
          "160 * i + (40 + 40 * (k mod 3))" 40] in_slot [of k] i160 as [of k] as [of l] that
        by (simp add: Int_commute)
    qed
  qed
  moreover have "slots i \<inter> slots j = {}" if "j \<noteq> i" "int j < node_cnt (config (curnode s))" for j
    using span_parts_disjoint [OF room, of "160 * i" 160 "160 * j" 160]
      span_parts_disjoint [OF room, of "160 * j" 160 "160 * i" 160] n that
    unfolding slots_def by (cases "i < j") (auto simp: Int_commute)
  moreover have "slots i \<subseteq> span ?b (unat (slots_size s))"
    unfolding slots_def size using span_sub [OF room, of "160 * i" 160] i160 by simp
  ultimately show ?thesis using len by blast
qed

lemma recv_task_total:
  assumes "e_ptr E s (Mem (Alloc A_task)) = q" "q \<noteq> NULL" "p \<noteq> NULL"
    "transports s p = Some tr" "pool_ready s m r"
  shows "\<exists>t tr'. hmp_recv_task_create E p sz True s = Some (q, (record_call (Mem (Alloc A_task)) s)
    \<lparr>transports := (transports s)(p \<mapsto> tr'), tasks := (tasks s)(q \<mapsto> t)\<rparr>)"
  using assms
  by (simp add: hmp_recv_task_create_def malloc_task_def ptr_call_def Let_def upd_defs
    set_task_lkey_def pool_ready_def pool_lkey_def record_call_def) (intro exI, rule refl)

lemma busy_region: "\<exists>tr. set_region 0x200 (int 0) busy_sys =
    Some (busy_sys\<lparr>transports := (transports busy_sys)(0x200 \<mapsto> tr)\<rparr>)"
  by (simp add: set_region_def upd_defs busy_sys_def sample_sys_def sample_node_def modify_def Let_def) (intro exI, rule refl)

lemma busy_unused:
  assumes "ts a = None" "a \<notin> {0, 0x50, 0x60, 0x70, 0x100, 0x200}" "a + 8 \<noteq> NULL"
  shows "unused_block (busy_sys\<lparr>calls := cs, transports := (transports busy_sys)(0x200 \<mapsto> tr), tasks := ts\<rparr>) a 0"
  using assms by (simp add: unused_block_def unused_def busy_sys_def sample_sys_def span_def)

lemma busy_recv_tasks: "\<exists>as s2. recv_tasks sample_env 0x200 2
    (busy_sys\<lparr>transports := (transports busy_sys)(0x200 \<mapsto> tr)\<rparr>) = Some (as, s2)"
proof -
  let ?k = "Mem (Alloc A_task)"
  let ?S = "\<lambda>tr ts cs. busy_sys\<lparr>calls := cs, transports := (transports busy_sys)(0x200 \<mapsto> tr), tasks := ts\<rparr>"
  have alloc: "e_ptr sample_env (?S tr ts cs) ?k = 0x100000 * (1 + word_of_nat (length cs))"
    if "ts (0x100000 * (1 + word_of_nat (length cs))) = None"
      "0x100000 * (1 + word_of_nat (length cs)) \<notin> {0, 0x50, 0x60, 0x70, 0x100, 0x200 :: ptr}"
      "0x100000 * (1 + word_of_nat (length cs)) + 8 \<noteq> (0 :: ptr)" for tr ts cs
    using busy_unused [of ts "0x100000 * (1 + word_of_nat (length cs))", OF that] by (simp add: sample_env_def sample_alloc_def sample_place_def)
  have run: "\<exists>t tr'. hmp_recv_task_create sample_env 0x200 sz True (?S tr ts cs) =
      Some (q, ?S tr' (ts(q \<mapsto> t)) (?k # cs))"
    if "q = 0x100000 * (1 + word_of_nat (length cs))" "ts q = None"
      "q \<notin> {0, 0x50, 0x60, 0x70, 0x100, 0x200 :: ptr}" "q + 8 \<noteq> 0" for q sz tr ts cs
  proof -
    have "pool_ready (?S tr ts cs) busy_pool busy_mr"
      using busy_pool_ready by (simp add: pool_ready_def)
    from recv_task_total [OF alloc _ _ _ this, of "0x200" tr sz] that show ?thesis
      by (simp add: record_call_def)
  qed
  have t0: "busy_sys\<lparr>transports := (transports busy_sys)(0x200 \<mapsto> tr)\<rparr> = ?S tr Map.empty []"
    by (simp add: busy_sys_def sample_sys_def)
  obtain t1 tr1 where 1: "hmp_recv_task_create sample_env 0x200 (int HMP_TASK_SIZE) True (?S tr Map.empty []) =
      Some (0x100000, ?S tr1 [0x100000 \<mapsto> t1] [?k])"
    using run [of "0x100000" "[]" Map.empty "int HMP_TASK_SIZE" tr] by auto
  obtain t2 tr2 where 2: "hmp_recv_task_create sample_env 0x200 (int HMP_TASK_SIZE) True (?S tr1 [0x100000 \<mapsto> t1] [?k]) =
      Some (0x200000, ?S tr2 [0x100000 \<mapsto> t1, 0x200000 \<mapsto> t2] [?k, ?k])"
    using run [of "0x200000" "[?k]" "[0x100000 \<mapsto> t1]" "int HMP_TASK_SIZE" tr1] by auto
  show ?thesis unfolding t0 numeral_2_eq_2 by (simp add: 1 2)
qed

theorem recv_slots_disjoint_witness:
  "\<exists>s1 as s2. set_region 0x200 (int 0) busy_sys = Some s1 \<and>
     recv_tasks sample_env 0x200 2 s1 = Some (as, s2) \<and> span (as ! 0) 40 \<inter> span (as ! 1) 40 = {}"
proof -
  obtain s1 as s2 where r: "set_region 0x200 (int 0) busy_sys = Some s1"
      "recv_tasks sample_env 0x200 2 s1 = Some (as, s2)"
    using busy_region busy_recv_tasks by blast
  have c: "config (curnode busy_sys) = config sample_node" "node_cnt (config sample_node) = 2"
      "base_addr busy_pool = 0x10000"
    by (simp_all add: busy_sys_def sample_node_def busy_pool_def)
  have s: "slots_size busy_sys = 320"
    by (simp add: slots_size_def c HMP_TASK_SIZE_def)
  have "\<forall>k l. k < l \<longrightarrow> l < k + 3 \<longrightarrow> l < 2 \<longrightarrow> span (as ! k) 40 \<inter> span (as ! l) 40 = {}"
    using recv_slots_disjoint [OF r busy_pool_ready] by (simp add: c s)
  then show ?thesis using r by auto
qed

end
