(* ===== verification/Hash_Ring.thy ===== *)
theory Hash_Ring
  imports Hmp_Node Hmp_Vc Hmp_Sample List_Props "HOL-Library.Multiset"
begin

text \<open>
  The ring of consistent hashing that \<open>hmp_hash_init\<close> of \<open>hmp_node.c\<close> builds: repeated insertion
  gives the nodes in the order of their keys, equal keys in the order of the configuration.
\<close>

section \<open>Insertion sort\<close>

lemma insert_sorted_mset: "mset (insert_sorted key x xs) = add_mset x (mset xs)"
  by (induction xs) auto

lemma insert_sorted_filter:
  "sorted (map key xs) \<Longrightarrow> filter (\<lambda>y. k = key y) (insert_sorted key x xs) =
     filter (\<lambda>y. k = key y) xs @ (if k = key x then [x] else [])"
proof (induction xs)
  case (Cons y ys)
  have "filter (\<lambda>z. key x = key z) (y # ys) = []" if "\<not> key y \<le> key x"
    using Cons.prems that by (auto simp: filter_empty_conv)
  with Cons show ?case by auto
qed simp

lemma sort_key_equal: "sort_key key (filter (\<lambda>y. c = key y) xs) = filter (\<lambda>y. c = key y) xs"
  by (induction xs) (auto simp: insort_is_Cons)

lemma insert_sorted_sort: "insert_sorted key x (sort_key key xs) = sort_key key (xs @ [x])"
proof (rule properties_for_sort_key [symmetric])
  show "mset (insert_sorted key x (sort_key key xs)) = mset (xs @ [x])"
    by (simp add: insert_sorted_mset)
  show "filter (\<lambda>y. key k = key y) (insert_sorted key x (sort_key key xs)) =
      filter (\<lambda>y. key k = key y) (xs @ [x])" for k
    by (simp add: insert_sorted_filter filter_sort sort_key_equal)
  show "sorted (map key (insert_sorted key x (sort_key key xs)))"
    by (simp add: insert_sorted_sorted)
qed

lemma insert_sorted_map: "(\<And>y. y \<in> insert x (set xs) \<Longrightarrow> k2 (f y) = k1 y) \<Longrightarrow>
   map f (insert_sorted k1 x xs) = insert_sorted k2 (f x) (map f xs)"
  by (induction xs) auto

section \<open>The place of a node\<close>

abbreviation entry_of :: "ptr \<Rightarrow> ptr" where
  "entry_of p \<equiv> member_of p hash_node_list_entry_off"

definition hash_ring :: "env \<Rightarrow> sys \<Rightarrow> ptr list \<Rightarrow> hmp_hash_node list \<Rightarrow> bool" where
  "hash_ring E s ps ns \<longleftrightarrow> ring (links s) (e_hash_list E) (map entry_of ps) \<and>
     NULL \<notin> set ps \<and> map (hash_nodes s) ps = map Some ns"

lemma entry_of_inj: "inj_on entry_of A"
  by (simp add: inj_on_def member_of_def)

lemma entry_of_container [simp]: "container_of (entry_of p) hash_node_list_entry_off = p"
  by (simp add: member_of_def container_of_def)

lemma hash_ring_lookup:
  "hash_ring E s (ps @ p # qs) ns \<Longrightarrow>
   \<exists>n. hash_nodes s p = Some n \<and> n = ns ! length ps \<and> p \<noteq> NULL"
proof -
  assume r: "hash_ring E s (ps @ p # qs) ns"
  then have "length (ps @ p # qs) = length ns"
    unfolding hash_ring_def by (metis length_map)
  moreover have "map (hash_nodes s) (ps @ p # qs) ! length ps = map Some ns ! length ps"
    using r by (simp only: hash_ring_def)
  ultimately show ?thesis using r by (auto simp: hash_ring_def nth_append)
qed

text \<open>The search, and the insertion before the entry it stops at.\<close>

lemma hash_place_ring:
  fixes q :: ptr
  defines "key \<equiv> \<lambda>s p. hn_key (the (hash_nodes s p))"
  assumes r: "hash_ring E s ps ns" and q: "q \<noteq> NULL" "hash_nodes s q = Some n"
    and new: "alive (links s) (entry_of q)" "entry_of q \<notin> set (e_hash_list E # map entry_of ps)"
  shows "\<exists>h. hash_place E q s = Some (s\<lparr>links := h\<rparr>) \<and>
    ring h (e_hash_list E) (map entry_of (insert_sorted (key s) q ps)) \<and>
    agree_on (- insert (e_hash_list E) (entry_of ` insert q (set ps))) (links s) h"
proof -
  let ?A = "- insert (e_hash_list E) (entry_of ` insert q (set ps))"
  let ?e = "entry_of q" and ?hd = "e_hash_list E" and ?m = "map entry_of"
  have ring: "ring (links s) ?hd (?m ps)" using r by (simp add: hash_ring_def)
  have tail: "\<exists>h. with_links (list_add_tail ?e (hd (?m qs @ [?hd]))) s = Some (s\<lparr>links := h\<rparr>) \<and>
      ring h ?hd (?m (insert_sorted (key s) q ps)) \<and> agree_on ?A (links s) h"
    if sp: "ps = rs @ qs" "\<forall>p\<in>set rs. key s p \<le> key s q" "qs = [] \<or> key s (hd qs) > key s q" for rs qs
  proof -
    from list_add_tail_ring [of "links s" ?hd "?m rs" "?m qs" ?e] ring new sp(1) obtain h where
      "list_add_tail ?e (hd (?m qs @ [?hd])) (links s) = Some h" "ring h ?hd (?m rs @ ?e # ?m qs)"
      "agree_on (- set (?hd # ?m rs @ ?e # ?m qs)) (links s) h"
      by auto
    moreover have "set (?hd # ?m rs @ ?e # ?m qs) = - ?A" using sp(1) by auto
    moreover have "insert_sorted (key s) q ps = rs @ q # qs"
      using sp by (cases qs) (auto simp: insert_sorted_def split_at_def takeWhile_append dropWhile_append)
    ultimately show ?thesis
      by (intro exI [of _ h]) (simp add: with_links_def)
  qed
  show ?thesis
  proof (cases "ps = []")
    case True
    with ring new list_add_ring [of "links s" ?hd "[]" "[]" ?e] list_empty_ring [OF ring]
    show ?thesis by (auto simp: hash_place_def with_links_def)
  next
    case False
    let ?body = "\<lambda>tmp s. do {
         t \<leftarrow> load (hash_nodes s) tmp;
         n \<leftarrow> load (hash_nodes s) q;
         if hn_key t > hn_key n
         then map_option Inr (with_links (list_add_tail ?e (entry_of tmp)) s)
         else Some (Inl s) }"
    let ?P = "\<lambda>es s'. s' = s \<and> (\<exists>rs qs. ps = rs @ qs \<and> es = ?m rs \<and> (\<forall>p\<in>set rs. key s p \<le> key s q))"
    let ?Q = "\<lambda>s'. \<exists>h. s' = s\<lparr>links := h\<rparr> \<and> ring h ?hd (?m (insert_sorted (key s) q ps)) \<and> agree_on ?A (links s) h"
    have loop: "loop_result (?P (?m ps)) ?Q (list_for_each_entry links hash_node_list_entry_off ?hd ?body s)"
    proof (rule list_for_each_entry_rule [where P = ?P])
      show "?P [] s" by auto
      fix es e fs s'
      assume es: "?m ps = es @ e # fs" and "?P es s'"
      then obtain rs qs0 where p0: "s' = s" "ps = rs @ qs0" "es = ?m rs" "\<forall>p\<in>set rs. key s p \<le> key s q"
        by blast
      with es obtain p qs where p: "qs0 = p # qs" "e = entry_of p" "fs = ?m qs" by auto
      obtain v where v: "hash_nodes s p = Some v" "p \<noteq> NULL"
        using hash_ring_lookup [of E s rs p qs ns] r p0(2) p(1) by auto
      show "loop_result (?P (es @ [e])) ?Q (?body (container_of e hash_node_list_entry_off) s')"
      proof (cases "hn_key v > hn_key n")
        case True
        then have "\<exists>h. with_links (list_add_tail ?e (entry_of p)) s = Some (s\<lparr>links := h\<rparr>) \<and>
            ring h ?hd (?m (insert_sorted (key s) q ps)) \<and> agree_on ?A (links s) h"
          using tail [of rs "p # qs"] p0 p v q by (simp add: key_def)
        then show ?thesis using True v q p p0 by (auto simp: loop_result_def)
      next
        case False
        then have "?P (es @ [e]) s"
          using p0 p v q by (intro conjI exI [of _ "rs @ [p]"] exI [of _ qs]) (auto simp: key_def)
        then show ?thesis using False v q p p0(1) by (simp add: loop_result_def)
      qed
    qed (use ring in simp)
    from tail [of ps "[]"] have last: "\<forall>p\<in>set ps. key s p \<le> key s q \<Longrightarrow>
        \<exists>h. with_links (list_add_tail ?e ?hd) s = Some (s\<lparr>links := h\<rparr>) \<and>
          ring h ?hd (?m (insert_sorted (key s) q ps)) \<and> agree_on ?A (links s) h" by simp
    have all: "\<forall>p\<in>set ps. key s p \<le> key s q" if "?P (?m ps) s'" for s'
    proof -
      from that obtain rs qs where "ps = rs @ qs" "?m ps = ?m rs" "\<forall>p\<in>set rs. key s p \<le> key s q"
        by blast
      moreover from this(2) have "length ps = length rs" by (metis length_map)
      ultimately show ?thesis by simp
    qed
    show ?thesis
      using loop last all list_empty_ring [OF ring] False
      unfolding hash_place_def Let_def loop_result_def by fastforce
  qed
qed

section \<open>The whole ring\<close>

text \<open>What a run leaves alone: everything but the hash nodes, the links and the traces.\<close>

definition ring_only :: "sys \<Rightarrow> sys \<Rightarrow> bool" where
  "ring_only s s' \<longleftrightarrow> (\<exists>hn lk cs lg. s' = s\<lparr>hash_nodes := hn, links := lk, calls := cs, log := lg\<rparr>)"

lemma ring_only_trans: "ring_only s s' \<Longrightarrow> ring_only s' s'' \<Longrightarrow> ring_only s s''"
  by (auto simp: ring_only_def) (intro exI, rule refl)

lemma ring_onlyI:
  "s' = s\<lparr>hash_nodes := hash_nodes s', links := links s', calls := calls s', log := log s'\<rparr> \<Longrightarrow> ring_only s s'"
  unfolding ring_only_def by blast

lemma ring_only_curnode: "ring_only s s' \<Longrightarrow> curnode s' = curnode s"
  by (auto simp: ring_only_def)

definition hash_node_of :: "sys \<Rightarrow> nat \<Rightarrow> hmp_hash_node" where
  "hash_node_of s i = \<lparr>hn_key = the (hash_key (node_infos (config (curnode s)) ! i)), hn_node_id = int i\<rparr>"

text \<open>The entries are new, and every other link that was there is as before.\<close>

definition ring_grown :: "env \<Rightarrow> sys \<Rightarrow> sys \<Rightarrow> ptr list \<Rightarrow> bool" where
  "ring_grown E s0 s ps \<longleftrightarrow> (\<forall>p\<in>set ps. links s0 (entry_of p) = None) \<and>
     agree_on (dom (links s0) - {e_hash_list E}) (links s0) (links s)"

lemma ring_grown_step:
  assumes "ring_grown E s0 s ps" "links s (entry_of q) = None" "entry_of q \<noteq> e_hash_list E"
    and "agree_on (- insert (e_hash_list E) (entry_of ` insert q (set ps))) (links s) (links s')"
    and "set ps' = insert q (set ps)"
  shows "ring_grown E s0 s' ps'"
proof -
  have q: "links s0 (entry_of q) = None"
  proof (rule ccontr)
    assume "links s0 (entry_of q) \<noteq> None"
    with assms(1,3) have "links s (entry_of q) = links s0 (entry_of q)"
      by (auto simp: ring_grown_def agree_on_def)
    with assms(2) \<open>links s0 (entry_of q) \<noteq> None\<close> show False by simp
  qed
  have "links s' a = links s0 a" if a: "a \<in> dom (links s0)" "a \<noteq> e_hash_list E" for a
  proof -
    have "a \<notin> entry_of ` insert q (set ps)" using a q assms(1) by (auto simp: ring_grown_def)
    then show ?thesis using a assms(1,4) by (auto simp: ring_grown_def agree_on_def)
  qed
  with q assms(1,5) show ?thesis by (auto simp: ring_grown_def agree_on_def)
qed

definition holds_nodes :: "env \<Rightarrow> sys \<Rightarrow> sys \<Rightarrow> nat \<Rightarrow> bool" where
  "holds_nodes E s0 s n \<longleftrightarrow> ring_only s0 s \<and>
     (\<exists>ps. hash_ring E s ps (sort_key hn_key (map (hash_node_of s0) [0..<n])) \<and> ring_grown E s0 s ps)"

lemma hash_ring_fresh:
  assumes "hash_ring E s ps ns" "unused s q"
  shows "entry_of q \<notin> set (e_hash_list E # map entry_of ps)" "q \<notin> set ps"
proof -
  show e: "entry_of q \<notin> set (e_hash_list E # map entry_of ps)"
    using assms ring_alive [of "links s" "e_hash_list E" "map entry_of ps" "entry_of q"]
    by (auto simp: hash_ring_def unused_def alive_def member_of_def hash_node_list_entry_off_def)
  then show "q \<notin> set ps" by auto
qed

lemma hash_ring_insert:
  assumes r: "hash_ring E s ps ns" and q: "q \<noteq> NULL" "hash_nodes s q = Some n"
    and h: "ring h (e_hash_list E) (map entry_of (insert_sorted (\<lambda>p. hn_key (the (hash_nodes s p))) q ps))"
  shows "hash_ring E (s\<lparr>links := h\<rparr>) (insert_sorted (\<lambda>p. hn_key (the (hash_nodes s p))) q ps)
    (insert_sorted hn_key n ns)"
proof -
  let ?key = "\<lambda>p. hn_key (the (hash_nodes s p))"
  have "map (hash_nodes s) (insert_sorted ?key q ps) =
      insert_sorted (\<lambda>v. hn_key (the v)) (Some n) (map Some ns)"
    using r q insert_sorted_map [of q ps "\<lambda>v. hn_key (the v)" "hash_nodes s" ?key]
    by (simp add: hash_ring_def)
  also have "\<dots> = map Some (insert_sorted hn_key n ns)"
    by (rule insert_sorted_map [symmetric]) simp
  finally show ?thesis
    using r q(1) h by (simp add: hash_ring_def)
qed

text \<open>The node is filled in, its link is initialised, and it is put in its place.\<close>

lemma hash_add_filled:
  fixes n :: hmp_hash_node
  assumes r: "hash_ring E s ps ns" and q: "q \<noteq> NULL" "unused s q" and g: "ring_grown E s0 s ps"
  defines "s1 \<equiv> \<lambda>n. (record_call (Mem (Alloc A_hash_node)) s)\<lparr>links := (links s)(entry_of q \<mapsto> zero_link),
    hash_nodes := (hash_nodes s)(q \<mapsto> n)\<rparr>"
  shows "yields (do { s \<leftarrow> with_links (INIT_LIST_HEAD (entry_of q)) (s1 n); hash_place E q s })
    (\<lambda>s'. ring_only s s' \<and> (\<exists>ps. hash_ring E s' ps (insert_sorted hn_key n ns) \<and> ring_grown E s0 s' ps))"
proof -
  note fresh = hash_ring_fresh [OF r q(2)]
  have e: "entry_of q \<noteq> NULL" "links s (entry_of q) = None"
    using q(2) by (simp_all add: unused_def member_of_def hash_node_list_entry_off_def)
  from init_ring [of "links (s1 n)" "entry_of q"] obtain h1 where
    h1: "INIT_LIST_HEAD (entry_of q) (links (s1 n)) = Some h1" "ring h1 (entry_of q) []"
      "agree_on (- {entry_of q}) (links (s1 n)) h1"
    using e by (auto simp: s1_def alive_def)
  let ?s2 = "(s1 n)\<lparr>links := h1\<rparr>"
  have "agree_on (set (e_hash_list E # map entry_of ps)) (links s) h1"
    unfolding agree_on_def
  proof
    fix a assume "a \<in> set (e_hash_list E # map entry_of ps)"
    with fresh(1) have "a \<noteq> entry_of q" by blast
    with h1(3) show "h1 a = links s a" by (simp add: agree_on_def s1_def)
  qed
  then have r2: "hash_ring E ?s2 ps ns"
    using r fresh(2) ring_agree by (auto simp: hash_ring_def s1_def)
  have n: "hash_nodes ?s2 q = Some n" by (simp add: s1_def)
  have "alive (links ?s2) (entry_of q)" using ring_alive [OF h1(2)] by simp
  from hash_place_ring [OF r2 q(1) n this fresh(1)] obtain h where
    h: "hash_place E q ?s2 = Some (?s2\<lparr>links := h\<rparr>)"
      "ring h (e_hash_list E) (map entry_of (insert_sorted (\<lambda>p. hn_key (the (hash_nodes ?s2 p))) q ps))"
      "agree_on (- insert (e_hash_list E) (entry_of ` insert q (set ps))) h1 h"
    by auto
  have "agree_on (- insert (e_hash_list E) (entry_of ` insert q (set ps))) (links s) h"
    using h(3) h1(3) by (auto simp: agree_on_def s1_def)
  moreover have "set (insert_sorted (\<lambda>p. hn_key (the (hash_nodes ?s2 p))) q ps) = insert q (set ps)"
    using insert_sorted_mset [THEN arg_cong [where f = set_mset]] by simp
  ultimately have g2: "ring_grown E s0 (?s2\<lparr>links := h\<rparr>) (insert_sorted (\<lambda>p. hn_key (the (hash_nodes ?s2 p))) q ps)"
    by (intro ring_grown_step [OF g e(2)]) (use fresh(1) in simp_all)
  from hash_ring_insert [OF r2 q(1) n h(2)] h(1) h1(1) g2 show ?thesis
    by (auto simp: yields_def with_links_def s1_def intro!: ring_onlyI)
qed

lemma hash_add_ring:
  assumes alloc: "alloc_ok E" and i: "i < HMP_NODE_NUM"
    and key: "hash_key (node_infos (config (curnode s)) ! i) \<noteq> None"
    and r: "hash_ring E s ps ns" "ring_grown E s0 s ps"
  shows "yields (hash_add E (int i) s) (\<lambda>(res, s'). ring_only s s' \<and>
    (case res of Inl h \<Rightarrow> h = Exited (- 1)
     | Inr _ \<Rightarrow> \<exists>ps. hash_ring E s' ps (insert_sorted hn_key (hash_node_of s i) ns) \<and> ring_grown E s0 s' ps))"
proof -
  obtain k where k: "hash_key (node_infos (config (curnode s)) ! i) = Some k" using key by blast
  have info: "get_info (int i) s = Some (node_infos (config (curnode s)) ! i)"
    using i by (simp add: get_info_def in_nodes_def)
  show ?thesis
    unfolding hash_add_def info
    apply (simp add: vc)
    apply (rule malloc_hash_node_vc [OF alloc])
    subgoal by (simp add: vc ring_onlyI)
    subgoal for q
      using hash_add_filled [OF r(1) _ _ r(2), of q "\<lparr>hn_key = k, hn_node_id = int i\<rparr>"]
      by (simp add: vc k upd_hash_node_def hash_node_of_def member_of_def case_prod_unfold)
    done
qed

lemma hash_node_of_cong: "ring_only s s' \<Longrightarrow> hash_node_of s' = hash_node_of s"
  by (simp add: fun_eq_iff hash_node_of_def ring_only_curnode)

lemma hash_add_all_ring:
  assumes alloc: "alloc_ok E" and i: "i + n \<le> HMP_NODE_NUM"
    and key: "\<forall>j<i + n. hash_key (node_infos (config (curnode s0)) ! j) \<noteq> None"
    and r: "holds_nodes E s0 s i"
  shows "yields (hash_add_all E i n s) (\<lambda>(res, s'). ring_only s0 s' \<and>
    (case res of Inl h \<Rightarrow> h = Exited (- 1) | Inr _ \<Rightarrow> holds_nodes E s0 s' (i + n)))"
  using i key r
proof (induction n arbitrary: i s)
  case 0
  then show ?case by (auto simp: vc holds_nodes_def)
next
  case (Suc n)
  from Suc.prems(3) obtain ps where s: "ring_only s0 s"
      "hash_ring E s ps (sort_key hn_key (map (hash_node_of s0) [0..<i]))" "ring_grown E s0 s ps"
    by (auto simp: holds_nodes_def)
  have i8: "i < HMP_NODE_NUM" and key_i: "hash_key (node_infos (config (curnode s)) ! i) \<noteq> None"
    using Suc.prems(1,2) ring_only_curnode [OF s(1)] by simp_all
  have sorted: "insert_sorted hn_key (hash_node_of s i) (sort_key hn_key (map (hash_node_of s0) [0..<i])) =
      sort_key hn_key (map (hash_node_of s0) [0..<Suc i])"
    by (simp add: insert_sorted_sort hash_node_of_cong [OF s(1)])
  show ?case
    unfolding hash_add_all.simps yields_bind
  proof (rule yields_mono [OF hash_add_ring [OF alloc i8 key_i s(2,3)]], unfold sorted, clarify)
    fix res s'
    assume s': "ring_only s s'" and res: "case res of Inl h \<Rightarrow> h = Exited (- 1)
      | Inr _ \<Rightarrow> \<exists>ps. hash_ring E s' ps (sort_key hn_key (map (hash_node_of s0) [0..<Suc i])) \<and> ring_grown E s0 s' ps"
    note t = ring_only_trans [OF s(1) s']
    show "yields (case res of Inl h \<Rightarrow> Some (Inl h, s') | Inr _ \<Rightarrow> hash_add_all E (Suc i) n s')
      (\<lambda>(res, s'). ring_only s0 s' \<and>
        (case res of Inl h \<Rightarrow> h = Exited (- 1) | Inr _ \<Rightarrow> holds_nodes E s0 s' (i + Suc n)))"
    proof (cases res)
      case (Inl h)
      with res t show ?thesis by (simp add: vc)
    next
      case (Inr u)
      with res t have "holds_nodes E s0 s' (Suc i)" by (simp add: holds_nodes_def)
      with Suc.IH [of "Suc i" s'] Suc.prems(1,2) Inr show ?thesis by (simp cong: sum.case_cong)
    qed
  qed
qed

text \<open>The loop that prints the ring only writes to the log.\<close>

lemma hash_print_ring:
  assumes ps: "hash_ring E s ps ns"
  shows "\<exists>lg. list_for_each_entry links hash_node_list_entry_off (e_hash_list E) (\<lambda>tmp s. do {
      _ \<leftarrow> load (hash_nodes s) tmp; Some (Inl (INFO_LOG ''key %lu id %d'' s) :: sys + unit) }) s =
    Some (Inl (s\<lparr>log := lg\<rparr>))"
proof -
  let ?Q = "\<lambda>s'. \<exists>lg. s' = s\<lparr>log := lg\<rparr>"
  let ?body = "\<lambda>tmp s. do { _ \<leftarrow> load (hash_nodes s) tmp; Some (Inl (INFO_LOG ''key %lu id %d'' s) :: sys + unit) }"
  have "loop_result ?Q (\<lambda>_. False)
    (list_for_each_entry links hash_node_list_entry_off (e_hash_list E) ?body s)"
  proof (rule list_for_each_entry_rule [where P = "\<lambda>_. ?Q" and xs = "map entry_of ps"])
    fix ys e zs s' assume e: "map entry_of ps = ys @ e # zs" and "?Q s'"
    then obtain lg where s': "s' = s\<lparr>log := lg\<rparr>" by blast
    from e obtain p where p: "p \<in> set ps" "e = entry_of p"
      by (metis in_set_conv_decomp imageE list.set_map)
    then obtain v where "load (hash_nodes s) p = Some v"
      using ps split_list [OF p(1)] hash_ring_lookup [of E s] by (fastforce simp: load_eq_Some_iff)
    with s' p show "loop_result ?Q (\<lambda>_. False) (?body (container_of e hash_node_list_entry_off) s')"
      by (auto simp: loop_result_def INFO_LOG_eq)
  qed (use ps in \<open>auto simp: hash_ring_def intro: exI [of _ "log s"]\<close>)
  then show ?thesis by (auto simp: loop_result_def)
qed

lemma hash_key_total:
  assumes "length (ni_addr i) < HMP_ADDR_LEN"
  shows "hash_key i \<noteq> None"
proof -
  let ?k = "ni_addr i @ port_str (ni_port i)"
  have l: "length ?k \<le> 26"
    using assms by (simp add: port_str_def cut_def HMP_ADDR_LEN_def)
  have "murmur_hash (map char_byte ?k @ [0]) (of_nat (length (map char_byte ?k @ [0]))) \<noteq> None"
    using murmur_hash_ref [of "map char_byte ?k @ [0]"] l by simp
  then show ?thesis
    using l by (simp add: hash_key_def Let_def KEY_SIZE_def)
qed

text \<open>The initialisation as a whole.\<close>

lemma hash_init_yields:
  assumes "alloc_ok E" "node_cnt (config (curnode s)) \<le> int HMP_NODE_NUM"
    and "\<forall>i. int i < node_cnt (config (curnode s)) \<longrightarrow> length (ni_addr (node_infos (config (curnode s)) ! i)) < HMP_ADDR_LEN"
    and "alive (links s) (e_hash_list E)"
  shows "yields (hmp_hash_init E s) (\<lambda>(res, s'). ring_only s s' \<and>
    (case res of Inl h \<Rightarrow> h = Exited (- 1) | Inr _ \<Rightarrow> holds_nodes E s s' (nat (node_cnt (config (curnode s))))))"
proof -
  let ?n = "nat (node_cnt (config (curnode s)))"
  from init_ring [OF assms(4)] obtain h where
    h: "INIT_LIST_HEAD (e_hash_list E) (links s) = Some h" "ring h (e_hash_list E) []" "agree_on (- {e_hash_list E}) (links s) h" by blast
  let ?s = "s\<lparr>links := h\<rparr>"
  have start: "holds_nodes E s ?s 0"
    using h(2,3) by (auto simp: holds_nodes_def hash_ring_def ring_grown_def agree_on_def intro: ring_onlyI exI [of _ "[]"])
  have key: "\<forall>i<?n. hash_key (node_infos (config (curnode s)) ! i) \<noteq> None"
    using assms(3) hash_key_total by simp
  have n8: "?n \<le> HMP_NODE_NUM" using assms(2) by (simp add: nat_le_iff)
  from hash_add_all_ring [OF assms(1) _ _ start, of ?n, unfolded add_0] n8 key obtain res s1 where
    s1: "hash_add_all E 0 ?n ?s = Some (res, s1)" "ring_only s s1"
      "case res of Inl h \<Rightarrow> h = Exited (- 1) | Inr _ \<Rightarrow> holds_nodes E s s1 ?n"
    by (auto simp: yields_def)
  show ?thesis
  proof (cases res)
    case (Inl e)
    with s1 h show ?thesis by (simp add: hmp_hash_init_def with_links_def vc)
  next
    case (Inr u)
    with s1(3) obtain ps where
      ps: "hash_ring E s1 ps (sort_key hn_key (map (hash_node_of s) [0..<?n]))" "ring_grown E s s1 ps"
      by (auto simp: holds_nodes_def)
    from hash_print_ring [OF ps(1)] obtain lg where
      lg: "list_for_each_entry links hash_node_list_entry_off (e_hash_list E) (\<lambda>tmp s. do {
        _ \<leftarrow> load (hash_nodes s) tmp; Some (Inl (INFO_LOG ''key %lu id %d'' s) :: sys + unit) }) s1 =
        Some (Inl (s1\<lparr>log := lg\<rparr>))" ..
    have "hmp_hash_init E s = Some (res, s1\<lparr>log := lg\<rparr>)"
      using s1(1) h(1) lg Inr by (simp add: hmp_hash_init_def with_links_def loop_end_def)
    moreover have "ring_only s (s1\<lparr>log := lg\<rparr>)"
      using s1(2) by (rule ring_only_trans) (rule ring_onlyI, simp)
    moreover have "hash_ring E (s1\<lparr>log := lg\<rparr>) ps (sort_key hn_key (map (hash_node_of s) [0..<?n]))"
        "ring_grown E s (s1\<lparr>log := lg\<rparr>) ps"
      using ps by (simp_all add: hash_ring_def ring_grown_def)
    ultimately show ?thesis using Inr by (auto simp: vc holds_nodes_def)
  qed
qed

text \<open>C8. The ring of consistent hashing. For at most eight nodes whose addresses fit
  their arrays, \<open>hmp_hash_init\<close> ends, and either an allocation failed and the process exits
  with -1, or the ring holds one entry for every node of the configuration: the entries are
  exactly the stable sort of the nodes by the hash of address and port. Nothing else of the
  node's state has changed.\<close>

theorem hash_init_sorted:
  assumes "alloc_ok E" "node_cnt (config (curnode s)) \<le> int HMP_NODE_NUM"
    and "\<forall>i. int i < node_cnt (config (curnode s)) \<longrightarrow> length (ni_addr (node_infos (config (curnode s)) ! i)) < HMP_ADDR_LEN"
    and "alive (links s) (e_hash_list E)"
  shows "\<exists>res s'. hmp_hash_init E s = Some (res, s') \<and> ring_only s s' \<and>
    (case res of Inl h \<Rightarrow> h = Exited (- 1)
     | Inr _ \<Rightarrow> \<exists>ps. hash_ring E s' ps
         (sort_key hn_key (map (hash_node_of s) [0..<nat (node_cnt (config (curnode s)))])))"
  using hash_init_yields [OF assms] by (auto simp: yields_def holds_nodes_def split: sum.splits)

definition ring_sys :: sys where
  "ring_sys = sample_sys\<lparr>links := [0x40 \<mapsto> zero_link]\<rparr>"

theorem hash_init_sorted_witness:
  "\<exists>res s'. hmp_hash_init sample_env ring_sys = Some (res, s') \<and> ring_only ring_sys s' \<and>
    (case res of Inl h \<Rightarrow> h = Exited (- 1)
     | Inr _ \<Rightarrow> \<exists>ps. hash_ring sample_env s' ps
         (sort_key hn_key [hash_node_of ring_sys 0, hash_node_of ring_sys 1]))"
proof -
  have c: "config (curnode ring_sys) = config sample_node" "node_cnt (config sample_node) = 2"
      "e_hash_list sample_env = 0x40"
    by (simp_all add: ring_sys_def sample_sys_def sample_node_def sample_env_def)
  have k: "length (ni_addr (node_infos (config sample_node) ! i)) < HMP_ADDR_LEN" if "int i < 2" for i
  proof -
    have "i = 0 \<or> i = 1" using that by linarith
    then show ?thesis
      by (auto simp: sample_node_def sample_info_def HMP_ADDR_LEN_def)
  qed
  have "alive (links ring_sys) 0x40" by (simp add: ring_sys_def alive_def)
  then show ?thesis
    using hash_init_sorted [OF sample_env_alloc_ok, of ring_sys] k
    by (simp add: c HMP_NODE_NUM_def numeral_2_eq_2 cong: sum.case_cong)
qed

end
