(* ===== verification/Msg_Exchange.thy ===== *)
theory Msg_Exchange
  imports Task_Props
begin

text \<open>
  The exchange that makes a connection usable: when the connection is established, each node
  sends the address, the length and the remote key of its pool, and the completion of the
  receive on the other side enters them in the configuration.
\<close>

section \<open>The message\<close>

definition pool_bytes :: "hmp_mempool \<Rightarrow> ibv_mr \<Rightarrow> 8 word list" where
  "pool_bytes m r = to_le 8 (base_addr m) @ to_le 8 (mr_length r) @ to_le 4 (mr_rkey r)"

lemma pool_bytes_length [simp]: "length (pool_bytes m r) = 20"
  by (simp add: pool_bytes_def)

definition init_msg :: "ptr \<Rightarrow> hmp_msg" where
  "init_msg d = \<lparr>msg_type = msg_type_code HMP_MSG_INIT, msg_data_size = int INIT_MSG_SIZE, msg_data = d\<rparr>"

lemma put_block_allocated:
  "p \<noteq> NULL \<Longrightarrow> NULL \<notin> span p n \<Longrightarrow> allocated (mem (put_block f p n s)) p n"
  by (auto simp: allocated_def)

lemma pool_ready_block [simp]:
  "pool_ready (put_block f p n s) m r = pool_ready s m r"
  "pool_ready (record_call c s) m r = pool_ready s m r"
  "pool_ready (s\<lparr>mem := h\<rparr>) m r = pool_ready s m r"
  "pool_ready (s\<lparr>transports := ts\<rparr>) m r = pool_ready s m r"
  by (simp_all add: pool_ready_def)

lemma build_init_run:
  assumes alloc: "alloc_ok E" and pool: "pool_ready s m r"
    and d: "e_ptr E s (Mem (Alloc (A_bytes INIT_MSG_SIZE))) = d" "d \<noteq> NULL"
  shows "\<exists>h. hmp_build_init_msg E s = Some (init_msg d,
      (put_block (e_junk E) d INIT_MSG_SIZE (record_call (Mem (Alloc (A_bytes INIT_MSG_SIZE))) s))\<lparr>mem := h\<rparr>) \<and>
    read_bytes h d 20 = Some (pool_bytes m r) \<and> dom h = dom (mem s) \<union> span d 20 \<and>
    span d 20 \<inter> dom (mem s) = {}"
proof -
  let ?s = "put_block (e_junk E) d INIT_MSG_SIZE (record_call (Mem (Alloc (A_bytes INIT_MSG_SIZE))) s)"
  have new: "NULL \<notin> span d 20" "span d 20 \<inter> dom (mem s) = {}"
    using alloc_okD [OF alloc, of s "A_bytes INIT_MSG_SIZE"] d
    by (auto simp: unused_block_def INIT_MSG_SIZE_def)
  have "allocated (mem ?s) d 20"
    unfolding INIT_MSG_SIZE_def using d(2) new(1) by (rule put_block_allocated)
  then obtain h where h: "write_bytes (mem ?s) d (pool_bytes m r) = Some h"
    using write_bytes_total [of "mem ?s" d "pool_bytes m r"] by auto
  have "hmp_build_init_msg E s = Some (init_msg d, ?s\<lparr>mem := h\<rparr>)"
    using h pool d
    by (auto simp: hmp_build_init_msg_def malloc_block_def ptr_call_def with_mem_def pool_ready_def
      pool_bytes_def write_bytes_append init_msg_def Option.bind_eq_Some_conv add.assoc)
  moreover have "read_bytes h d 20 = Some (pool_bytes m r)"
    using read_write_bytes [OF h] by simp
  moreover have "dom h = dom (mem s) \<union> span d 20"
    using write_bytes_dom [OF h] by (auto simp: INIT_MSG_SIZE_def split: if_splits)
  ultimately show ?thesis using new(2) by blast
qed

section \<open>Sending\<close>

text \<open>The state after the two addresses have been copied.\<close>

definition peer_known :: "ptr \<Rightarrow> hmp_transport \<Rightarrow> rdma_cm_id \<Rightarrow> sys \<Rightarrow> sys" where
  "peer_known p t i s = s\<lparr>transports := (transports s)
     (p \<mapsto> t\<lparr>local_addr := id_src_sin i, peer_addr := id_dst_sin i\<rparr>)\<rparr>"

definition init_wr :: "ptr \<Rightarrow> ptr \<Rightarrow> 32 word \<Rightarrow> ibv_send_wr" where
  "init_wr q a key = \<lparr>swr_wr_id = q, swr_sge = \<lparr>ibv_addr = a, ibv_length = 28, ibv_lkey = key\<rparr>,
     swr_num_sge = 1, swr_opcode = IBV_WR_SEND, swr_send_flags = IBV_SEND_SIGNALED,
     swr_remote_addr = 0, swr_rkey = 0\<rparr>"

lemma established_run:
  assumes alloc: "alloc_ok E" and p: "p \<noteq> NULL" "transports s p = Some t"
    and i: "trans_cm_id t \<noteq> NULL" "cm_ids s (trans_cm_id t) = Some i"
    and pool: "pool_ready s m r" and slot: "allocated (mem s) (send_addr (region t)) 28"
    and d: "e_ptr E (peer_known p t i s) (Mem (Alloc (A_bytes INIT_MSG_SIZE))) \<noteq> NULL"
  shows "\<exists>s'. on_cm_established E ev p s = Some (0, s') \<and>
    (hd (log s') = (HMP_LOG_LEVEL_ERROR, ''send task create error.'') \<or>
     (\<exists>q. hd (calls s') = Verbs (Post_send (trans_qp t) (init_wr q (send_addr (region t)) (mr_lkey r))) \<and>
       tasks s' q = Some (send_task p (send_addr (region t)) 20 (mr_lkey r)) \<and>
       read_bytes (mem s') (send_addr (region t)) 28 = Some (msg_bytes (init_msg 0) (pool_bytes m r))))"
proof -
  let ?s1 = "peer_known p t i s" and ?t1 = "t\<lparr>local_addr := id_src_sin i, peer_addr := id_dst_sin i\<rparr>"
  let ?d = "e_ptr E (peer_known p t i s) (Mem (Alloc (A_bytes INIT_MSG_SIZE)))"
  let ?s2 = "put_block (e_junk E) ?d INIT_MSG_SIZE (record_call (Mem (Alloc (A_bytes INIT_MSG_SIZE))) ?s1)"
  have pool1: "pool_ready ?s1 m r" using pool by (simp add: peer_known_def)
  from build_init_run [OF alloc pool1 refl d] obtain h where
    h: "hmp_build_init_msg E ?s1 = Some (init_msg ?d, ?s2\<lparr>mem := h\<rparr>)"
      "read_bytes h ?d 20 = Some (pool_bytes m r)" "dom h = dom (mem s) \<union> span ?d 20"
      "span ?d 20 \<inter> dom (mem s) = {}"
    by (auto simp: peer_known_def)
  let ?s3 = "?s2\<lparr>mem := h\<rparr>" and ?q = "e_ptr E (?s2\<lparr>mem := h\<rparr>) (Mem (Alloc A_task))"
  have run: "on_cm_established E ev p s = do { s \<leftarrow> hmp_post_send E p (init_msg ?d) ?s3; Some (0, s) }"
    using p i h(1) by (simp add: on_cm_established_def upd_defs peer_known_def)
  have t3: "transports ?s3 p = Some ?t1" by (simp add: peer_known_def)
  show ?thesis
  proof (cases "?q = NULL")
    case True
    then have "hmp_post_send E p (init_msg ?d) ?s3 = Some (ERROR_LOG ''send task create error.''
        (ERROR_LOG ''allocate memory error.'' (record_call (Mem (Alloc A_task)) ?s3)))"
      by (simp add: hmp_post_send_def hmp_send_task_create_def malloc_task_def ptr_call_def)
    with run show ?thesis by (simp add: ERROR_LOG_eq)
  next
    case False
    have len: "8 + length (pool_bytes m r) = 28" by simp
    have slot3: "allocated (mem ?s3) (send_addr (region ?t1)) (8 + length (pool_bytes m r))"
      using slot h(3) unfolding len by (auto simp: allocated_def)
    have "span (send_addr (region t)) 8 \<subseteq> span (send_addr (region t)) 28"
      by (auto simp: span_def)
    then have apart: "span (send_addr (region ?t1)) 8 \<inter> span (msg_data (init_msg ?d)) (length (pool_bytes m r)) = {}"
      using slot h(4) by (auto simp: allocated_def init_msg_def)
    have msg: "read_bytes (mem ?s3) (msg_data (init_msg ?d)) (length (pool_bytes m r)) = Some (pool_bytes m r)"
        "msg_data_size (init_msg ?d) = int (length (pool_bytes m r))" "length (pool_bytes m r) < 2 ^ 31"
      using h(2) by (simp_all add: init_msg_def INIT_MSG_SIZE_def)
    have pool3: "pool_ready ?s3 m r" using pool1 by simp
    from send_task_run [OF refl False p(1) t3 pool3 msg slot3 apart] obtain h' where
      h': "write_bytes h (send_addr (region t)) (msg_bytes (init_msg ?d) (pool_bytes m r)) = Some h'"
        "hmp_send_task_create E p (init_msg ?d) True ?s3 = Some (?q, (record_call (Mem (Alloc A_task)) ?s3)
          \<lparr>tasks := (tasks ?s3)(?q \<mapsto> send_task p (send_addr (region t)) 20 (mr_lkey r)), mem := h'\<rparr>)"
      by auto
    have "read_bytes h' (send_addr (region t)) 28 = Some (msg_bytes (init_msg 0) (pool_bytes m r))"
      using read_write_bytes [OF h'(1)] by (simp add: msg_bytes_def init_msg_def)
    with False p h'(2) run t3 show ?thesis
      by (auto simp: hmp_post_send_def int_call_def task_ibv_sge_def send_task_def init_wr_def
        ERROR_LOG_eq)
  qed
qed

section \<open>Receiving\<close>

lemma read_pool_bytes:
  assumes "read_bytes h a 20 = Some (pool_bytes m r)"
  shows "read_u64 h a = Some (base_addr m)" "read_u64 h (a + 8) = Some (mr_length r)"
    "read_u32 h (a + 8 + 8) = Some (mr_rkey r)"
proof -
  have 1: "read_bytes h a 8 = Some (to_le 8 (base_addr m))"
      "read_bytes h (a + 8) 12 = Some (to_le 8 (mr_length r) @ to_le 4 (mr_rkey r))"
    using read_bytes_split [of h a "to_le 8 (base_addr m)" "to_le 8 (mr_length r) @ to_le 4 (mr_rkey r)"]
      assms by (simp_all add: pool_bytes_def)
  have 2: "read_bytes h (a + 8) 8 = Some (to_le 8 (mr_length r))"
      "read_bytes h (a + 16) 4 = Some (to_le 4 (mr_rkey r))"
    using read_bytes_split [of h "a + 8" "to_le 8 (mr_length r)" "to_le 4 (mr_rkey r)"] 1(2)
    by (simp_all add: add.assoc)
  from 1 2 show "read_u64 h a = Some (base_addr m)" "read_u64 h (a + 8) = Some (mr_length r)"
      "read_u32 h (a + 8 + 8) = Some (mr_rkey r)"
    by (simp_all add: read_u64_def read_u32_def add.assoc)
qed

text \<open>A completed receive into the buffer of a task of the transport \<open>p\<close>.\<close>

definition receives :: "ibv_wc \<Rightarrow> sys \<Rightarrow> ptr \<Rightarrow> hmp_transport \<Rightarrow> 8 word list \<Rightarrow> bool" where
  "receives wc u p t bs \<longleftrightarrow> wc_status wc = IBV_WC_SUCCESS \<and> wc_opcode wc = IBV_WC_RECV \<and> p \<noteq> NULL \<and>
     transports u p = Some t \<and> wc_wr_id wc \<noteq> NULL \<and> (\<exists>k. tasks u (wc_wr_id wc) = Some k \<and>
       task_rdma_trans k = p \<and> read_bytes (mem u) (sge_addr (task_sge k)) (length bs) = Some bs)"

text \<open>The receiver's state when it knows the sender's pool.\<close>

definition knows_pool :: "int \<Rightarrow> hmp_mempool \<Rightarrow> ibv_mr \<Rightarrow> hmp_config \<Rightarrow> hmp_config" where
  "knows_pool i m r c = c\<lparr>node_infos := (node_infos c)[nat i := (node_infos c ! nat i)\<lparr>dram_mr :=
     \<lparr>mri_addr = base_addr m, mri_length = mr_length r, mri_rkey = mr_rkey r\<rparr>\<rparr>]\<rparr>"

lemma mr_info_eq: "x\<lparr>mri_addr := a, mri_length := l, mri_rkey := k\<rparr> =
    \<lparr>mri_addr = a, mri_length = l, mri_rkey = k\<rparr>"
  by (cases x) simp

lemma init_received:
  assumes rc: "receives wc u p t (msg_bytes (init_msg 0) (pool_bytes m r))"
    and i: "in_nodes (trans_node_id t)" "length (node_infos (config (curnode u))) = HMP_NODE_NUM"
  shows "\<exists>u'. handle_wc wc u = Some u' \<and>
    transports u' = (transports u)(p \<mapsto> t\<lparr>trans_state := HMP_TRANSPORT_STATE_CONNECTED\<rparr>) \<and>
    config (curnode u') = knows_pool (trans_node_id t) m r (config (curnode u))"
proof -
  from rc obtain k where k: "tasks u (wc_wr_id wc) = Some k" "task_rdma_trans k = p"
      "read_bytes (mem u) (sge_addr (task_sge k)) (8 + length (pool_bytes m r)) =
        Some (msg_bytes (init_msg 0) (pool_bytes m r))"
    by (auto simp: receives_def)
  have n: "msg_data_size (init_msg 0) = int (length (pool_bytes m r))" "length (pool_bytes m r) < 2 ^ 31"
    by (simp_all add: init_msg_def INIT_MSG_SIZE_def)
  note msg = read_msg_bytes [OF k(3) n]
  note data = read_pool_bytes [OF msg(2) [unfolded pool_bytes_length]]
  have "nat (trans_node_id t) < length (node_infos (config (curnode u)))"
    using i by (simp add: in_nodes_def) linarith
  then show ?thesis
    using rc k msg(1) data i
    by (simp add: receives_def handle_wc_def hmp_wc_success_handler_def init_msg_def
      hmp_handle_mr_msg_def upd_info_def upd_defs INFO_LOG_eq knows_pool_def Let_def mr_info_eq)
qed

text \<open>C6. The exchange of the pools. When a connection is established, the handler sends the 28 bytes
  of an initial message from the transport's send slot, signalled, under the pool's key, or
  reports that the task could not be allocated. Whatever node receives these bytes in the buffer
  of a receive task, the completion enters the sender's address, length and remote key in its
  configuration, at the node of the transport and nowhere else, and connects that transport.\<close>

theorem init_exchange:
  assumes "alloc_ok E" "p \<noteq> NULL" "transports s p = Some t"
    and "trans_cm_id t \<noteq> NULL" "cm_ids s (trans_cm_id t) = Some i"
    and "pool_ready s m r" "allocated (mem s) (send_addr (region t)) 28"
    and "e_ptr E (peer_known p t i s) (Mem (Alloc (A_bytes INIT_MSG_SIZE))) \<noteq> NULL"
  shows "\<exists>s'. on_cm_established E ev p s = Some (0, s') \<and>
    (hd (log s') = (HMP_LOG_LEVEL_ERROR, ''send task create error.'') \<or>
     (\<exists>q bs. hd (calls s') = Verbs (Post_send (trans_qp t) (init_wr q (send_addr (region t)) (mr_lkey r))) \<and>
       tasks s' q = Some (send_task p (send_addr (region t)) 20 (mr_lkey r)) \<and>
       read_bytes (mem s') (send_addr (region t)) 28 = Some bs \<and>
       (\<forall>wc u pu tu. receives wc u pu tu bs \<longrightarrow> in_nodes (trans_node_id tu) \<longrightarrow>
          length (node_infos (config (curnode u))) = HMP_NODE_NUM \<longrightarrow>
          (\<exists>u'. handle_wc wc u = Some u' \<and>
            transports u' = (transports u)(pu \<mapsto> tu\<lparr>trans_state := HMP_TRANSPORT_STATE_CONNECTED\<rparr>) \<and>
            config (curnode u') = knows_pool (trans_node_id tu) m r (config (curnode u))))))"
  using established_run [OF assms, of ev] init_received by blast

text \<open>At the node of \<open>Task_Props\<close>, with an identifier for its connection; the receiver is a copy
  of it that got the sent bytes.\<close>

definition peer_trans :: hmp_transport where
  "peer_trans = busy_trans\<lparr>trans_cm_id := 0x400\<rparr>"

definition peer_sys :: sys where
  "peer_sys = busy_sys\<lparr>transports := [0x60 \<mapsto> zero_transport, 0x200 \<mapsto> peer_trans],
     cm_ids := [0x400 \<mapsto> zero_cm_id\<lparr>id_context := 0x200\<rparr>]\<rparr>"

definition got_sys :: "bytes \<Rightarrow> sys" where
  "got_sys h = peer_sys\<lparr>mem := h, tasks := [0x700 \<mapsto> send_task 0x200 0x10000 32 7]\<rparr>"

definition got_wc :: ibv_wc where
  "got_wc = \<lparr>wc_wr_id = 0x700, wc_status = IBV_WC_SUCCESS, wc_opcode = IBV_WC_RECV\<rparr>"

definition est_event :: rdma_cm_event where
  "est_event = \<lparr>ev_id = 0x400, ev_listen_id = 0, ev_event = RDMA_CM_EVENT_ESTABLISHED, ev_status = 0\<rparr>"

theorem init_exchange_witness:
  "\<exists>s'. on_cm_established sample_env est_event 0x200 peer_sys = Some (0, s') \<and>
    (hd (log s') = (HMP_LOG_LEVEL_ERROR, ''send task create error.'') \<or>
     (\<exists>u. handle_wc got_wc (got_sys (mem s')) = Some u \<and>
        config (curnode u) = knows_pool 0 busy_pool busy_mr (config sample_node)))"
proof -
  have f: "transports peer_sys 0x200 = Some peer_trans" "trans_cm_id peer_trans = 0x400"
      "cm_ids peer_sys 0x400 = Some (zero_cm_id\<lparr>id_context := 0x200\<rparr>)"
      "mem peer_sys = busy_mem" "send_addr (region peer_trans) = 0x10000" "trans_node_id peer_trans = 0"
    by (simp_all add: peer_sys_def busy_sys_def peer_trans_def busy_trans_def zero_transport_def)
  have pool: "pool_ready peer_sys busy_pool busy_mr"
    using busy_pool_ready by (simp add: pool_ready_def peer_sys_def)
  have d: "e_ptr sample_env (peer_known 0x200 peer_trans i peer_sys) (Mem (Alloc (A_bytes INIT_MSG_SIZE))) \<noteq> NULL" for i
  proof -
    have "span 0x100000 20 \<inter> dom busy_mem = {}" "NULL \<notin> span 0x100000 20"
      using span_unat [of "0x100000" 20]
      by (auto simp: busy_mem_def word_le_nat_alt word_less_nat_alt split: if_splits)
    then show ?thesis
      by (simp add: sample_env_def sample_alloc_def sample_place_def peer_known_def peer_sys_def
        busy_sys_def sample_sys_def unused_block_def unused_def INIT_MSG_SIZE_def)
  qed
  have slot: "allocated (mem peer_sys) (send_addr (region peer_trans)) 28"
    using busy_alloc(1) [of "0x10000" 28] by (simp add: f)
  have rcv: "receives got_wc (got_sys h) 0x200 peer_trans bs" if "read_bytes h 0x10000 28 = Some bs" for h bs
    using that f read_bytes_length [OF that]
    by (simp add: receives_def got_wc_def got_sys_def send_task_def)
  have n: "in_nodes 0" "length (node_infos (config (curnode (got_sys h)))) = HMP_NODE_NUM"
      "config (curnode (got_sys h)) = config sample_node" for h
    by (simp_all add: in_nodes_def HMP_NODE_NUM_def got_sys_def peer_sys_def busy_sys_def sample_node_def)
  have "trans_cm_id peer_trans \<noteq> NULL" "cm_ids peer_sys (trans_cm_id peer_trans) = Some (zero_cm_id\<lparr>id_context := 0x200\<rparr>)"
    using f by simp_all
  from init_exchange [OF sample_env_alloc_ok _ f(1) this pool slot d, of est_event] rcv n f(5,6)
  show ?thesis by (simp, metis)
qed

end
