(* ===== verification/Access_Props.thy ===== *)
theory Access_Props
  imports Hmp_Access Task_Props
begin

text \<open>
  Reads and writes of hybrid memory: what is copied or posted for a hybrid address, and when the
  caller of a read gets an answer. The caller waits by looking at the task until the event
  thread has marked it done.
\<close>

section \<open>Waiting\<close>

fun turns :: "(sys \<Rightarrow> sys option) \<Rightarrow> nat \<Rightarrow> sys \<Rightarrow> sys option" where
  "turns W 0 s = Some s"
| "turns W (Suc n) s = do { s \<leftarrow> W s; turns W n s }"

lemma turns_Suc: "turns W (Suc n) s = do { s \<leftarrow> turns W n s; W s }"
proof (induction n arbitrary: s)
  case 0
  show ?case by (cases "W s") simp_all
next
  case (Suc n)
  show ?case by (cases "W s") (simp_all add: Suc.IH [symmetric])
qed

text \<open>The number of turns after which the wait is over.\<close>

definition over_after :: "(sys \<Rightarrow> sys option) \<Rightarrow> (sys \<Rightarrow> bool option) \<Rightarrow> sys \<Rightarrow> nat \<Rightarrow> sys \<Rightarrow> bool" where
  "over_after W busy s n s' \<longleftrightarrow> turns W n s = Some s' \<and> busy s' = Some False \<and>
     (\<forall>k<n. \<exists>sk. turns W k s = Some sk \<and> busy sk = Some True)"

lemma await_iff: "await W busy s = Some s' \<longleftrightarrow> (\<exists>n. over_after W busy s n s')"
proof
  let ?I = "\<lambda>x. \<exists>n. turns W n s = Some x \<and> (\<forall>k<n. \<exists>sk. turns W k s = Some sk \<and> busy sk = Some True)"
  assume "await W busy s = Some s'"
  then show "\<exists>n. over_after W busy s n s'"
    unfolding await_def
  proof (rule loop_partial [where I = ?I])
    show "?I s" by (rule exI [of _ 0]) simp
    fix x x' assume "?I x" and b: "do { b \<leftarrow> busy x; if b then do { s \<leftarrow> W x; Some (Inl s) } else Some (Inr x) } = Some (Inl x')"
    then obtain n where n: "turns W n s = Some x" "\<forall>k<n. \<exists>sk. turns W k s = Some sk \<and> busy sk = Some True"
      by blast
    from b have "busy x = Some True" "W x = Some x'"
      by (auto simp: Option.bind_eq_Some_conv split: if_splits)
    with n show "?I x'"
      by (intro exI [of _ "Suc n"]) (auto simp: turns_Suc less_Suc_eq simp del: turns.simps)
  next
    fix x y assume "?I x" and "do { b \<leftarrow> busy x; if b then do { s \<leftarrow> W x; Some (Inl s) } else Some (Inr x) } = Some (Inr y)"
    then show "\<exists>n. over_after W busy s n y"
      by (auto simp: over_after_def Option.bind_eq_Some_conv split: if_splits)
  qed
next
  assume "\<exists>n. over_after W busy s n s'"
  then obtain n where "over_after W busy s n s'" ..
  then show "await W busy s = Some s'"
  proof (induction n arbitrary: s)
    case 0
    then show ?case by (simp add: over_after_def await_def)
  next
    case (Suc n)
    then obtain s1 where s1: "W s = Some s1" "busy s = Some True"
      by (fastforce simp: over_after_def Option.bind_eq_Some_conv)
    have "over_after W busy s1 n s'"
      unfolding over_after_def
    proof (intro conjI allI impI)
      show "turns W n s1 = Some s'" "busy s' = Some False"
        using Suc.prems s1(1) by (simp_all add: over_after_def)
      fix k assume "k < n"
      then have "\<exists>sk. turns W (Suc k) s = Some sk \<and> busy sk = Some True"
        using Suc.prems by (simp only: over_after_def)
      then show "\<exists>sk. turns W k s1 = Some sk \<and> busy sk = Some True" using s1(1) by simp
    qed
    from Suc.IH [OF this] s1 show ?case by (simp add: await_def)
  qed
qed

section \<open>One-sided requests\<close>

text \<open>A transport whose peer's pool is known.\<close>

definition usable :: "sys \<Rightarrow> ptr \<Rightarrow> hmp_transport \<Rightarrow> bool" where
  "usable s p t \<longleftrightarrow> p \<noteq> NULL \<and> transports s p = Some t \<and> trans_state t = HMP_TRANSPORT_STATE_CONNECTED \<and>
     in_nodes (trans_node_id t)"

definition peer_rkey :: "sys \<Rightarrow> int \<Rightarrow> 32 word" where
  "peer_rkey s i = mri_rkey (dram_mr (node_infos (config (curnode s)) ! nat i))"

definition one_sided :: "hmp_task_type \<Rightarrow> ptr \<Rightarrow> ptr \<Rightarrow> int \<Rightarrow> 32 word \<Rightarrow> hmp_task" where
  "one_sided ty p a len key = \<lparr>task_type = ty,
     task_sge = \<lparr>sge_addr = a, sge_length = word_of_int len, sge_lkey = key\<rparr>, task_rdma_trans = p\<rparr>"

text \<open>The state after a task has been made and its request posted.\<close>

definition posted :: "env \<Rightarrow> ibv_wr_opcode \<Rightarrow> ptr \<Rightarrow> hmp_task \<Rightarrow> hmp_transport \<Rightarrow> ptr \<Rightarrow> 32 word \<Rightarrow> sys \<Rightarrow> int \<times> sys" where
  "posted E opc q k t a key s = int_call E (Verbs (Post_send (trans_qp t) (rdma_wr q k opc a key)))
     ((record_call (Mem (Alloc A_task)) s)\<lparr>tasks := (tasks s)(q \<mapsto> k)\<rparr>)"

lemma check_usable: "usable s p t \<Longrightarrow> hmp_transport_check_state W p s = Some (0, s)"
  by (simp add: usable_def hmp_transport_check_state_def await_def)

lemma one_sided_task:
  assumes "pool_ready s m r" "e_ptr E s (Mem (Alloc A_task)) = q" "q \<noteq> NULL"
  shows "hmp_write_task_create E p a len True s = Some (q, (record_call (Mem (Alloc A_task)) s)
      \<lparr>tasks := (tasks s)(q \<mapsto> one_sided HMP_TASK_WRITE p a len (mr_lkey r))\<rparr>)"
    "hmp_read_task_create E p a len True s = Some (q, (record_call (Mem (Alloc A_task)) s)
      \<lparr>tasks := (tasks s)(q \<mapsto> one_sided HMP_TASK_READ p a len (mr_lkey r))\<rparr>)"
  using assms
  by (simp_all add: hmp_write_task_create_def hmp_read_task_create_def malloc_task_def ptr_call_def
    Let_def upd_defs set_task_lkey_def one_sided_def junk_task_def pool_lkey_def pool_ready_def)

lemma rdma_write_run:
  assumes u: "usable s p t" and pool: "pool_ready s m r"
    and q: "e_ptr E s (Mem (Alloc A_task)) = q" "q \<noteq> NULL"
  shows "hmp_rdma_write E W p a b len s =
    (case posted E IBV_WR_RDMA_WRITE q (one_sided HMP_TASK_WRITE p a len (mr_lkey r)) t b
        (peer_rkey s (trans_node_id t)) s of
      (err, s) \<Rightarrow> Some (if err \<noteq> 0 then ERROR_LOG ''ibv_post_send error.'' s else s))"
  using u q check_usable [OF u] one_sided_task(1) [OF pool q]
  by (simp add: hmp_rdma_write_def usable_def get_info_def posted_def peer_rkey_def case_prod_unfold)

definition read_posted :: "env \<Rightarrow> ptr \<Rightarrow> ptr \<Rightarrow> ptr \<Rightarrow> ptr \<Rightarrow> int \<Rightarrow> hmp_transport \<Rightarrow> ibv_mr \<Rightarrow> sys \<Rightarrow> sys" where
  "read_posted E q p a b len t r s =
    (case posted E IBV_WR_RDMA_READ q (one_sided HMP_TASK_READ p a len (mr_lkey r)) t b
        (peer_rkey s (trans_node_id t)) s of
      (err, s) \<Rightarrow> if err \<noteq> 0 then ERROR_LOG ''ibv_post_send error'' s else s)"

definition task_busy :: "ptr \<Rightarrow> sys \<Rightarrow> bool option" where
  "task_busy q s = do { t \<leftarrow> load (tasks s) q; Some (task_type t \<noteq> HMP_TASK_DONE) }"

lemma rdma_read_run:
  assumes u: "usable s p t" and pool: "pool_ready s m r"
    and q: "e_ptr E s (Mem (Alloc A_task)) = q" "q \<noteq> NULL"
  shows "hmp_rdma_read E W p a b len s =
    do { s \<leftarrow> await W (task_busy q) (read_posted E q p a b len t r s);
         Some (INFO_LOG ''read content is %s'' s) }"
  using u q check_usable [OF u] one_sided_task(2) [OF pool q]
  by (simp add: hmp_rdma_read_def usable_def get_info_def posted_def peer_rkey_def case_prod_unfold
    read_posted_def task_busy_def [abs_def])

section \<open>Hybrid memory\<close>

definition hybrid_log :: "sys \<Rightarrow> sys" where
  "hybrid_log s = INFO_LOG ''remote_addr %p'' (INFO_LOG ''remote_node_id %d'' s)"

lemma hybrid_log_fields [simp]:
  "curnode (hybrid_log s) = curnode s" "transports (hybrid_log s) = transports s"
  "tasks (hybrid_log s) = tasks s" "mem (hybrid_log s) = mem s" "calls (hybrid_log s) = calls s"
  "mempools (hybrid_log s) = mempools s" "mrs (hybrid_log s) = mrs s"
  by (simp_all add: hybrid_log_def)

lemma get_connect_trans_log [simp]: "get_connect_trans i (hybrid_log s) = get_connect_trans i s"
  by (simp add: get_connect_trans_def)

lemma hm_node_id_pair: "hmp_get_hm_node_id a s = (fst (hmp_get_hm_node_id a s), hybrid_log s)"
  by (simp add: hmp_get_hm_node_id_def hybrid_log_def Let_def)

lemma hm_node_id_eq: "fst (hmp_get_hm_node_id a s) = x \<Longrightarrow> hmp_get_hm_node_id a s = (x, hybrid_log s)"
  using hm_node_id_pair [of a s] by simp

lemma hm_node_id_cong:
  "curnode s' = curnode s \<Longrightarrow> fst (hmp_get_hm_node_id a s') = fst (hmp_get_hm_node_id a s)"
  by (simp add: hmp_get_hm_node_id_def Let_def)

lemma memcpy_total:
  assumes "read_bytes h src (length bs) = Some bs" "allocated h dst (length bs)" "length bs \<le> 2 ^ 64"
  shows "\<exists>h'. memcpy dst src (length bs) h = Some h' \<and> read_bytes h' dst (length bs) = Some bs \<and>
    agree_on (- span dst (length bs)) h h' \<and> dom h' = dom h"
proof -
  obtain h' where h': "write_bytes h dst bs = Some h'"
    using write_bytes_total [OF assms(2)] by blast
  show ?thesis
    using h' read_write_bytes [OF h' assms(3)] write_bytes_frame [OF h'] write_bytes_dom [OF h'] assms(1)
    by (auto simp: memcpy_def)
qed

text \<open>A read on the own node is a copy.\<close>

lemma local_read_run:
  assumes own: "fst (hmp_get_hm_node_id hm s) = Inr (curnode_id (config (curnode s)), a)"
    and src: "read_bytes (mem s) a (length bs) = Some bs" "length bs < 2 ^ 31"
    and room: "allocated (mem s) dst (length bs)"
  shows "\<exists>h. hmp_read E W dst hm (int (length bs)) s = Some (Inr 0, (hybrid_log s)\<lparr>mem := h\<rparr>) \<and>
    read_bytes h dst (length bs) = Some bs \<and> agree_on (- span dst (length bs)) (mem s) h"
proof -
  have n: "unat (word_of_int (int (length bs)) :: 64 word) = length bs" "length bs \<le> 2 ^ 64"
    using src(2) by (simp_all add: unat_of_nat take_bit_eq_mod)
  from memcpy_total [OF src(1) room n(2)] obtain h where
    h: "memcpy dst a (length bs) (mem s) = Some h" "read_bytes h dst (length bs) = Some bs"
      "agree_on (- span dst (length bs)) (mem s) h" by blast
  have "hmp_read E W dst hm (int (length bs)) s = Some (Inr 0, (hybrid_log s)\<lparr>mem := h\<rparr>)"
    using hm_node_id_eq [OF own] h(1) n(1) by (simp add: hmp_read_def local_copy_def with_mem_def)
  with h(2,3) show ?thesis by blast
qed


text \<open>A write to another node, as a run.\<close>

lemma remote_write_run:
  assumes "fst (hmp_get_hm_node_id hm s) = Inr (i, a)" "i \<noteq> curnode_id (config (curnode s))"
    and "get_connect_trans i s = Some p" "p \<noteq> NULL" "transports s p = Some t" "trans_node_id t = i"
    and "pool_ready s m r" "trans_state t \<ge> HMP_TRANSPORT_STATE_CONNECTED"
  shows "\<exists>s'. hmp_write E W src hm len s = Some (Inr 0, s') \<and> mem s' = mem s \<and> transports s' = transports s \<and>
    curnode s' = curnode s \<and> mempools s' = mempools s \<and> mrs s' = mrs s \<and>
    (let q = e_ptr E (hybrid_log s) (Mem (Alloc A_task)); k = one_sided HMP_TASK_WRITE p src len (mr_lkey r) in
     if trans_state t \<noteq> HMP_TRANSPORT_STATE_CONNECTED then calls s' = calls s
     else if q = NULL then calls s' = Mem (Alloc A_task) # calls s \<and> tasks s' = tasks s
     else calls s' = Verbs (Post_send (trans_qp t) (rdma_wr q k IBV_WR_RDMA_WRITE a (peer_rkey s i))) #
         Mem (Alloc A_task) # calls s \<and> tasks s' = (tasks s)(q \<mapsto> k))"
proof -
  let ?s = "hybrid_log s"
  let ?q = "e_ptr E ?s (Mem (Alloc A_task))"
  have i: "in_nodes i" using assms(3) by (simp add: get_connect_trans_def split: if_splits)
  have run: "hmp_write E W src hm len s =
      do { s \<leftarrow> hmp_rdma_write E W p src a len ?s; Some (Inr 0, s) }"
    using hm_node_id_eq [OF assms(1)] assms(2,3) by (simp add: hmp_write_def)
  have pool: "pool_ready ?s m r" using assms(7) by (simp add: pool_ready_def)
  consider (dead) "trans_state t \<noteq> HMP_TRANSPORT_STATE_CONNECTED"
    | (no_task) "trans_state t = HMP_TRANSPORT_STATE_CONNECTED" "?q = NULL"
    | (post) "trans_state t = HMP_TRANSPORT_STATE_CONNECTED" "?q \<noteq> NULL" by blast
  then show ?thesis
  proof cases
    case dead
    then have "hmp_transport_check_state W p ?s = Some (- 1, ERROR_LOG ''rdma transport exits error.'' ?s)"
      using assms(4,5,8) by (simp add: hmp_transport_check_state_def await_def not_less [symmetric])
    with run dead show ?thesis by (simp add: hmp_rdma_write_def Let_def)
  next
    case no_task
    have "usable ?s p t" using no_task assms(4-6) i by (simp add: usable_def)
    from check_usable [OF this] no_task run show ?thesis
      by (simp add: hmp_rdma_write_def Let_def hmp_write_task_create_def malloc_task_def ptr_call_def)
  next
    case post
    have "usable ?s p t" using post assms(4-6) i by (simp add: usable_def)
    from rdma_write_run [OF this pool refl post(2)] post run assms(6) show ?thesis
      by (simp add: Let_def posted_def int_call_def peer_rkey_def)
  qed
qed

text \<open>C20. A write to another node. On a usable connection to the node of the address, \<open>hmp_write\<close>
  posts exactly one signalled RDMA write: from the caller's buffer, of the whole length, under
  the own pool's key, to the address in the peer's pool under the key the peer has sent. No
  memory of this node changes. Without memory for the task nothing is posted, and the result is
  0 all the same; after a failure of the transport neither.\<close>

theorem hybrid_remote_write:
  assumes "fst (hmp_get_hm_node_id hm s) = Inr (i, a)" "i \<noteq> curnode_id (config (curnode s))"
    and "get_connect_trans i s = Some p" "p \<noteq> NULL" "transports s p = Some t" "trans_node_id t = i"
    and "pool_ready s m r" "trans_state t \<ge> HMP_TRANSPORT_STATE_CONNECTED"
  shows "\<exists>s'. hmp_write E W src hm len s = Some (Inr 0, s') \<and> mem s' = mem s \<and> transports s' = transports s \<and>
    (let q = e_ptr E (hybrid_log s) (Mem (Alloc A_task)); k = one_sided HMP_TASK_WRITE p src len (mr_lkey r) in
     if trans_state t \<noteq> HMP_TRANSPORT_STATE_CONNECTED then calls s' = calls s
     else if q = NULL then calls s' = Mem (Alloc A_task) # calls s \<and> tasks s' = tasks s
     else calls s' = Verbs (Post_send (trans_qp t) (rdma_wr q k IBV_WR_RDMA_WRITE a (peer_rkey s i))) #
         Mem (Alloc A_task) # calls s \<and> tasks s' = (tasks s)(q \<mapsto> k))"
  using remote_write_run [OF assms] by blast

text \<open>Which completions end the wait.\<close>

lemma task_busy_done:
  assumes "wc_wr_id wc = q" "q \<noteq> NULL" "tasks u q = Some k"
    and "wc_status wc = IBV_WC_SUCCESS" "wc_opcode wc = IBV_WC_RDMA_READ"
  shows "\<exists>u'. handle_wc wc u = Some u' \<and> task_busy q u' = Some False"
  using assms by (simp add: handle_wc_def hmp_wc_success_handler_def task_busy_def upd_defs)

lemma handle_wc_error: "wc_status wc \<noteq> IBV_WC_SUCCESS \<Longrightarrow> handle_wc wc u = Some u' \<Longrightarrow> tasks u' = tasks u"
  by (auto simp: handle_wc_def hmp_wc_error_handler_def split: if_splits)

lemma turns_same:
  assumes "\<And>u u'. W u = Some u' \<Longrightarrow> f u' = f u" "turns W n s = Some s'"
  shows "f s' = f s"
  using assms(2) by (induction n arbitrary: s) (auto simp: Option.bind_eq_Some_conv dest: assms(1))


section \<open>At a concrete node\<close>

text \<open>The node of \<open>Task_Props\<close>, number 1, with a usable connection to node 0.\<close>

definition linked_trans :: hmp_transport where
  "linked_trans = busy_trans\<lparr>trans_state := HMP_TRANSPORT_STATE_CONNECTED\<rparr>"

definition linked_sys :: sys where
  "linked_sys = busy_sys\<lparr>curnode := (curnode busy_sys)\<lparr>connect_trans := 0x200 # replicate 7 NULL\<rparr>,
     transports := [0x60 \<mapsto> zero_transport, 0x200 \<mapsto> linked_trans]\<rparr>"

lemma linked_fields:
  "transports linked_sys 0x200 = Some linked_trans" "trans_node_id linked_trans = 0"
  "trans_state linked_trans = HMP_TRANSPORT_STATE_CONNECTED" "get_connect_trans 0 linked_sys = Some 0x200"
  "config (curnode linked_sys) = config sample_node" "curnode_id (config sample_node) = 1"
  "node_cnt (config sample_node) = 2" "mem linked_sys = busy_mem" "in_nodes 0" "calls linked_sys = []"
  by (simp_all add: linked_sys_def linked_trans_def busy_trans_def zero_transport_def
    get_connect_trans_def in_nodes_def HMP_NODE_NUM_def busy_sys_def sample_node_def sample_sys_def)

lemma linked_pool: "pool_ready linked_sys busy_pool busy_mr"
  using busy_pool_ready by (simp add: pool_ready_def linked_sys_def)

lemma linked_hm:
  "fst (hmp_get_hm_node_id 0x10100 linked_sys) = Inr (0, 0x10100)"
  "fst (hmp_get_hm_node_id 0x1000000010100 linked_sys) = Inr (1, 0x10100)"
  by (simp_all add: hmp_get_hm_node_id_def linked_fields)


theorem hybrid_remote_write_witness:
  "\<exists>s'. hmp_write sample_env Some 0x20000 0x10100 3 linked_sys = Some (Inr 0, s') \<and> mem s' = mem linked_sys"
proof -
  have n: "0 \<noteq> curnode_id (config (curnode linked_sys))" "(0x200 :: ptr) \<noteq> NULL"
      "HMP_TRANSPORT_STATE_CONNECTED \<le> trans_state linked_trans"
    by (simp_all add: linked_fields)
  show ?thesis
    using hybrid_remote_write [OF linked_hm(1) n(1) linked_fields(4) n(2) linked_fields(1,2) linked_pool n(3),
      of sample_env Some "0x20000" 3] by blast
qed


end
