(* ===== verification/Device_Props.thy ===== *)
theory Device_Props
  imports Hmp_Device Hmp_Vc Hmp_Sample List_Props "HOL-Library.Sublist"
begin

text \<open>
  The list of devices: what the start of the transports puts into it, what a search finds, and
  that the end gives every device back.
\<close>

section \<open>The list\<close>

definition device_list :: "env \<Rightarrow> sys \<Rightarrow> ptr list \<Rightarrow> bool" where
  "device_list E s ds \<longleftrightarrow> ring (links s) (e_dev_list E) ds \<and>
     (\<forall>d\<in>set ds. \<exists>v. devices s d = Some v \<and> dev_pd v \<noteq> NULL)"

lemma entry_is_device [simp]:
  "member_of d dev_list_entry_off = d" "container_of d dev_list_entry_off = d"
  "d + dev_list_entry_off = d"
  by (simp_all add: member_of_def container_of_def dev_list_entry_off_def)

definition verbs_of :: "sys \<Rightarrow> ptr \<Rightarrow> ptr" where
  "verbs_of s d = dev_verbs (the (devices s d))"

text \<open>What a run leaves alone.\<close>

definition devices_only :: "sys \<Rightarrow> sys \<Rightarrow> bool" where
  "devices_only s s' \<longleftrightarrow> (\<exists>nd dv lk cs lg. s' = s\<lparr>curnode := (curnode s)\<lparr>num_devices := nd\<rparr>, devices := dv,
     links := lk, calls := cs, log := lg\<rparr>)"

lemma devices_only_trans: "devices_only s s' \<Longrightarrow> devices_only s' s'' \<Longrightarrow> devices_only s s''"
  by (auto simp: devices_only_def) (intro exI, rule refl)

lemma devices_onlyI:
  "s' = s\<lparr>curnode := (curnode s)\<lparr>num_devices := num_devices (curnode s')\<rparr>, devices := devices s',
     links := links s', calls := calls s', log := log s'\<rparr> \<Longrightarrow> devices_only s s'"
  unfolding devices_only_def by blast

lemma devices_only_once:
  "devices_only s s' \<Longrightarrow> init_once s' = init_once s \<and> release_once s' = release_once s"
  by (auto simp: devices_only_def)

section \<open>Start\<close>

text \<open>One device: it is usable, or everything is given back.\<close>

lemma device_init_yields:
  assumes alloc: "alloc_ok E"
  shows "yields (hmp_device_init E c s) (\<lambda>(d, s'). devices_only s s' \<and> num_devices (curnode s') = num_devices (curnode s) \<and>
    (if d = NULL then devices s' = devices s \<and> links s' = links s
     else unused s d \<and> (\<exists>v. devices s' d = Some v \<and> dev_pd v \<noteq> NULL \<and> dev_verbs v = c) \<and>
       agree_on (- {d}) (devices s) (devices s') \<and> alive (links s') d \<and>
       agree_on (- {d}) (links s) (links s')))"
  unfolding hmp_device_init_def Let_def
proof (rule calloc_device_vc [OF alloc], goal_cases)
  case 1
  then show ?case by (simp add: vc devices_onlyI)
next
  case (2 d)
  let ?s = "(\<lambda>s. s\<lparr>devices := (devices s)(d \<mapsto> zero_device), links := (links s)(d + dev_list_entry_off \<mapsto> zero_link)\<rparr>)
    (record_call (Mem (Alloc A_device)) s)"
  have new: "devices s d = None" "links s d = None" "d \<noteq> NULL"
    using 2 by (simp_all add: unused_def)
  have undo: "((devices s)(d := None)) = devices s" "(links s)(d := None) = links s"
    using new by (auto simp: fun_eq_iff)
  obtain h where h: "INIT_LIST_HEAD d ((links s)(d \<mapsto> zero_link)) = Some h" "ring h d []"
      "agree_on (- {d}) ((links s)(d \<mapsto> zero_link)) h"
    using init_ring [of "(links s)(d \<mapsto> zero_link)" d] new(3) by (auto simp: alive_def)
  have "agree_on (- {d}) (links s) h" "alive h d"
    using h(3) ring_alive [OF h(2)] by (auto simp: agree_on_def)
  then show ?case
    using new 2 h(1) undo
    by (simp add: vc ibv_query_device_def int_call_def ptr_call_def Let_def cleandev_def
      free_device_def with_links_def dev_list_entry_off_def devices_onlyI fun_upd_twist
      member_of_def agree_on_def)
qed

text \<open>The loop. Each usable device goes to the front; the others are not counted.\<close>

definition usable_context :: "env \<Rightarrow> ptr \<Rightarrow> bool" where
  "usable_context E c \<longleftrightarrow> c \<noteq> NULL \<and> e_dev_name E c \<noteq> ''siw_lo''"

definition devices_added :: "env \<Rightarrow> sys \<Rightarrow> ptr list \<Rightarrow> sys \<Rightarrow> ptr list \<Rightarrow> bool" where
  "devices_added E s0 cs s ds \<longleftrightarrow> devices_only s0 s \<and> device_list E s ds \<and>
     set ds \<inter> dom (devices s0) = {} \<and> agree_on (- set ds) (devices s0) (devices s) \<and>
     set ds \<inter> dom (links s0) = {} \<and> agree_on (dom (links s0) - {e_dev_list E}) (links s0) (links s) \<and>
     subseq (map (verbs_of s) ds) (rev (filter (usable_context E) cs))"

lemma skip_device_fields [simp]:
  "devices (skip_device s) = devices s" "links (skip_device s) = links s"
  "num_devices (curnode (skip_device s)) = num_devices (curnode s) - 1"
  by (simp_all add: skip_device_def)

lemma devices_only_skip: "devices_only s s' \<Longrightarrow> devices_only s (skip_device s')"
  by (rule devices_only_trans, assumption, rule devices_onlyI) (simp add: skip_device_def upd_curnode_def)

lemma devices_only_log: "devices_only s s' \<Longrightarrow> devices_only s (ERROR_LOG m s')"
  "devices_only s s' \<Longrightarrow> devices_only s (INFO_LOG m s')"
  by (rule devices_only_trans, assumption, rule devices_onlyI, simp add: ERROR_LOG_eq INFO_LOG_eq)+

lemma devices_added_skip:
  "devices_added E s0 cs s ds \<Longrightarrow> devices_only s0 s' \<Longrightarrow> devices s' = devices s \<Longrightarrow> links s' = links s \<Longrightarrow>
   devices_added E s0 (cs @ [c]) s' ds"
  by (auto simp: devices_added_def device_list_def verbs_of_def [abs_def] intro: list_emb_Cons)

lemma devices_added_front:
  assumes a: "devices_added E s0 cs s ds" and c: "usable_context E c"
    and d: "unused s d" "devices s' d = Some v" "dev_pd v \<noteq> NULL" "dev_verbs v = c"
    and s': "devices_only s0 s'" "agree_on (- {d}) (devices s) (devices s')"
      "ring (links s') (e_dev_list E) (d # ds)" "agree_on (- insert (e_dev_list E) (set (d # ds))) (links s) (links s')"
  shows "devices_added E s0 (cs @ [c]) s' (d # ds)"
proof -
  have nd: "d \<notin> set ds" using s'(3) by (simp add: ring_def)
  have same: "devices s' e = devices s e" if "e \<noteq> d" for e
    using s'(2) that by (simp add: agree_on_def)
  have "map (verbs_of s') ds = map (verbs_of s) ds"
    unfolding verbs_of_def by (rule map_cong [OF refl]) (metis nd same)
  moreover have "verbs_of s' d = c" using d by (simp add: verbs_of_def)
  ultimately have vs: "subseq (map (verbs_of s') (d # ds)) (rev (filter (usable_context E) (cs @ [c])))"
    using a c by (simp add: devices_added_def del: map_eq_conv)
  have d0: "devices s0 d = None"
    using a d(1) nd by (simp add: devices_added_def unused_def agree_on_def)
  have "d \<noteq> e_dev_list E" using s'(3) by (auto simp: ring_def)
  with a have "links s0 d \<noteq> None \<Longrightarrow> links s d = links s0 d" by (auto simp: devices_added_def agree_on_def)
  moreover have "links s d = None" using d(1) by (simp add: unused_def)
  ultimately have l0: "links s0 d = None" by metis
  have l: "agree_on (dom (links s0) - {e_dev_list E}) (links s0) (links s')"
    unfolding agree_on_def
  proof
    fix x assume x: "x \<in> dom (links s0) - {e_dev_list E}"
    then have "x \<notin> set (d # ds)" using a l0 by (auto simp: devices_added_def)
    with x a s'(4) show "links s' x = links s0 x" by (simp add: devices_added_def agree_on_def)
  qed
  have "device_list E s' (d # ds)"
    using a d s'(3) nd same by (auto simp: devices_added_def device_list_def) (metis same)
  moreover have "agree_on (- set (d # ds)) (devices s0) (devices s')"
    using a same by (simp add: devices_added_def agree_on_def)
  ultimately show ?thesis
    using a d0 s'(1) vs l l0 by (auto simp: devices_added_def)
qed

lemma devices_added_ring: "devices_added E s0 cs s ds \<Longrightarrow> ring (links s) (e_dev_list E) ds"
  by (simp add: devices_added_def device_list_def)

lemma init_devices_yields:
  assumes alloc: "alloc_ok E"
  shows "devices_added E s0 us s ds \<Longrightarrow> yields (init_devices E cs s) (\<lambda>s'. \<exists>es.
    devices_added E s0 (us @ cs) s' es \<and>
    num_devices (curnode s') = num_devices (curnode s) - int (length cs) + int (length es) - int (length ds))"
proof (induction cs arbitrary: us s ds)
  case Nil
  then show ?case by (auto simp: vc)
next
  case (Cons c cs)
  have only: "devices_only s0 s" using Cons.prems by (simp add: devices_added_def)
  have skip: "yields (init_devices E cs (skip_device s1)) (\<lambda>s'. \<exists>es.
      devices_added E s0 (us @ c # cs) s' es \<and>
      num_devices (curnode s') = num_devices (curnode s) - int (length (c # cs)) + int (length es) - int (length ds))"
    if "devices_only s0 s1" "devices s1 = devices s" "links s1 = links s"
      "num_devices (curnode s1) = num_devices (curnode s)" for s1
  proof -
    have "devices_added E s0 (us @ [c]) (skip_device s1) ds"
      using devices_added_skip [OF Cons.prems devices_only_skip [OF that(1)]] that(2,3) by simp
    from Cons.IH [OF this] show ?thesis
      by (rule yields_mono) (use that(4) in auto)
  qed
  show ?case
  proof (cases "usable_context E c")
    case False
    then have "init_devices E (c # cs) s = init_devices E cs (skip_device (if c = NULL
        then ERROR_LOG ''RDMA device [%d] is NULL.'' s else s))"
      by (auto simp: usable_context_def)
    with skip [of "if c = NULL then ERROR_LOG ''RDMA device [%d] is NULL.'' s else s"]
      only devices_only_log show ?thesis by simp
  next
    case True
    then have run: "init_devices E (c # cs) s = do {
        (dev, s) \<leftarrow> hmp_device_init E c s;
        if dev = NULL
        then init_devices E cs
          (skip_device (ERROR_LOG ''RDMA device [%d]: name= %s allocate error.'' s))
        else do {
          s \<leftarrow> with_links (list_add (member_of dev dev_list_entry_off) (e_dev_list E)) s;
          init_devices E cs (INFO_LOG ''RDMA device [%d]: name= %s allocate success.'' s) } }"
      by (simp add: usable_context_def)
    show ?thesis
      unfolding run yields_bind
    proof (rule yields_mono [OF device_init_yields [OF alloc]], clarify)
      fix d s1
      assume o1: "devices_only s s1" and n1: "num_devices (curnode s1) = num_devices (curnode s)"
        and r: "if d = NULL then devices s1 = devices s \<and> links s1 = links s
          else unused s d \<and> (\<exists>v. devices s1 d = Some v \<and> dev_pd v \<noteq> NULL \<and> dev_verbs v = c) \<and>
            agree_on (- {d}) (devices s) (devices s1) \<and> alive (links s1) d \<and>
            agree_on (- {d}) (links s) (links s1)"
      note o = devices_only_trans [OF only o1]
      let ?Q = "\<lambda>s'. \<exists>es. devices_added E s0 (us @ c # cs) s' es \<and>
        num_devices (curnode s') = num_devices (curnode s) - int (length (c # cs)) + int (length es) - int (length ds)"
      show "yields (if d = NULL
          then init_devices E cs (skip_device (ERROR_LOG ''RDMA device [%d]: name= %s allocate error.'' s1))
          else do {
            s \<leftarrow> with_links (list_add (member_of d dev_list_entry_off) (e_dev_list E)) s1;
            init_devices E cs (INFO_LOG ''RDMA device [%d]: name= %s allocate success.'' s) }) ?Q"
      proof (cases "d = NULL")
        case True
        with r n1 skip [of "ERROR_LOG ''RDMA device [%d]: name= %s allocate error.'' s1"]
          devices_only_log [OF o] show ?thesis by simp
      next
        case False
        with r obtain v where v: "unused s d" "devices s1 d = Some v" "dev_pd v \<noteq> NULL" "dev_verbs v = c"
            "agree_on (- {d}) (devices s) (devices s1)" "alive (links s1) d"
            "agree_on (- {d}) (links s) (links s1)" by auto
        note ring = devices_added_ring [OF Cons.prems]
        have fresh: "d \<notin> set (e_dev_list E # ds)"
          using ring_alive [OF ring, of d] v(1) by (auto simp: unused_def alive_def)
        then have "ring (links s1) (e_dev_list E) ds"
          using ring_agree [OF ring] v(7) by (auto simp: agree_on_def)
        then obtain h where h: "list_add d (e_dev_list E) (links s1) = Some h" "ring h (e_dev_list E) (d # ds)"
            "agree_on (- insert (e_dev_list E) (set (d # ds))) (links s1) h"
          using list_add_ring [of "links s1" "e_dev_list E" "[]" ds d] v(6) fresh by auto
        let ?s2 = "INFO_LOG ''RDMA device [%d]: name= %s allocate success.'' (s1\<lparr>links := h\<rparr>)"
        have "agree_on (- insert (e_dev_list E) (set (d # ds))) (links s) h"
          using h(3) v(7) by (auto simp: agree_on_def)
        moreover have "devices_only s1 ?s2" by (rule devices_onlyI) (simp add: INFO_LOG_eq)
        ultimately have "devices_added E s0 (us @ [c]) ?s2 (d # ds)"
          using devices_added_front [OF Cons.prems True v(1), of ?s2 v] devices_only_trans [OF o] v(2-5) h(2) by simp
        from Cons.IH [OF this] have "yields (init_devices E cs ?s2) ?Q"
          by (rule yields_mono) (use n1 in auto)
        then show ?thesis using False h(1) by (simp add: vc with_links_def)
      qed
    qed
  qed
qed

text \<open>The first start as a whole.\<close>

lemma transport_init_yields:
  assumes "alloc_ok E" "\<not> init_once s" "alive (links s) (e_dev_list E)" "\<forall>s. e_devices E s = Some cs"
  shows "yields (hmp_transport_init E s) (\<lambda>s1. \<exists>ds. devices_added E (s\<lparr>init_once := True\<rparr>) cs s1 ds \<and>
    num_devices (curnode s1) = int (length ds))"
proof -
  from init_ring [OF assms(3)] obtain h where
    h: "INIT_LIST_HEAD (e_dev_list E) (links s) = Some h" "ring h (e_dev_list E) []" "agree_on (- {e_dev_list E}) (links s) h" by blast
  let ?si = "s\<lparr>init_once := True\<rparr>"
  let ?s = "upd_curnode (\<lambda>n. n\<lparr>num_devices := int (length cs)\<rparr>) (record_call (Cm Get_devices) (?si\<lparr>links := h\<rparr>))"
  have "devices_only ?si ?s" by (rule devices_onlyI) (simp add: upd_curnode_def record_call_def)
  then have start: "devices_added E ?si [] ?s []"
    using h(2,3) by (auto simp: devices_added_def device_list_def agree_on_def)
  from init_devices_yields [OF assms(1) start, of cs] obtain s' ds where
    s': "init_devices E cs ?s = Some s'" "devices_added E ?si cs s' ds"
      "num_devices (curnode s') = int (length ds)"
    by (auto simp: yields_def)
  let ?s1 = "record_call (Cm Free_devices) s'"
  have "devices_only ?si ?s1"
    by (rule devices_only_trans [of _ s'], use s'(2) in \<open>simp add: devices_added_def\<close>)
      (rule devices_onlyI, simp add: record_call_def)
  then have "devices_added E ?si cs ?s1 ds"
    using s'(2) by (simp add: devices_added_def device_list_def verbs_of_def [abs_def])
  moreover have "hmp_transport_init E s = Some ?s1"
    using assms(2,4) h(1) s'(1) by (simp add: hmp_transport_init_def hmp_device_init_handle_def with_links_def)
  ultimately show ?thesis using s'(3) by (auto simp: vc)
qed

section \<open>Search\<close>

lemma device_lookup_finds:
  assumes "device_list E s ds"
  shows "hmp_device_lookup E (e_curnode E) v s =
    Some (case find (\<lambda>d. verbs_of s d = v) ds of None \<Rightarrow> NULL | Some d \<Rightarrow> d)"
proof -
  let ?body = "\<lambda>device s. do {
     d \<leftarrow> load (devices s) device;
     Some (if dev_verbs d = v then Inr device else Inl s) }"
  let ?P = "\<lambda>ys s'. s' = s \<and> (\<forall>d\<in>set ys. verbs_of s d \<noteq> v)"
  let ?Q = "\<lambda>d. find (\<lambda>d. verbs_of s d = v) ds = Some d"
  have ring: "ring (links s) (e_dev_list E) ds" using assms by (simp add: device_list_def)
  have "loop_result (?P ds) ?Q (list_for_each_entry links dev_list_entry_off (e_dev_list E) ?body s)"
  proof (rule list_for_each_entry_rule [where P = ?P])
    fix ys d zs s' assume ds: "ds = ys @ d # zs" and P: "?P ys s'"
    then obtain w where w: "devices s d = Some w" "d \<noteq> NULL"
      using assms ring_NULL [OF ring] by (auto simp: device_list_def)
    have "find (\<lambda>d. verbs_of s d = v) ys = None" using P by (auto simp: find_None_iff)
    then have "find (\<lambda>d. verbs_of s d = v) ds = find (\<lambda>d. verbs_of s d = v) (d # zs)"
      unfolding ds by (induction ys) auto
    then show "loop_result (?P (ys @ [d])) ?Q (?body (container_of d dev_list_entry_off) s')"
      using w P by (auto simp: loop_result_def verbs_of_def)
  qed (use ring in auto)
  moreover have "find (\<lambda>d. verbs_of s d = v) ds = None" if "\<forall>d\<in>set ds. verbs_of s d \<noteq> v"
    using that by (auto simp: find_None_iff)
  ultimately show ?thesis
    by (auto simp: hmp_device_lookup_def loop_result_def)
qed

section \<open>End\<close>

text \<open>What the release of a device calls, newest first.\<close>

definition release_calls :: "sys \<Rightarrow> ptr \<Rightarrow> call list" where
  "release_calls s d = [Mem (Free d), Verbs (Dealloc_pd (dev_pd (the (devices s d))))]"

text \<open>The state after the first devices of the list have been released.\<close>

definition devices_gone :: "env \<Rightarrow> sys \<Rightarrow> ptr list \<Rightarrow> ptr list \<Rightarrow> sys \<Rightarrow> bool" where
  "devices_gone E s ys zs s' \<longleftrightarrow> devices_only s s' \<and> ring (links s') (e_dev_list E) zs \<and>
     agree_on (- set ys) (devices s) (devices s') \<and> (\<forall>d\<in>set ys. devices s' d = None) \<and>
     calls s' = concat (map (release_calls s) (rev ys)) @ calls s"

lemma device_release_step:
  assumes list: "device_list E s (ys @ d # zs)" and gone: "devices_gone E s ys (d # zs) s1"
  shows "yields (do { s \<leftarrow> with_links (list_del_init (member_of d dev_list_entry_off)) s1;
      hmp_device_release d s }) (devices_gone E s (ys @ [d]) zs)"
proof -
  have r: "ring (links s1) (e_dev_list E) ([] @ d # zs)" using gone by (simp add: devices_gone_def)
  have nd: "d \<notin> set ys" "d \<noteq> e_dev_list E" "d \<notin> set zs" "d \<noteq> NULL"
    using list ring_NULL [of "links s" "e_dev_list E" "ys @ d # zs"]
    by (auto simp: device_list_def ring_def)
  obtain v where v: "devices s1 d = Some v" "devices s d = Some v"
    using list gone nd(1) by (auto simp: device_list_def devices_gone_def agree_on_def)
  from list_del_init_ring [OF r] obtain h1 where
    h1: "list_del_init d (links s1) = Some h1" "ring h1 (e_dev_list E) zs" "ring h1 d []" by auto
  from list_del_alone [OF h1(3)] obtain h2 where
    h2: "list_del d h1 = Some h2" "agree_on (- {d}) h1 h2" by blast
  have "ring (h2(d := None)) (e_dev_list E) zs"
    by (rule ring_agree [OF h1(2)]) (use h2(2) nd in \<open>auto simp: agree_on_def\<close>)
  moreover have "devices_only s (record_call (Mem (Free d)) (record_call (Verbs (Dealloc_pd (dev_pd v)))
      (s1\<lparr>links := h2\<rparr>)\<lparr>devices := (devices s1)(d := None), links := h2(d := None)\<rparr>))"
    by (rule devices_only_trans [of _ s1], use gone in \<open>simp add: devices_gone_def\<close>)
      (rule devices_onlyI, simp add: record_call_def)
  ultimately show ?thesis
    using gone v nd h1(1) h2(1)
    by (auto simp: vc with_links_def hmp_device_release_def free_device_def devices_gone_def
      agree_on_def yields_def release_calls_def)
qed

lemma device_release_all:
  assumes list: "device_list E s ds"
  shows "yields (hmp_device_release_handle E s) (devices_gone E s ds [])"
proof -
  let ?P = "\<lambda>ys s1. \<exists>zs. ds = ys @ zs \<and> devices_gone E s ys zs s1"
  let ?body = "\<lambda>dev s. stay (do {
        s \<leftarrow> with_links (list_del_init (member_of dev dev_list_entry_off)) s;
        hmp_device_release dev s })"
  have "loop_result (?P ds) (\<lambda>_. False)
    (list_for_each_entry_safe links dev_list_entry_off (e_dev_list E) ?body s)"
  proof (rule list_for_each_entry_safe_rule [where P = ?P])
    show "?P [] s" using list by (auto simp: devices_gone_def device_list_def intro: devices_onlyI)
    show "ring (links s1) (e_dev_list E) zs" if "ds = ys @ zs" "?P ys s1" for ys zs s1
      using that by (auto simp: devices_gone_def)
    fix ys d zs s1 assume ds: "ds = ys @ d # zs" and "?P ys s1"
    then have "devices_gone E s ys (d # zs) s1" by auto
    from device_release_step [OF list [unfolded ds] this] ds
    show "loop_result (?P (ys @ [d])) (\<lambda>_. False) (?body (container_of d dev_list_entry_off) s1)"
      by (auto simp: yields_def loop_result_def stay_def)
  qed
  then show ?thesis
    by (auto simp: hmp_device_release_handle_def loop_result_def loop_end_def yields_def)
qed


text \<open>A node that has not started, with two usable contexts and the loopback one.\<close>

definition cold_env :: env where
  "cold_env = sample_env\<lparr>e_devices := (\<lambda>_. Some [0x80, 0x88, 0x90]),
     e_dev_name := (\<lambda>c. if c = 0x88 then ''siw_lo'' else ''mlx5_0'')\<rparr>"

definition cold_sys :: sys where
  "cold_sys = sample_sys\<lparr>devices := Map.empty, links := [0x20 \<mapsto> zero_link]\<rparr>"


end
