(* ===== verification/Queue_Props.thy ===== *)
theory Queue_Props
  imports Hmp_Transport Hmp_Vc Hmp_Sample
begin

text \<open>
  Registered descriptors and completion queues: the registry of the event loop stays well-formed,
  and a completion queue is either complete and registered or given back.
\<close>

lemma yields_pair: "yields m (\<lambda>(r, s). Q r s) \<longleftrightarrow> (\<exists>r s. m = Some (r, s) \<and> Q r s)"
  by (auto simp: yields_def)

section \<open>The registry\<close>

text \<open>Every record the kernel may hand to the event loop is alive and names its descriptor.\<close>

definition registry_ok :: "sys \<Rightarrow> bool" where
  "registry_ok s \<longleftrightarrow> (\<forall>ep fd d. interest s (ep, fd) = Some d \<longrightarrow>
     d \<noteq> NULL \<and> (\<exists>r. event_datas s d = Some r \<and> ed_fd r = fd))"

definition event_record :: "int \<Rightarrow> ptr \<Rightarrow> hmp_event_handler \<Rightarrow> hmp_event_data" where
  "event_record fd data h = \<lparr>ed_fd = fd, ed_data = data, ed_event_handler = h\<rparr>"

lemma registry_ok_cong:
  "interest s' = interest s \<Longrightarrow> event_datas s' = event_datas s \<Longrightarrow> registry_ok s' = registry_ok s"
  by (simp add: registry_ok_def)

lemma registry_ok_sub:
  "registry_ok s \<Longrightarrow> interest s' \<subseteq>\<^sub>m interest s \<Longrightarrow> event_datas s' = event_datas s \<Longrightarrow> registry_ok s'"
  unfolding registry_ok_def map_le_def by (metis domI)

text \<open>What a run on the registry leaves alone.\<close>

definition registry_only :: "sys \<Rightarrow> sys \<Rightarrow> bool" where
  "registry_only s s' \<longleftrightarrow> (\<exists>ed it cs lg. s' = s\<lparr>event_datas := ed, interest := it, calls := cs, log := lg\<rparr>)"

lemma registry_onlyI:
  "s' = s\<lparr>event_datas := event_datas s', interest := interest s', calls := calls s', log := log s'\<rparr> \<Longrightarrow>
   registry_only s s'"
  unfolding registry_only_def by blast

lemma registry_only_fields:
  assumes "registry_only s s'"
  shows "hcqs s' = hcqs s" "chan_fds s' = chan_fds s" "devices s' = devices s" "contexts s' = contexts s"
    "transports s' = transports s"
  using assms by (auto simp: registry_only_def)

definition added :: "hmp_context \<Rightarrow> int \<Rightarrow> ptr \<Rightarrow> hmp_event_handler \<Rightarrow> sys \<Rightarrow> int \<Rightarrow> sys \<Rightarrow> bool" where
  "added c fd data h s r s' \<longleftrightarrow> registry_only s s' \<and> registry_ok s' \<and>
     (if r = 0 then \<exists>d. event_datas s d = None \<and> interest s' = (interest s)((epfd c, fd) \<mapsto> d) \<and>
        event_datas s' = (event_datas s)(d \<mapsto> event_record fd data h)
      else interest s' = interest s \<and> event_datas s' = event_datas s)"

lemma add_event_yields:
  assumes alloc: "alloc_ok E" and ok: "registry_ok s" and c: "ctx \<noteq> NULL" "contexts s ctx = Some c"
  shows "yields (hmp_context_add_event_fd E ctx ev fd data h s) (\<lambda>(r, s'). added c fd data h s r s')"
  unfolding hmp_context_add_event_fd_def Let_def
proof (rule calloc_event_data_vc [OF alloc], goal_cases)
  case 1
  then show ?case
    using ok by (simp add: vc added_def registry_ok_def) (rule registry_onlyI, simp add: record_call_def ERROR_LOG_eq)
next
  case (2 d)
  have new: "event_datas s d = None" using 2 by (simp add: unused_def)
  then have undo: "(event_datas s)(d := None) = event_datas s" by auto
  have ok': "\<And>ep fd e. interest s (ep, fd) = Some e \<Longrightarrow> e \<noteq> NULL \<and> e \<noteq> d \<and> (\<exists>r. event_datas s e = Some r \<and> ed_fd r = fd)"
    using ok new by (fastforce simp: registry_ok_def)
  show ?case
    using 2 c new undo ok'
    by (simp add: vc upd_event_data_def epoll_ctl_add_def int_call_def Let_def zero_event_data_def)
      (auto simp: added_def event_record_def registry_ok_def vc intro!: registry_onlyI)
qed

lemma del_event_yields:
  assumes ok: "registry_ok s" and c: "ctx \<noteq> NULL" "contexts s ctx = Some c"
  shows "yields (hmp_context_del_event_fd E ctx fd s) (\<lambda>(r, s'). registry_only s s' \<and> registry_ok s' \<and>
    event_datas s' = event_datas s \<and> r = e_int E s (Os (Epoll_del (epfd c) fd)) \<and>
    interest s' = (if r = 0 then (interest s)((epfd c, fd) := None) else interest s))"
  using assms
  by (auto simp: vc hmp_context_del_event_fd_def epoll_ctl_del_def int_call_def registry_ok_def Let_def
    record_call_def ERROR_LOG_eq intro!: registry_onlyI)

text \<open>C22. The registry of the event loop is well-formed and stays so: whatever the kernel can hand
  to the loop is a live record with its own descriptor. Registering a descriptor either makes a
  fresh record with exactly the arguments and enters it, or leaves the registry and the records
  as they were; removing one takes at most its entry out, and its record stays allocated.\<close>

theorem event_registry:
  assumes "alloc_ok E" "registry_ok s" "ctx \<noteq> NULL" "contexts s ctx = Some c"
  shows "(\<exists>r s'. hmp_context_add_event_fd E ctx ev fd data h s = Some (r, s') \<and> registry_ok s' \<and>
      registry_only s s' \<and>
      (if r = 0 then \<exists>d. event_datas s d = None \<and> interest s' = (interest s)((epfd c, fd) \<mapsto> d) \<and>
         event_datas s' = (event_datas s)(d \<mapsto> event_record fd data h)
       else interest s' = interest s \<and> event_datas s' = event_datas s)) \<and>
    (\<exists>r s'. hmp_context_del_event_fd E ctx fd s = Some (r, s') \<and> registry_ok s' \<and>
      registry_only s s' \<and> event_datas s' = event_datas s \<and>
      interest s' = (if r = 0 then (interest s)((epfd c, fd) := None) else interest s))"
  using add_event_yields [OF assms, of ev fd data h] del_event_yields [OF assms(2-4), of E fd]
  unfolding yields_pair added_def by blast

theorem event_registry_witness:
  "\<exists>r s'. hmp_context_add_event_fd sample_env 0x50 EPOLLIN 7 0x200 EVENT_CHANNEL_HANDLER sample_sys = Some (r, s') \<and>
    registry_ok s'"
proof -
  have "registry_ok sample_sys" by (simp add: registry_ok_def sample_sys_def)
  moreover have "contexts sample_sys 0x50 = Some \<lparr>epfd = 3, ctx_stop = 0, epoll_thread = 1\<rparr>"
    by (simp add: sample_sys_def)
  ultimately show ?thesis
    using event_registry [OF sample_env_alloc_ok, of sample_sys "0x50"] by fastforce
qed

section \<open>Completion queues\<close>

text \<open>
  The documented behaviour of the channel and of \<open>epoll\<close>: a new channel, if there is one, is not
  one that exists, nor is its descriptor registered; removing a registered descriptor succeeds.
\<close>

definition channel_ok :: "env \<Rightarrow> bool" where
  "channel_ok E \<longleftrightarrow> (\<forall>s v. let call = Verbs (Create_comp_channel v) in e_ptr E s call = NULL \<or>
     chan_fds s (e_ptr E s call) = None \<and> (\<forall>ep. interest s (ep, e_int E s call) = None)) \<and>
     (\<forall>s ep fd. interest s (ep, fd) \<noteq> None \<longrightarrow> e_int E s (Os (Epoll_del ep fd)) = 0)"

definition cq_only :: "sys \<Rightarrow> sys \<Rightarrow> bool" where
  "cq_only s s' \<longleftrightarrow> (\<exists>hc cf ed it cs lg. s' = s\<lparr>hcqs := hc, chan_fds := cf, event_datas := ed, interest := it,
     calls := cs, log := lg\<rparr>)"

lemma cq_onlyI:
  "s' = s\<lparr>hcqs := hcqs s', chan_fds := chan_fds s', event_datas := event_datas s', interest := interest s',
     calls := calls s', log := log s'\<rparr> \<Longrightarrow> cq_only s s'"
  unfolding cq_only_def by blast

lemma cq_only_trans: "cq_only s s' \<Longrightarrow> cq_only s' s'' \<Longrightarrow> cq_only s s''"
  by (auto simp: cq_only_def) (intro exI, rule refl)

lemma registry_cq_only: "registry_only s s' \<Longrightarrow> cq_only s s'"
  by (auto simp: registry_only_def) (rule cq_onlyI, simp)

text \<open>Everything given back: the queue, the channel and the registration.\<close>

definition cq_undone :: "sys \<Rightarrow> ptr \<times> sys \<Rightarrow> bool" where
  "cq_undone s = (\<lambda>(q, s'). q = NULL \<and> cq_only s s' \<and> registry_ok s' \<and> hcqs s' = hcqs s \<and>
     chan_fds s' = chan_fds s \<and> interest s' = interest s \<and>
     agree_on (dom (event_datas s)) (event_datas s) (event_datas s'))"

definition cq_partial :: "sys \<Rightarrow> ptr \<Rightarrow> ptr \<Rightarrow> sys \<Rightarrow> bool" where
  "cq_partial s q chan s' \<longleftrightarrow> cq_only s s' \<and> registry_ok s' \<and> q \<noteq> NULL \<and> hcqs s q = None \<and>
     (\<exists>h. hcqs s' = (hcqs s)(q \<mapsto> h) \<and> hcq_comp_channel h = chan) \<and>
     agree_on (dom (event_datas s)) (event_datas s) (event_datas s')"

lemma cleanhcq_undone:
  assumes "cq_partial s q chan s'" "chan_fds s' = chan_fds s" "interest s' = interest s"
  shows "yields (cleanhcq q s') (cq_undone s)"
proof -
  from assms(1) obtain h where h: "hcqs s' = (hcqs s)(q \<mapsto> h)" "q \<noteq> NULL" "hcqs s q = None"
    by (auto simp: cq_partial_def)
  have "(hcqs s)(q := None) = hcqs s" using h(3) by auto
  moreover have "cq_only s (record_call (Mem (Free q)) (s'\<lparr>hcqs := hcqs s\<rparr>))"
    by (rule cq_only_trans [of _ s'], use assms(1) in \<open>simp add: cq_partial_def\<close>)
      (rule cq_onlyI, simp add: record_call_def)
  ultimately show ?thesis
    using h assms by (simp add: vc cleanhcq_def cq_undone_def cq_partial_def registry_ok_def)
qed

lemma cq_partial_step:
  "cq_partial s q chan s' \<Longrightarrow> cq_only s' s'' \<Longrightarrow> hcqs s'' = hcqs s' \<Longrightarrow> interest s'' = interest s' \<Longrightarrow>
   event_datas s'' = event_datas s' \<Longrightarrow> cq_partial s q chan s''"
  by (auto simp: cq_partial_def registry_ok_def dest: cq_only_trans)

lemma cleanchannel_undone:
  assumes "cq_partial s q chan s'" "chan_fds s chan = None"
    and "chan_fds s' = (chan_fds s)(chan := cf)" "interest s' = interest s"
  shows "yields (cleanchannel q s') (cq_undone s)"
proof -
  let ?s = "ibv_destroy_comp_channel chan s'"
  have "cq_only s' ?s" by (rule cq_onlyI) (simp add: record_call_def ibv_destroy_comp_channel_def)
  then have "cq_partial s q chan ?s"
    by (rule cq_partial_step [OF assms(1)]) (simp_all add: ibv_destroy_comp_channel_def)
  then have "yields (cleanhcq q ?s) (cq_undone s)"
    by (rule cleanhcq_undone) (use assms in \<open>auto simp: ibv_destroy_comp_channel_def fun_eq_iff\<close>)
  then show ?thesis
    using assms(1) by (auto simp: vc cleanchannel_def cq_partial_def)
qed

lemma cleaneventfd_undone:
  assumes E: "channel_ok E" and p: "cq_partial s q chan s'" "chan_fds s chan = None"
    and reg: "chan \<noteq> NULL" "chan_fds s' = (chan_fds s)(chan \<mapsto> fd)" "interest s (epfd c, fd) = None"
      "interest s' = (interest s)((epfd c, fd) \<mapsto> d)"
    and c: "ctx \<noteq> NULL" "contexts s' ctx = Some c"
  shows "yields (cleaneventfd E ctx q s') (cq_undone s)"
proof -
  from p(1) obtain h where h: "hcqs s' q = Some h" "hcq_comp_channel h = chan" "q \<noteq> NULL"
    by (auto simp: cq_partial_def)
  have ok: "registry_ok s'" using p(1) by (simp add: cq_partial_def)
  have del: "e_int E s' (Os (Epoll_del (epfd c) fd)) = 0"
    using E reg(4) by (simp add: channel_ok_def Let_def)
  have "yields (hmp_context_del_event_fd E ctx fd s' \<bind> (\<lambda>(_, s). cleanchannel q s)) (cq_undone s)"
    unfolding yields_bind
  proof (rule yields_mono [OF del_event_yields [OF ok c]], clarify)
    fix r s2
    assume only: "registry_only s' s2" and "registry_ok s2" "event_datas s2 = event_datas s'"
      and i: "interest s2 = (if e_int E s' (Os (Epoll_del (epfd c) fd)) = 0 then (interest s')((epfd c, fd) := None) else interest s')"
    then have "cq_partial s q chan s2"
      using p(1) cq_only_trans [OF _ registry_cq_only [OF only]] registry_only_fields [OF only]
      by (simp add: cq_partial_def)
    moreover have "interest s2 = interest s" using i del reg(3,4) by auto
    ultimately show "yields (cleanchannel q s2) (cq_undone s)"
      using cleanchannel_undone p(2) reg(2) registry_only_fields [OF only] by simp
  qed
  then show ?thesis using h reg(1,2) by (simp add: cleaneventfd_def case_prod_unfold)
qed

text \<open>A complete queue.\<close>

definition cq_made :: "hmp_context \<Rightarrow> ptr \<Rightarrow> ptr \<Rightarrow> sys \<Rightarrow> ptr \<times> sys \<Rightarrow> bool" where
  "cq_made c ctx dev s = (\<lambda>(q, s'). q \<noteq> NULL \<and> hcqs s q = None \<and> cq_only s s' \<and> registry_ok s' \<and>
     agree_on (dom (event_datas s)) (event_datas s) (event_datas s') \<and>
     (\<exists>chan cq fd d. hcqs s' = (hcqs s)(q \<mapsto> \<lparr>hcq_cq = cq, hcq_comp_channel = chan, hcq_device = dev, hcq_ctx = ctx\<rparr>) \<and>
       chan \<noteq> NULL \<and> cq \<noteq> NULL \<and> chan_fds s chan = None \<and> chan_fds s' = (chan_fds s)(chan \<mapsto> fd) \<and>
       interest s (epfd c, fd) = None \<and> interest s' = (interest s)((epfd c, fd) \<mapsto> d) \<and>
       event_datas s' d = Some (event_record fd q CQ_COMP_CHANNEL_HANDLER)))"

lemma cq_madeI:
  assumes "cq_partial s q chan t" "chan_fds s chan = None"
    and "hcqs t q = Some \<lparr>hcq_cq = cq, hcq_comp_channel = chan, hcq_device = dev, hcq_ctx = ctx\<rparr>"
    and "chan \<noteq> NULL" "cq \<noteq> NULL" "chan_fds t = (chan_fds s)(chan \<mapsto> fd)"
    and "interest s (epfd c, fd) = None" "interest t = (interest s)((epfd c, fd) \<mapsto> d)"
    and "event_datas t d = Some (event_record fd q CQ_COMP_CHANNEL_HANDLER)"
  shows "cq_made c ctx dev s (q, t)"
proof -
  from assms(1) obtain h where h: "hcqs t = (hcqs s)(q \<mapsto> h)" by (auto simp: cq_partial_def)
  with assms(3) have "h = \<lparr>hcq_cq = cq, hcq_comp_channel = chan, hcq_device = dev, hcq_ctx = ctx\<rparr>" by simp
  with h assms show ?thesis by (simp add: cq_made_def cq_partial_def) blast
qed

text \<open>From the registration on: the queue itself, and the request for its first event.\<close>

definition cq_open :: "env \<Rightarrow> ptr \<Rightarrow> ptr \<Rightarrow> ptr \<Rightarrow> ptr \<Rightarrow> sys \<Rightarrow> (ptr \<times> sys) option" where
  "cq_open E device ctx hcq chan s = do {
     d \<leftarrow> load (devices s) device;
     let alloc_size = min CQE_ALLOC_SIZE (max_cqe (device_attr d));
     let (cq, s) = ptr_call E (Verbs (Create_cq (dev_verbs d) alloc_size hcq chan)) s;
     s \<leftarrow> upd_hcq (\<lambda>h. h\<lparr>hcq_cq := cq\<rparr>) hcq s;
     if cq = NULL then cleaneventfd E ctx hcq (ERROR_LOG ''ibv create cq error.'' s)
     else do {
       let (retval, s) = int_call E (Verbs (Req_notify_cq cq)) s;
       if retval \<noteq> 0 then cleaneventfd E ctx hcq (ERROR_LOG ''ibv req notify cq error.'' s)
       else do {
         s \<leftarrow> upd_hcq (\<lambda>h. h\<lparr>hcq_device := device\<rparr>) hcq s;
         Some (hcq, s) } } }"

lemma cq_partial_upd:
  assumes "cq_partial s q chan s'" "hcqs s' q = Some h" "hcq_comp_channel h' = chan"
  shows "cq_partial s q chan (s'\<lparr>hcqs := (hcqs s')(q \<mapsto> h')\<rparr>)"
    "cq_partial s q chan (record_call call s')" "cq_partial s q chan (ERROR_LOG m s')"
proof -
  have o: "cq_only s s'" using assms(1) by (simp add: cq_partial_def)
  have "cq_only s (s'\<lparr>hcqs := (hcqs s')(q \<mapsto> h')\<rparr>)" by (rule cq_only_trans [OF o], rule cq_onlyI, simp)
  then show "cq_partial s q chan (s'\<lparr>hcqs := (hcqs s')(q \<mapsto> h')\<rparr>)"
    using assms by (auto simp: cq_partial_def registry_ok_def)
  show "cq_partial s q chan (record_call call s')" "cq_partial s q chan (ERROR_LOG m s')"
    by (rule cq_partial_step [OF assms(1)], rule cq_onlyI; simp add: record_call_def ERROR_LOG_eq)+
qed

lemma cq_open_yields:
  assumes E: "channel_ok E" and p: "cq_partial s q chan s'" "chan_fds s chan = None"
    and h: "hcqs s' q = Some h" "hcq_ctx h = ctx" "hcq_comp_channel h = chan"
    and reg: "chan \<noteq> NULL" "chan_fds s' = (chan_fds s)(chan \<mapsto> fd)" "interest s (epfd c, fd) = None"
      "interest s' = (interest s)((epfd c, fd) \<mapsto> e)"
      "event_datas s' e = Some (event_record fd q CQ_COMP_CHANNEL_HANDLER)"
    and c: "ctx \<noteq> NULL" "contexts s' ctx = Some c" and d: "dev \<noteq> NULL" "devices s' dev = Some v"
  shows "yields (cq_open E dev ctx q chan s') (\<lambda>r. cq_made c ctx dev s r \<or> cq_undone s r)"
proof -
  have undone: "yields (cleaneventfd E ctx q t) (\<lambda>r. cq_made c ctx dev s r \<or> cq_undone s r)"
    if "cq_partial s q chan t" "chan_fds t = chan_fds s'" "interest t = interest s'" "contexts t = contexts s'" for t
    by (rule yields_mono [OF cleaneventfd_undone [OF E that(1) p(2) reg(1) _ reg(3) _ c(1)]])
      (use that reg(2,4) c(2) in auto)
  have q: "q \<noteq> NULL" "hcqs s q = None" using p(1) by (simp_all add: cq_partial_def)
  let ?cq = "e_ptr E s' (Verbs (Create_cq (dev_verbs v) (min CQE_ALLOC_SIZE (max_cqe (device_attr v))) q chan))"
  let ?t = "record_call (Verbs (Create_cq (dev_verbs v) (min CQE_ALLOC_SIZE (max_cqe (device_attr v))) q chan)) s'"
  let ?t1 = "?t\<lparr>hcqs := (hcqs ?t)(q \<mapsto> h\<lparr>hcq_cq := ?cq\<rparr>)\<rparr>"
  have t1: "cq_partial s q chan ?t1"
    using cq_partial_upd(1) [where h = h and h' = "h\<lparr>hcq_cq := ?cq\<rparr>", OF cq_partial_upd(2) [OF p(1) h(1,3)]] h by simp
  let ?n = "Verbs (Req_notify_cq ?cq)"
  have t2: "cq_partial s q chan (record_call ?n ?t1)"
    using cq_partial_upd(2) [where h = "h\<lparr>hcq_cq := ?cq\<rparr>" and h' = h, OF t1] h by simp
  let ?t3 = "(record_call ?n ?t1)\<lparr>hcqs := (hcqs ?t1)(q \<mapsto> h\<lparr>hcq_cq := ?cq, hcq_device := dev\<rparr>)\<rparr>"
  have t3: "cq_partial s q chan ?t3"
    using cq_partial_upd(1) [where h = "h\<lparr>hcq_cq := ?cq\<rparr>"
      and h' = "h\<lparr>hcq_cq := ?cq, hcq_device := dev\<rparr>", OF t2] h by simp
  have e1: "cq_partial s q chan (ERROR_LOG m ?t1)" for m
    using cq_partial_upd(3) [where h = "h\<lparr>hcq_cq := ?cq\<rparr>" and h' = h, OF t1] h by simp
  have e2: "cq_partial s q chan (ERROR_LOG m (record_call ?n ?t1))" for m
    using cq_partial_upd(3) [where h = "h\<lparr>hcq_cq := ?cq\<rparr>" and h' = h, OF t2] h by simp
  have full: "h\<lparr>hcq_cq := ?cq, hcq_device := dev\<rparr> =
      \<lparr>hcq_cq = ?cq, hcq_comp_channel = chan, hcq_device = dev, hcq_ctx = ctx\<rparr>"
    using h by (cases h) simp
  have made: "cq_made c ctx dev s (q, ?t3)" if "?cq \<noteq> NULL"
    by (rule cq_madeI [OF t3 p(2) _ reg(1) that, where fd = fd and d = e]) (use reg full in simp_all)
  show ?thesis
  proof (cases "?cq = NULL")
    case True
    with d q(1) h(1) undone [OF e1] show ?thesis
      by (simp add: vc cq_open_def ptr_call_def Let_def)
  next
    case False
    with d q(1) h(1) made undone [OF e2] show ?thesis
      by (simp add: vc cq_open_def ptr_call_def int_call_def Let_def)
  qed
qed

text \<open>The channel is made non-blocking, then registered.\<close>

definition cq_watch :: "env \<Rightarrow> ptr \<Rightarrow> ptr \<Rightarrow> ptr \<Rightarrow> ptr \<Rightarrow> sys \<Rightarrow> (ptr \<times> sys) option" where
  "cq_watch E device ctx hcq chan s = do {
     fd \<leftarrow> load (chan_fds s) chan;
     let (flags, s) = set_nonblock E fd s;
     if flags = - 1 then cleanchannel hcq (ERROR_LOG ''set hcq comp channel fd nonblock error.'' s)
     else do {
       s \<leftarrow> upd_hcq (\<lambda>h. h\<lparr>hcq_ctx := ctx\<rparr>) hcq s;
       (retval, s) \<leftarrow> hmp_context_add_event_fd E ctx EPOLLIN fd hcq CQ_COMP_CHANNEL_HANDLER s;
       if retval \<noteq> 0 then cleanchannel hcq (ERROR_LOG ''context add comp channel fd error.'' s)
       else cq_open E device ctx hcq chan s } }"

lemma hmp_cq_get_open:
  "hmp_cq_get E device ctx s = (let (hcq, s) = calloc_hcq E s in
     if hcq = NULL then Some (NULL, ERROR_LOG ''allocate the memory of struct hmp_cq error.'' s)
     else do {
       d \<leftarrow> load (devices s) device;
       let (chan, s) = ibv_create_comp_channel E (dev_verbs d) s;
       s \<leftarrow> upd_hcq (\<lambda>h. h\<lparr>hcq_comp_channel := chan\<rparr>) hcq s;
       if chan = NULL then cleanhcq hcq (ERROR_LOG ''rdma device %p create comp channel error.'' s)
       else cq_watch E device ctx hcq chan s })"
  unfolding hmp_cq_get_def cq_watch_def cq_open_def by (rule refl)

lemma agree_on_dom_new: "agree_on (dom f) f g \<Longrightarrow> g d = None \<Longrightarrow> agree_on (dom f) f (g(d \<mapsto> v))"
proof -
  assume a: "agree_on (dom f) f g" "g d = None"
  have "d \<notin> dom f"
  proof
    assume d: "d \<in> dom f"
    with a(1) have "g d = f d" by (simp add: agree_on_def)
    with a(2) d show False by auto
  qed
  with a show ?thesis by (simp add: agree_on_def)
qed

text \<open>From the channel on.\<close>

lemma set_nonblock_calls: "\<exists>flags cs. set_nonblock E fd s = (flags, s\<lparr>calls := cs\<rparr>)"
  by (cases "e_int E s (Os (Fcntl_getfl fd)) = - 1")
    (auto simp: set_nonblock_def int_call_def record_call_def Let_def)

lemma cq_register_yields:
  assumes alloc: "alloc_ok E" and E: "channel_ok E" and p: "cq_partial s q chan s'" "chan_fds s chan = None"
    and h: "hcqs s' q = Some h" "hcq_comp_channel h = chan"
    and reg: "chan \<noteq> NULL" "chan_fds s' = (chan_fds s)(chan \<mapsto> fd)" "interest s (epfd c, fd) = None"
      "interest s' = interest s"
    and c: "ctx \<noteq> NULL" "contexts s' ctx = Some c" and d: "dev \<noteq> NULL" "devices s' dev = Some v"
  shows "yields (do {
      (retval, s) \<leftarrow> hmp_context_add_event_fd E ctx EPOLLIN fd q CQ_COMP_CHANNEL_HANDLER
        (s'\<lparr>hcqs := (hcqs s')(q \<mapsto> h\<lparr>hcq_ctx := ctx\<rparr>)\<rparr>);
      if retval \<noteq> 0 then cleanchannel q (ERROR_LOG ''context add comp channel fd error.'' s)
      else cq_open E dev ctx q chan s }) (\<lambda>r. cq_made c ctx dev s r \<or> cq_undone s r)"
proof -
  let ?s = "s'\<lparr>hcqs := (hcqs s')(q \<mapsto> h\<lparr>hcq_ctx := ctx\<rparr>)\<rparr>"
  have ps: "cq_partial s q chan ?s"
    using cq_partial_upd(1) [where h' = "h\<lparr>hcq_ctx := ctx\<rparr>", OF p(1) h(1)] h(2) by simp
  have ok: "registry_ok ?s" using ps by (simp add: cq_partial_def)
  have c': "contexts ?s ctx = Some c" using c by simp
  show ?thesis
    unfolding yields_bind
  proof (rule yields_mono [OF add_event_yields [OF alloc ok c(1) c', of EPOLLIN fd q CQ_COMP_CHANNEL_HANDLER]],
      clarify)
    fix r s2
    assume a: "added c fd q CQ_COMP_CHANNEL_HANDLER ?s r s2"
    then have only: "registry_only ?s s2" by (simp add: added_def)
    note f = registry_only_fields [OF only]
    have "agree_on (dom (event_datas s)) (event_datas s) (event_datas s2)"
      using a ps agree_on_dom_new by (auto simp: added_def cq_partial_def split: if_splits)
    then have p2: "cq_partial s q chan s2"
      using ps a f cq_only_trans [OF _ registry_cq_only [OF only]] by (simp add: cq_partial_def added_def)
    have h2: "hcqs s2 q = Some (h\<lparr>hcq_ctx := ctx\<rparr>)" using f by simp
    show "yields (if r \<noteq> 0 then cleanchannel q (ERROR_LOG ''context add comp channel fd error.'' s2)
        else cq_open E dev ctx q chan s2) (\<lambda>r. cq_made c ctx dev s r \<or> cq_undone s r)"
    proof (cases "r = 0")
      case False
      have pe: "cq_partial s q chan (ERROR_LOG ''context add comp channel fd error.'' s2)"
        using cq_partial_upd(3) [OF p2 h2] h(2) by simp
      have "yields (cleanchannel q (ERROR_LOG ''context add comp channel fd error.'' s2)) (cq_undone s)"
        by (rule cleanchannel_undone [OF pe p(2), where cf = "Some fd"])
          (use f reg(2,4) a False in \<open>simp_all add: added_def\<close>)
      with False show ?thesis by (auto intro: yields_mono)
    next
      case True
      with a have "\<exists>e. interest s2 = (interest s)((epfd c, fd) \<mapsto> e) \<and>
          event_datas s2 = (event_datas s')(e \<mapsto> event_record fd q CQ_COMP_CHANNEL_HANDLER)"
        using reg(4) by (simp add: added_def) blast
      then obtain e where "interest s2 = (interest s)((epfd c, fd) \<mapsto> e)"
          "event_datas s2 = (event_datas s')(e \<mapsto> event_record fd q CQ_COMP_CHANNEL_HANDLER)" by blast
      then have e: "event_datas s2 e = Some (event_record fd q CQ_COMP_CHANNEL_HANDLER)"
          "interest s2 = (interest s)((epfd c, fd) \<mapsto> e)" by simp_all
      from cq_open_yields [OF E p2 p(2) h2 _ _ reg(1) _ reg(3) e(2,1) c(1) _ d(1)] True f h(2) reg(2) c(2) d(2)
      show ?thesis by simp
    qed
  qed
qed

lemma cq_watch_yields:
  assumes alloc: "alloc_ok E" and E: "channel_ok E" and p: "cq_partial s q chan s'" "chan_fds s chan = None"
    and h: "hcqs s' q = Some h" "hcq_comp_channel h = chan"
    and reg: "chan \<noteq> NULL" "chan_fds s' = (chan_fds s)(chan \<mapsto> fd)" "interest s (epfd c, fd) = None"
      "interest s' = interest s"
    and c: "ctx \<noteq> NULL" "contexts s' ctx = Some c" and d: "dev \<noteq> NULL" "devices s' dev = Some v"
  shows "yields (cq_watch E dev ctx q chan s') (\<lambda>r. cq_made c ctx dev s r \<or> cq_undone s r)"
proof -
  obtain flags cs where nb: "set_nonblock E fd s' = (flags, s'\<lparr>calls := cs\<rparr>)"
    using set_nonblock_calls by blast
  let ?s = "s'\<lparr>calls := cs\<rparr>"
  have ps: "cq_partial s q chan ?s"
    by (rule cq_partial_step [OF p(1)], rule cq_onlyI) simp_all
  have "cq_partial s q chan (ERROR_LOG m ?s)" for m
    by (rule cq_partial_step [OF ps], rule cq_onlyI) (simp_all add: ERROR_LOG_eq)
  then have "yields (cleanchannel q (ERROR_LOG ''set hcq comp channel fd nonblock error.'' ?s)) (cq_undone s)"
    by (rule cleanchannel_undone [OF _ p(2), where cf = "Some fd"]) (use reg in simp_all)
  then have bad: "yields (cleanchannel q (ERROR_LOG ''set hcq comp channel fd nonblock error.'' ?s))
      (\<lambda>r. cq_made c ctx dev s r \<or> cq_undone s r)" by (rule yields_mono) simp
  have "q \<noteq> NULL" using p(1) by (simp add: cq_partial_def)
  then show ?thesis
    using cq_register_yields [OF alloc E ps p(2) _ h(2) reg(1) _ reg(3) _ c(1) _ d(1)] h(1) reg(1,2,4) c(2) d(2) nb bad
    by (simp add: cq_watch_def upd_defs)
qed

lemma cq_get_yields:
  assumes "alloc_ok E" "channel_ok E" "registry_ok s"
    and "dev \<noteq> NULL" "devices s dev = Some v" "ctx \<noteq> NULL" "contexts s ctx = Some c"
  shows "yields (hmp_cq_get E dev ctx s) (\<lambda>r. cq_made c ctx dev s r \<or> cq_undone s r)"
  unfolding hmp_cq_get_open Let_def
proof (rule calloc_hcq_vc [OF assms(1)], goal_cases)
  case 1
  have "cq_only s (ERROR_LOG m (record_call (Mem (Alloc A_cq)) s))" for m
    by (rule cq_onlyI) (simp add: record_call_def ERROR_LOG_eq)
  with assms(3) show ?case by (simp add: vc cq_undone_def registry_ok_def)
next
  case (2 q)
  let ?s1 = "(record_call (Mem (Alloc A_cq)) s)\<lparr>hcqs := (hcqs s)(q \<mapsto> zero_hcq)\<rparr>"
  let ?c = "Verbs (Create_comp_channel (dev_verbs v))"
  let ?chan = "e_ptr E ?s1 ?c" and ?fd = "e_int E ?s1 ?c"
  let ?h = "zero_hcq\<lparr>hcq_comp_channel := ?chan\<rparr>"
  let ?fds = "if ?chan = NULL then chan_fds s else (chan_fds s)(?chan \<mapsto> ?fd)"
  let ?s2 = "(record_call ?c ?s1)\<lparr>chan_fds := ?fds, hcqs := (hcqs s)(q \<mapsto> ?h)\<rparr>"
  have ch: "hcq_comp_channel ?h = ?chan" by simp
  have "hcqs s q = None" using 2 by (simp add: unused_def)
  moreover have "cq_only s ?s2" by (rule cq_onlyI) (simp add: record_call_def)
  moreover have "\<exists>h. hcqs ?s2 = (hcqs s)(q \<mapsto> h) \<and> hcq_comp_channel h = ?chan"
    by (rule exI [of _ ?h]) simp
  ultimately have p2: "cq_partial s q ?chan ?s2"
    using 2 assms(3) by (simp add: cq_partial_def registry_ok_def)
  have run: "ibv_create_comp_channel E (dev_verbs v) ?s1 = (?chan, (record_call ?c ?s1)\<lparr>chan_fds := ?fds\<rparr>)"
    by (simp add: ibv_create_comp_channel_def ptr_call_def record_call_def Let_def)
  have "upd_hcq (hcq_comp_channel_update (\<lambda>_. ?chan)) q ((record_call ?c ?s1)\<lparr>chan_fds := ?fds\<rparr>) = Some ?s2"
    using 2 by (simp add: upd_defs)
  note get = run this
  show ?case
  proof (cases "?chan = NULL")
    case True
    have "cq_partial s q ?chan (ERROR_LOG m ?s2)" for m
      by (rule cq_partial_step [OF p2], rule cq_onlyI) (simp_all add: ERROR_LOG_eq)
    then have "yields (cleanhcq q (ERROR_LOG ''rdma device %p create comp channel error.'' ?s2)) (cq_undone s)"
      by (rule cleanhcq_undone) (use True in simp_all)
    then have "yields (cleanhcq q (ERROR_LOG ''rdma device %p create comp channel error.'' ?s2))
        (\<lambda>r. cq_made c ctx dev s r \<or> cq_undone s r)" by (rule yields_mono) simp
    then show ?thesis using 2 get assms(4,5) True by simp
  next
    case False
    then have new: "chan_fds s ?chan = None" "interest s (epfd c, ?fd) = None"
      using assms(2) by (auto simp: channel_ok_def Let_def dest!: spec [of _ ?s1])
    have "yields (cq_watch E dev ctx q ?chan ?s2) (\<lambda>r. cq_made c ctx dev s r \<or> cq_undone s r)"
      by (rule cq_watch_yields [OF assms(1,2) p2 new(1) _ ch False _ new(2) _ assms(6) _ assms(4)])
        (use False assms(5,7) in simp_all)
    then show ?thesis using 2 get assms(4,5) False by simp
  qed
qed


text \<open>An environment with the promised channels, at the node of \<open>Hmp_Sample\<close>.\<close>

definition channel_env :: env where
  "channel_env = sample_env\<lparr>e_ptr := (\<lambda>s c. case c of
      Verbs (Create_comp_channel v) \<Rightarrow>
        if chan_fds s (sample_place s) = None \<and> interest s = Map.empty then sample_place s else NULL
    | _ \<Rightarrow> e_ptr sample_env s c)\<rparr>"

lemma channel_env_alloc_ok: "alloc_ok channel_env"
  using sample_env_alloc_ok by (simp add: alloc_ok_def channel_env_def)

lemma channel_env_ok: "channel_ok channel_env"
  by (simp add: channel_ok_def channel_env_def Let_def) (simp add: sample_env_def)


end
