(* ===== verification/Loop_Props.thy ===== *)
theory Loop_Props
  imports Hmp_Keep Queue_Props Hmp_Access
begin

text \<open>
  The event loop of \<open>hmp_context_run\<close> with the program's two handlers: what the event thread can
  never change, that the loop calls what was registered, and when it ends.
\<close>

section \<open>What the event thread never changes\<close>

text \<open>The node itself: its devices and lists, its pool, its identity, and the other nodes' addresses.\<close>

definition same_node :: "sys \<Rightarrow> sys \<Rightarrow> bool" where
  "same_node s s' \<longleftrightarrow> devices s' = devices s \<and> links s' = links s \<and> hash_nodes s' = hash_nodes s \<and>
     mempools s' = mempools s \<and> mrs s' = mrs s \<and> init_once s' = init_once s \<and> release_once s' = release_once s \<and>
     (let n = curnode s; n' = curnode s' in same_nodes (config n) (config n') \<and> node_ctx n' = node_ctx n \<and>
       listen_trans n' = listen_trans n \<and> listen_port n' = listen_port n \<and> dram_mempool n' = dram_mempool n \<and>
       hybrid_mempool_base n' = hybrid_mempool_base n \<and> num_devices n' = num_devices n)"

lemma same_node_refl [simp]: "same_node s s"
  by (simp add: same_node_def)

text \<open>Contexts are only ever told to stop.\<close>

definition only_stopped :: "hmp_context heap \<Rightarrow> hmp_context heap \<Rightarrow> bool" where
  "only_stopped C C' \<longleftrightarrow> (\<forall>p. C' p = C p \<or> C' p = map_option (ctx_stop_update (\<lambda>_. 1)) (C p))"

lemma only_stopped_refl [simp]: "only_stopped C C"
  by (simp add: only_stopped_def)

lemma only_stopped_stop:
  assumes "only_stopped C C'" "C' p = Some c"
  shows "only_stopped C (C'(p \<mapsto> c\<lparr>ctx_stop := 1\<rparr>))"
proof -
  have "Some (c\<lparr>ctx_stop := 1\<rparr>) = map_option (ctx_stop_update (\<lambda>_. 1)) (C p)"
    using assms by (auto simp: only_stopped_def dest!: spec [of _ p])
  with assms show ?thesis by (simp add: only_stopped_def)
qed

lemma only_stoppedD:
  "only_stopped C C' \<Longrightarrow> C p = Some c \<Longrightarrow> C' p = Some c \<or> C' p = Some (c\<lparr>ctx_stop := 1\<rparr>)"
  by (auto simp: only_stopped_def dest!: spec [of _ p])

definition frame :: "sys \<Rightarrow> sys \<Rightarrow> bool" where
  "frame s s' \<longleftrightarrow> same_node s s' \<and> only_stopped (contexts s) (contexts s')"

lemma frame_refl [simp]: "frame s s"
  by (simp add: frame_def)

lemma frame_fields [simp]:
  "frame s (record_call c t) = frame s t"
  "frame s (put_block f p n t) = frame s t"
  "frame s (ERROR_LOG m t) = frame s t"
  "frame s (INFO_LOG m t) = frame s t"
  "frame s (t\<lparr>transports := tr\<rparr>) = frame s t"
  "frame s (t\<lparr>tasks := tk\<rparr>) = frame s t"
  "frame s (t\<lparr>hcqs := hc\<rparr>) = frame s t"
  "frame s (t\<lparr>event_datas := ed\<rparr>) = frame s t"
  "frame s (t\<lparr>mem := mm\<rparr>) = frame s t"
  "frame s (t\<lparr>blocks := bs\<rparr>) = frame s t"
  "frame s (t\<lparr>cm_ids := ci\<rparr>) = frame s t"
  "frame s (t\<lparr>chan_fds := cf\<rparr>) = frame s t"
  "frame s (t\<lparr>interest := it\<rparr>) = frame s t"
  "frame s (upd_curnode (\<lambda>n. n\<lparr>connect_trans := g n\<rparr>) t) = frame s t"
  by (simp_all add: frame_def same_node_def upd_curnode_def Let_def)

lemma frame_stop:
  "frame s t \<Longrightarrow> contexts t p = Some c \<Longrightarrow> frame s (t\<lparr>contexts := (contexts t)(p \<mapsto> c\<lparr>ctx_stop := 1\<rparr>)\<rparr>)"
  using only_stopped_stop by (auto simp: frame_def same_node_def)

lemma frame_peer:
  "frame s t \<Longrightarrow> same_nodes (config (curnode t)) c \<Longrightarrow> frame s (upd_curnode (\<lambda>n. n\<lparr>config := c\<rparr>) t)"
  by (auto simp: frame_def same_node_def upd_curnode_def Let_def intro: same_nodes_trans)

lemma frame_upd:
  "frame s t \<Longrightarrow> keeps (frame s) (upd_trans ft p t)"
  "frame s t \<Longrightarrow> keeps (frame s) (upd_task fk p t)"
  "frame s t \<Longrightarrow> keeps (frame s) (upd_hcq fh p t)"
  "frame s t \<Longrightarrow> keeps (frame s) (upd_cm_id fi p t)"
  "frame s t \<Longrightarrow> keeps (frame s) (upd_event_data fe p t)"
  "frame s t \<Longrightarrow> keeps (frame s) (with_mem fm t)"
  "frame s t \<Longrightarrow> keeps (frame s) (set_connect_trans i q t)"
  "frame s t \<Longrightarrow> keeps (frame s) (free_hcq p t)"
  "frame s t \<Longrightarrow> keeps (frame s) (free_transport p t)"
  "frame s t \<Longrightarrow> keeps (frame s) (free_event_data p t)"
  "frame s t \<Longrightarrow> keeps (frame s) (upd_context (\<lambda>c. c\<lparr>ctx_stop := 1\<rparr>) p t)"
  by (auto simp: keeps_def whenever_def upd_trans_def upd_task_def upd_hcq_def upd_cm_id_def with_mem_def
    upd_context_def upd_event_data_def set_connect_trans_def free_defs modify_eq_Some_iff frame_stop
    Option.bind_eq_Some_conv split: if_splits)

lemma frame_alloc:
  "frame s t \<Longrightarrow> malloc_task E t = (p, t') \<Longrightarrow> frame s t'"
  "frame s t \<Longrightarrow> calloc_hcq E t = (p, t') \<Longrightarrow> frame s t'"
  "frame s t \<Longrightarrow> malloc_block E n t = (p, t') \<Longrightarrow> frame s t'"
  "frame s t \<Longrightarrow> calloc_event_data E t = (p, t') \<Longrightarrow> frame s t'"
  "frame s t \<Longrightarrow> calloc_transport E t = (p, t') \<Longrightarrow> frame s t'"
  "frame s t \<Longrightarrow> epoll_ctl_add E ep fd ev d t = (r, t') \<Longrightarrow> frame s t'"
  by (auto simp: malloc_task_def calloc_hcq_def malloc_block_def calloc_event_data_def calloc_transport_def
    ptr_call_def int_call_def epoll_ctl_add_def Let_def split: if_splits)

lemma frame_add_fd: "frame s t \<Longrightarrow> keeps2 (frame s) (hmp_context_add_event_fd E ctx ev fd d h t)"
  unfolding hmp_context_add_event_fd_def Let_def
  by (auto intro!: keep frame_upd dest: frame_alloc)

interpretation frames: kept E "frame s0" for E s0
  by unfold_locales (auto intro: frame_upd frame_alloc frame_add_fd frame_peer)

section \<open>The records\<close>

text \<open>The registry stays well-formed, and a record that is once there stays as it is.\<close>

definition records_stay :: "env \<Rightarrow> hmp_event_data heap \<Rightarrow> sys \<Rightarrow> bool" where
  "records_stay E R s \<longleftrightarrow> alloc_ok E \<longrightarrow> registry_ok s \<and> R \<subseteq>\<^sub>m event_datas s"

lemma records_cong:
  "interest s' = interest s \<Longrightarrow> event_datas s' = event_datas s \<Longrightarrow> records_stay E R s' = records_stay E R s"
  by (simp add: records_stay_def registry_ok_def)

lemma records_fields [simp]:
  "records_stay E R (record_call c t) = records_stay E R t"
  "records_stay E R (put_block f p n t) = records_stay E R t"
  "records_stay E R (ERROR_LOG m t) = records_stay E R t"
  "records_stay E R (INFO_LOG m t) = records_stay E R t"
  "records_stay E R (t\<lparr>curnode := cn\<rparr>) = records_stay E R t"
  "records_stay E R (t\<lparr>transports := tr\<rparr>) = records_stay E R t"
  "records_stay E R (t\<lparr>tasks := tk\<rparr>) = records_stay E R t"
  "records_stay E R (t\<lparr>hcqs := hc\<rparr>) = records_stay E R t"
  "records_stay E R (t\<lparr>contexts := cx\<rparr>) = records_stay E R t"
  "records_stay E R (t\<lparr>mem := mm\<rparr>) = records_stay E R t"
  "records_stay E R (t\<lparr>blocks := bs\<rparr>) = records_stay E R t"
  "records_stay E R (t\<lparr>cm_ids := ci\<rparr>) = records_stay E R t"
  "records_stay E R (t\<lparr>chan_fds := cf\<rparr>) = records_stay E R t"
  by (rule records_cong; simp)+

lemma records_del: "records_stay E R t \<Longrightarrow> records_stay E R (t\<lparr>interest := (interest t)(k := None)\<rparr>)"
  by (auto simp: records_stay_def registry_ok_def)

lemma records_upd:
  "records_stay E R t \<Longrightarrow> keeps (records_stay E R) (upd_trans ft p t)"
  "records_stay E R t \<Longrightarrow> keeps (records_stay E R) (upd_task fk p t)"
  "records_stay E R t \<Longrightarrow> keeps (records_stay E R) (upd_hcq fh p t)"
  "records_stay E R t \<Longrightarrow> keeps (records_stay E R) (upd_cm_id fi p t)"
  "records_stay E R t \<Longrightarrow> keeps (records_stay E R) (upd_context fc p t)"
  "records_stay E R t \<Longrightarrow> keeps (records_stay E R) (with_mem fm t)"
  "records_stay E R t \<Longrightarrow> keeps (records_stay E R) (set_connect_trans i q t)"
  "records_stay E R t \<Longrightarrow> keeps (records_stay E R) (free_hcq p t)"
  "records_stay E R t \<Longrightarrow> keeps (records_stay E R) (free_transport p t)"
  by (auto simp: keeps_def whenever_def upd_defs set_connect_trans_def free_defs
    Option.bind_eq_Some_conv split: if_splits)

lemma records_alloc:
  "records_stay E R t \<Longrightarrow> malloc_task E' t = (p, t') \<Longrightarrow> records_stay E R t'"
  "records_stay E R t \<Longrightarrow> calloc_hcq E' t = (p, t') \<Longrightarrow> records_stay E R t'"
  "records_stay E R t \<Longrightarrow> malloc_block E' n t = (p, t') \<Longrightarrow> records_stay E R t'"
  "records_stay E R t \<Longrightarrow> calloc_transport E' t = (p, t') \<Longrightarrow> records_stay E R t'"
  by (auto simp: malloc_task_def calloc_hcq_def malloc_block_def calloc_transport_def
    ptr_call_def split: if_splits)

lemma map_le_new: "m \<subseteq>\<^sub>m f \<Longrightarrow> f d = None \<Longrightarrow> m \<subseteq>\<^sub>m f(d \<mapsto> v)"
  by (force simp: map_le_def)

lemma records_add_fd:
  assumes "records_stay E R s"
  shows "keeps2 (records_stay E R) (hmp_context_add_event_fd E ctx ev fd data h s)"
  unfolding keeps2_def whenever_def
proof clarify
  fix r s' assume run: "hmp_context_add_event_fd E ctx ev fd data h s = Some (r, s')"
  show "records_stay E R s'"
  proof (cases "alloc_ok E \<and> ctx \<noteq> NULL \<and> contexts s ctx \<noteq> None")
    case True
    then obtain c where c: "contexts s ctx = Some c" by auto
    with True add_event_yields [of E s ctx c ev fd data h] assms run
    have "added c fd data h s r s'" by (auto simp: records_stay_def yields_def)
    with True assms show ?thesis
      by (auto simp: added_def records_stay_def map_le_new split: if_splits)
  next
    case False
    then have "\<not> alloc_ok E \<or> e_ptr E s (Mem (Alloc A_event_data)) = NULL"
      using run by (auto simp: hmp_context_add_event_fd_def calloc_event_data_def ptr_call_def Let_def
        upd_event_data_def load_def Option.bind_eq_Some_conv split: if_splits)
    then have "alloc_ok E \<longrightarrow> s' = ERROR_LOG ''allocate memory error.'' (record_call (Mem (Alloc A_event_data)) s)"
      using run by (auto simp: hmp_context_add_event_fd_def calloc_event_data_def ptr_call_def)
    with assms show ?thesis
      by (cases "alloc_ok E") (simp, simp add: records_stay_def)
  qed
qed

interpretation records: kept E "records_stay E R" for E R
  by unfold_locales (auto intro: records_upd records_alloc records_add_fd records_del simp: upd_curnode_def)

section \<open>Turns\<close>

inductive loop_reaches :: "env \<Rightarrow> ptr \<Rightarrow> sys \<Rightarrow> sys \<Rightarrow> bool" for E ctx where
  entered: "loop_reaches E ctx s s"
| turned: "loop_reaches E ctx s t \<Longrightarrow> context_turn E (call_handler E) ctx t = Some (True, t') \<Longrightarrow>
    loop_reaches E ctx s t'"

lemma loop_reaches_first:
  "context_turn E (call_handler E) ctx s = Some (True, t) \<Longrightarrow> loop_reaches E ctx t t' \<Longrightarrow> loop_reaches E ctx s t'"
  by (rotate_tac, induction rule: loop_reaches.induct) (auto intro: loop_reaches.intros)

context kept
begin

lemma reached: "loop_reaches E ctx s t \<Longrightarrow> I s \<Longrightarrow> I t"
  by (induction rule: loop_reaches.induct) (auto dest: keeps2D [OF context_turn])

end

text \<open>
  Every completion, whatever it brings, leaves all contexts alone.
\<close>

interpretation running: serving E "\<lambda>s. contexts s = C" for E C
  by unfold_locales (auto simp: keeps_def keeps2_def whenever_def upd_trans_def upd_task_def upd_hcq_def
    upd_cm_id_def upd_curnode_def with_mem_def set_connect_trans_def free_hcq_def free_event_data_def
    upd_event_data_def hmp_context_add_event_fd_def epoll_ctl_add_def int_call_def ptr_call_def put_block_def
    malloc_task_def calloc_hcq_def malloc_block_def calloc_event_data_def Let_def Option.bind_eq_Some_conv
    split: if_splits)


section \<open>One batch of events\<close>

text \<open>The calls for a list of registered records, each with what it was registered with.\<close>

fun serve :: "env \<Rightarrow> hmp_event_data list \<Rightarrow> sys \<Rightarrow> sys option" where
  "serve E [] s = Some s"
| "serve E (d # ds) s = do { s \<leftarrow> call_handler E (ed_event_handler d) (ed_fd d) (ed_data d) s; serve E ds s }"

lemma run_events_serve:
  assumes "alloc_ok E" "registry_ok s" "R \<subseteq>\<^sub>m event_datas s" "n \<le> length ps"
    and "NULL \<notin> set (take n ps)" "set (take n ps) \<subseteq> dom R"
  shows "run_events (call_handler E) n ps s = serve E (map (the \<circ> R) (take n ps)) s"
  using assms(2-)
proof (induction n arbitrary: ps s)
  case (Suc n)
  then obtain p qs where ps: "ps = p # qs" by (cases ps) auto
  with Suc.prems obtain d where d: "R p = Some d" "event_datas s p = Some d" "p \<noteq> NULL"
    by (auto simp: map_le_def) (metis domI)
  show ?case
  proof (cases "call_handler E (ed_event_handler d) (ed_fd d) (ed_data d) s")
    case None
    with d ps show ?thesis by simp
  next
    case (Some s')
    have "records_stay E R s'"
      by (rule records.call_handler [THEN keepsD, OF _ Some]) (use Suc.prems in \<open>simp add: records_stay_def\<close>)
    with Suc.IH [of s' qs] Suc.prems ps d Some assms(1) show ?thesis by (simp add: records_stay_def)
  qed
qed simp

lemma serve_frame: "serve E ds s = Some t \<Longrightarrow> frame s0 s \<Longrightarrow> frame s0 t"
  by (induction ds arbitrary: s)
    (auto simp: Option.bind_eq_Some_conv dest: frames.call_handler [THEN keepsD])

text \<open>C15. One turn of the loop calls what was registered. If the kernel keeps to its interface (the
  events it reports are registered with the loop's epoll descriptor, at most as many as the array
  holds), then a turn is exactly the calls of the handlers of these registrations, in the order
  reported, each with the descriptor and the data it was registered with when the turn began,
  also when a handler takes registrations out on the way. The loop goes on unless the stop flag
  of its context is then set, and the context is still there to tell.\<close>

theorem turn_serves_registered:
  assumes "alloc_ok E" "registry_ok s" "ctx \<noteq> NULL" "contexts s ctx = Some c"
    and "e_int E s (Os (Epoll_wait (epfd c))) = n" "n \<le> int (length (take EVENTS_SIZE (e_events E s)))"
    and "\<forall>d \<in> set (take (nat n) (take EVENTS_SIZE (e_events E s))). \<exists>fd. interest s (epfd c, fd) = Some d"
  shows "context_turn E (call_handler E) ctx s =
    map_option (\<lambda>t. (ctx_stop (the (contexts t ctx)) = 0, t))
      (serve E (map (the \<circ> event_datas s) (take (nat n) (take EVENTS_SIZE (e_events E s))))
        (record_call (Os (Epoll_wait (epfd c))) s))"
proof -
  let ?ps = "take EVENTS_SIZE (e_events E s)" and ?s = "record_call (Os (Epoll_wait (epfd c))) s"
  let ?ds = "map (the \<circ> event_datas s) (take (nat n) ?ps)"
  have ok: "registry_ok ?s" using assms(2) by (simp add: registry_ok_def)
  have live: "NULL \<notin> set (take (nat n) ?ps)" "set (take (nat n) ?ps) \<subseteq> dom (event_datas s)"
    using assms(2,7) by (fastforce simp: registry_ok_def)+
  have "run_events (call_handler E) (nat n) ?ps ?s = serve E ?ds ?s"
    by (rule run_events_serve [OF assms(1) ok]) (use assms(6) live in auto)
  then have run: "(if n > 0 then run_events (call_handler E) (nat n) ?ps ?s else Some ?s) = serve E ?ds ?s"
    by (cases "n > 0") simp_all
  have "\<exists>c'. contexts t ctx = Some c'" if "serve E ?ds ?s = Some t" for t
  proof -
    have "frame s t" by (rule serve_frame [OF that]) simp
    with only_stoppedD [of "contexts s" "contexts t", OF _ assms(4)] show ?thesis by (auto simp: frame_def)
  qed
  with run show ?thesis
    using assms(3-5)
    by (cases "serve E ?ds ?s") (auto simp: context_turn_def int_call_def Let_def split: if_splits)
qed

section \<open>The end of the loop\<close>

lemma context_loop_reaches:
  assumes "context_loop E (call_handler E) ctx s = Some s'"
  shows "\<exists>t. loop_reaches E ctx s t \<and> context_turn E (call_handler E) ctx t = Some (False, s')"
proof -
  let ?P = "\<lambda>E D ctx s s'. D = call_handler E \<longrightarrow>
    (\<exists>t. loop_reaches E ctx s t \<and> context_turn E (call_handler E) ctx t = Some (False, s'))"
  have "?P E (call_handler E) ctx s s'"
  proof (rule context_loop.raw_induct [where P = ?P, OF _ assms], rule impI)
    fix lp :: "env \<Rightarrow> dispatch \<Rightarrow> ptr \<Rightarrow> sys \<Rightarrow> sys option" and E D ctx s s'
    assume IH: "\<And>E D ctx s s'. lp E D ctx s = Some s' \<Longrightarrow> ?P E D ctx s s'"
      and "context_turn E D ctx s \<bind> (\<lambda>(go, s). if go then lp E D ctx s else Some s) = Some s'"
      and D: "D = call_handler E"
    then obtain go t where t: "context_turn E (call_handler E) ctx s = Some (go, t)"
        "(if go then lp E D ctx t else Some t) = Some s'"
      by (auto simp: Option.bind_eq_Some_conv)
    show "\<exists>t. loop_reaches E ctx s t \<and> context_turn E (call_handler E) ctx t = Some (False, s')"
    proof (cases go)
      case True
      with t IH [of E D ctx t s'] D show ?thesis by (auto intro: loop_reaches_first)
    next
      case False
      with t show ?thesis by (auto intro: loop_reaches.entered)
    qed
  qed
  then show ?thesis by simp
qed

lemma reaches_context_loop:
  "loop_reaches E ctx s t \<Longrightarrow> context_loop E (call_handler E) ctx s = context_loop E (call_handler E) ctx t"
proof (induction rule: loop_reaches.induct)
  case (turned s t t')
  then show ?case by (simp add: context_loop.simps [of _ _ _ t])
qed simp

lemma context_loop_iff:
  "context_loop E (call_handler E) ctx s = Some s' \<longleftrightarrow>
   (\<exists>t. loop_reaches E ctx s t \<and> context_turn E (call_handler E) ctx t = Some (False, s'))"
  using context_loop_reaches reaches_context_loop
  by (auto simp: context_loop.simps [of _ _ _ t for t])

lemma context_turnE:
  assumes "context_turn E D ctx s = Some (go, t)"
  obtains c c' where "contexts s ctx = Some c" "contexts t ctx = Some c'" "go \<longleftrightarrow> ctx_stop c' = 0"
    and "(let n = e_int E s (Os (Epoll_wait (epfd c))); s' = record_call (Os (Epoll_wait (epfd c))) s
      in if n > 0 then run_events D (nat n) (take EVENTS_SIZE (e_events E s)) s' else Some s') = Some t"
proof -
  from assms obtain c where c: "ctx \<noteq> NULL" "contexts s ctx = Some c"
    by (auto simp: context_turn_def Option.bind_eq_Some_conv load_eq_Some_iff)
  with assms obtain c' where "contexts t ctx = Some c'" "go \<longleftrightarrow> ctx_stop c' = 0"
      "(let n = e_int E s (Os (Epoll_wait (epfd c))); s' = record_call (Os (Epoll_wait (epfd c))) s
        in if n > 0 then run_events D (nat n) (take EVENTS_SIZE (e_events E s)) s' else Some s') = Some t"
    by (auto simp: context_turn_def int_call_def Let_def Option.bind_eq_Some_conv
      load_eq_Some_iff split: if_splits)
  with c show thesis by (intro that [of c c'])
qed

text \<open>While the loop goes on, its context is the one it began with.\<close>

lemma turn_context:
  assumes "context_turn E (call_handler E) ctx s = Some (go, t)" "contexts s ctx = Some c" "ctx_stop c = 0"
  shows "contexts t ctx = Some (if go then c else c\<lparr>ctx_stop := 1\<rparr>)"
proof -
  have "frame s t" using frames.context_turn [THEN keeps2D, OF _ assms(1)] by simp
  with assms(2) have "contexts t ctx = Some c \<or> contexts t ctx = Some (c\<lparr>ctx_stop := 1\<rparr>)"
    by (auto simp: frame_def dest: only_stoppedD)
  moreover from assms(1) obtain c' where "contexts t ctx = Some c'" "go \<longleftrightarrow> ctx_stop c' = 0"
    by (rule context_turnE)
  ultimately show ?thesis using assms(3) by auto
qed

lemma reached_context:
  "loop_reaches E ctx s t \<Longrightarrow> contexts s ctx = Some c \<Longrightarrow> ctx_stop c = 0 \<Longrightarrow> contexts t ctx = Some c"
  by (induction rule: loop_reaches.induct) (auto dest: turn_context)

lemma completions_keep_contexts:
  assumes "run_events (call_handler E) n ps s = Some t" "records_stay E R s" "alloc_ok E"
    and "\<forall>p \<in> set ps. \<exists>d. R p = Some d \<and> ed_event_handler d = CQ_COMP_CHANNEL_HANDLER"
  shows "contexts t = contexts s"
  using assms
proof (induction n arbitrary: ps s)
  case (Suc n)
  then obtain p qs where ps: "ps = p # qs" by (cases ps) auto
  with Suc.prems obtain d where d: "event_datas s p = Some d" "ed_event_handler d = CQ_COMP_CHANNEL_HANDLER"
    by (auto simp: records_stay_def map_le_def) (metis domI)
  from Suc.prems(1) obtain s1 where s1: "call_handler E (ed_event_handler d) (ed_fd d) (ed_data d) s = Some s1"
      "run_events (call_handler E) n qs s1 = Some t"
    using ps d(1) by (auto simp: Option.bind_eq_Some_conv load_eq_Some_iff)
  have "records_stay E R s1" using records.call_handler [THEN keepsD, OF Suc.prems(2) s1(1)] .
  with Suc.IH [OF s1(2)] Suc.prems(3,4) ps have "contexts t = contexts s1" by simp
  also have "\<dots> = contexts s"
    using s1(1) d(2) running.comp_channel_handler [where C = "contexts s" and s = s, THEN keepsD]
    by (simp add: call_handler_def)
  finally show ?case .
qed simp

lemma completion_turn:
  assumes "context_turn E (call_handler E) ctx s = Some (go, t)" "registry_ok s" "alloc_ok E"
    and "\<forall>p \<in> set (e_events E s). \<exists>d. event_datas s p = Some d \<and> ed_event_handler d = CQ_COMP_CHANNEL_HANDLER"
  shows "contexts t = contexts s"
proof -
  from assms(1) obtain c :: hmp_context where "(let n = e_int E s (Os (Epoll_wait (epfd c))); s' = record_call (Os (Epoll_wait (epfd c))) s
      in if n > 0 then run_events (call_handler E) (nat n) (take EVENTS_SIZE (e_events E s)) s' else Some s') = Some t"
    by (rule context_turnE)
  moreover have "records_stay E (event_datas s) (record_call (Os (Epoll_wait (epfd c))) s)"
    using assms(2) by (simp add: records_stay_def registry_ok_def)
  moreover have "\<forall>p \<in> set (take EVENTS_SIZE (e_events E s)). \<exists>d. event_datas s p = Some d \<and>
      ed_event_handler d = CQ_COMP_CHANNEL_HANDLER"
    using assms(4) by (meson in_set_takeD)
  ultimately show ?thesis
    using completions_keep_contexts [OF _ _ assms(3), where R = "event_datas s"]
    by (cases "e_int E s (Os (Epoll_wait (epfd c))) > 0") (fastforce simp: Let_def)+
qed

text \<open>C12. When the event thread ends. The loop has no bound. It returns exactly when some turn
  leaves the stop flag of its own context set, and it returns with that turn; until then the
  context is the one it began with. Completions never set the flag, failed ones included: a loop
  to which only completion channels report runs forever (so \<open>hmp_node_release\<close>, which joins the
  thread, waits forever unless the connection manager has reported an error).\<close>

theorem event_loop_ends:
  assumes "alloc_ok E" "registry_ok s" "contexts s ctx = Some c" "ctx_stop c = 0"
  shows "(\<forall>s'. hmp_context_run E (call_handler E) ctx s = Some s' \<longleftrightarrow>
      (\<exists>t. loop_reaches E ctx (INFO_LOG ''hmp_context_run.'' s) t \<and> contexts t ctx = Some c \<and>
        context_turn E (call_handler E) ctx t = Some (False, s') \<and>
        contexts s' ctx = Some (c\<lparr>ctx_stop := 1\<rparr>))) \<and>
    ((\<forall>t. loop_reaches E ctx (INFO_LOG ''hmp_context_run.'' s) t \<longrightarrow>
        (\<forall>p \<in> set (e_events E t). \<exists>d. event_datas t p = Some d \<and> ed_event_handler d = CQ_COMP_CHANNEL_HANDLER)) \<longrightarrow>
      hmp_context_run E (call_handler E) ctx s = None)"
proof -
  let ?s = "INFO_LOG ''hmp_context_run.'' s"
  have c: "contexts ?s ctx = Some c" and ok: "registry_ok ?s"
    using assms(2,3) by (simp_all add: registry_ok_def)
  have iff: "hmp_context_run E (call_handler E) ctx s = Some s' \<longleftrightarrow>
      (\<exists>t. loop_reaches E ctx ?s t \<and> contexts t ctx = Some c \<and>
        context_turn E (call_handler E) ctx t = Some (False, s') \<and> contexts s' ctx = Some (c\<lparr>ctx_stop := 1\<rparr>))" for s'
    unfolding hmp_context_run_def context_loop_iff
    using reached_context [OF _ c assms(4)] turn_context [OF _ _ assms(4)] by fastforce
  have "hmp_context_run E (call_handler E) ctx s \<noteq> Some s'"
    if quiet: "\<forall>t. loop_reaches E ctx ?s t \<longrightarrow> (\<forall>p \<in> set (e_events E t). \<exists>d. event_datas t p = Some d \<and>
      ed_event_handler d = CQ_COMP_CHANNEL_HANDLER)" for s'
  proof
    assume "hmp_context_run E (call_handler E) ctx s = Some s'"
    with iff obtain t where t: "loop_reaches E ctx ?s t" "contexts t ctx = Some c"
        "context_turn E (call_handler E) ctx t = Some (False, s')" "contexts s' ctx = Some (c\<lparr>ctx_stop := 1\<rparr>)"
      by auto
    have "records_stay E (event_datas ?s) t"
      by (rule records.reached [OF t(1)]) (use ok in \<open>simp add: records_stay_def\<close>)
    with assms(1) have "contexts s' = contexts t"
      using completion_turn [OF t(3) _ assms(1)] quiet t(1) by (simp add: records_stay_def)
    with t(2,4) assms(4) show False by (auto dest: arg_cong [where f = ctx_stop])
  qed
  with iff show ?thesis by (meson not_None_eq)
qed

section \<open>At a concrete node\<close>

text \<open>A kernel that reports one completion channel again and again.\<close>

definition loop_env :: env where
  "loop_env = sample_env\<lparr>e_int := (\<lambda>s c. if c = Os (Epoll_wait 3) then 1 else 0), e_events := (\<lambda>s. [0x300])\<rparr>"

definition loop_sys :: sys where
  "loop_sys = sample_sys\<lparr>event_datas := [0x300 \<mapsto> event_record 7 0x200 CQ_COMP_CHANNEL_HANDLER],
     interest := [(3, 7) \<mapsto> 0x300],
     hcqs := [0x200 \<mapsto> \<lparr>hcq_cq = 0x210, hcq_comp_channel = 0x220, hcq_device = 0x70, hcq_ctx = 0x50\<rparr>]\<rparr>"

lemma loop_env_alloc_ok: "alloc_ok loop_env"
  using sample_env_alloc_ok by (simp add: alloc_ok_def loop_env_def)

lemma loop_sys_registry: "registry_ok loop_sys"
  by (simp add: registry_ok_def loop_sys_def event_record_def split: if_splits)

lemma loop_sys_turn: "\<exists>t. context_turn loop_env (call_handler loop_env) 0x50 loop_sys = Some (True, t)"
  by (simp add: context_turn_def loop_env_def loop_sys_def sample_env_def sample_sys_def int_call_def
    EVENTS_SIZE_def event_record_def call_handler_def hmp_cq_comp_channel_handler_def poll_loop_def)


theorem turn_serves_registered_witness:
  "context_turn loop_env (call_handler loop_env) 0x50 loop_sys =
    map_option (\<lambda>t. (ctx_stop (the (contexts t 0x50)) = 0, t))
      (serve loop_env [event_record 7 0x200 CQ_COMP_CHANNEL_HANDLER] (record_call (Os (Epoll_wait 3)) loop_sys))"
  using turn_serves_registered [OF loop_env_alloc_ok loop_sys_registry, of "0x50"
    "\<lparr>epfd = 3, ctx_stop = 0, epoll_thread = 1\<rparr>" 1]
  by (simp add: loop_env_def loop_sys_def sample_sys_def EVENTS_SIZE_def)

theorem event_loop_ends_witness: "hmp_context_run loop_env (call_handler loop_env) 0x50 loop_sys = None"
proof -
  let ?s = "INFO_LOG ''hmp_context_run.'' loop_sys"
  have "\<exists>d. event_datas t p = Some d \<and> ed_event_handler d = CQ_COMP_CHANNEL_HANDLER"
    if "loop_reaches loop_env 0x50 ?s t" "p \<in> set (e_events loop_env t)" for t p
  proof -
    have "records_stay loop_env (event_datas ?s) t"
      by (rule records.reached [OF that(1)])
        (use loop_sys_registry in \<open>simp add: records_stay_def registry_ok_def\<close>)
    with loop_env_alloc_ok have "event_datas t 0x300 = Some (event_record 7 0x200 CQ_COMP_CHANNEL_HANDLER)"
      by (auto simp: records_stay_def map_le_def loop_sys_def)
    with that(2) show ?thesis by (simp add: loop_env_def event_record_def)
  qed
  then show ?thesis
    using event_loop_ends [OF loop_env_alloc_ok loop_sys_registry, of "0x50"
      "\<lparr>epfd = 3, ctx_stop = 0, epoll_thread = 1\<rparr>"]
    by (simp add: loop_sys_def sample_sys_def)
qed

end
