(* ===== verification/Qp_Props.thy ===== *)
theory Qp_Props
  imports Queue_Props
begin

text \<open>
  Queue pairs: what \<open>hmp_qp_create\<close> of \<open>hmp_transport.c\<close> leaves behind on every path, and what
  \<open>hmp_qp_release\<close> takes back.
\<close>

section \<open>Creation\<close>

text \<open>A transport that is ready for its queue pair.\<close>

definition bound :: "sys \<Rightarrow> ptr \<Rightarrow> hmp_transport \<Rightarrow> hmp_context \<Rightarrow> bool" where
  "bound s p t c \<longleftrightarrow> p \<noteq> NULL \<and> transports s p = Some t \<and> trans_device t \<noteq> NULL \<and>
     trans_device t \<in> dom (devices s) \<and> trans_ctx t \<noteq> NULL \<and> contexts s (trans_ctx t) = Some c \<and>
     trans_cm_id t \<noteq> NULL \<and> trans_cm_id t \<in> dom (cm_ids s)"

text \<open>The outcomes: a queue pair, nothing, or a registration of a queue that is gone.\<close>

definition qp_made :: "hmp_context \<Rightarrow> ptr \<Rightarrow> hmp_transport \<Rightarrow> sys \<Rightarrow> sys \<Rightarrow> bool" where
  "qp_made c p t s s' \<longleftrightarrow> (\<exists>q qp u i. cq_made c (trans_ctx t) (trans_device t) s (q, u) \<and>
     hcqs s' = hcqs u \<and> chan_fds s' = chan_fds u \<and> interest s' = interest u \<and> event_datas s' = event_datas u \<and>
     contexts s' = contexts s \<and> devices s' = devices s \<and> cm_ids s (trans_cm_id t) = Some i \<and>
     cm_ids s' = (cm_ids s)(trans_cm_id t \<mapsto> i\<lparr>id_qp := qp\<rparr>) \<and>
     transports s' = (transports s)(p \<mapsto> t\<lparr>trans_qp := qp, trans_hcq := q\<rparr>))"

definition qp_undone :: "sys \<Rightarrow> sys \<Rightarrow> bool" where
  "qp_undone s s' \<longleftrightarrow> transports s' = transports s \<and> cm_ids s' = cm_ids s \<and> hcqs s' = hcqs s \<and>
     chan_fds s' = chan_fds s \<and> interest s' = interest s"

definition qp_dangling :: "hmp_context \<Rightarrow> sys \<Rightarrow> sys \<Rightarrow> bool" where
  "qp_dangling c s s' \<longleftrightarrow> transports s' = transports s \<and> cm_ids s' = cm_ids s \<and> hcqs s' = hcqs s \<and>
     (\<exists>q chan fd d. q \<noteq> NULL \<and> hcqs s' q = None \<and> chan_fds s' = (chan_fds s)(chan \<mapsto> fd) \<and>
       interest s' = (interest s)((epfd c, fd) \<mapsto> d) \<and>
       event_datas s' d = Some (event_record fd q CQ_COMP_CHANNEL_HANDLER) \<and>
       (\<forall>E. call_handler E CQ_COMP_CHANNEL_HANDLER fd q s' = None))"

lemma handler_faults: "hcqs s q = None \<Longrightarrow> call_handler E CQ_COMP_CHANNEL_HANDLER fd q s = None"
  by (simp add: call_handler_def hmp_cq_comp_channel_handler_def load_def)

lemma qp_madeI:
  assumes "cq_made c (trans_ctx t) (trans_device t) s (q, u)" "cm_ids s (trans_cm_id t) = Some i"
    and "hcqs s' = hcqs u" "chan_fds s' = chan_fds u" "interest s' = interest u" "event_datas s' = event_datas u"
    and "contexts s' = contexts s" "devices s' = devices s"
    and "cm_ids s' = (cm_ids s)(trans_cm_id t \<mapsto> i\<lparr>id_qp := qp\<rparr>)"
    and "transports s' = (transports s)(p \<mapsto> t\<lparr>trans_qp := qp, trans_hcq := q\<rparr>)"
  shows "qp_made c p t s s'"
  unfolding qp_made_def using assms by blast

lemma qp_danglingI:
  assumes "cq_made c ctx dev s (q, u)" "transports s' = transports s" "cm_ids s' = cm_ids s" "hcqs s' = hcqs s"
    and "chan_fds s' = chan_fds u" "interest s' = interest u" "event_datas s' = event_datas u"
  shows "qp_dangling c s s'"
proof -
  from assms(1) obtain chan fd d where q: "q \<noteq> NULL" "hcqs s q = None"
      "chan_fds u = (chan_fds s)(chan \<mapsto> fd)" "interest u = (interest s)((epfd c, fd) \<mapsto> d)"
      "event_datas u d = Some (event_record fd q CQ_COMP_CHANNEL_HANDLER)"
    by (auto simp: cq_made_def)
  with assms have "\<forall>E. call_handler E CQ_COMP_CHANNEL_HANDLER fd q s' = None"
    by (simp add: handler_faults)
  with assms q show ?thesis
    unfolding qp_dangling_def by metis
qed

lemma rdma_create_qp_run:
  "i \<noteq> NULL \<Longrightarrow> cm_ids s i = Some v \<Longrightarrow> rdma_create_qp E i pd a s =
    (let r = e_int E s (Cm (Create_qp i pd a)); s' = record_call (Cm (Create_qp i pd a)) s
     in Some (r, if r = 0 then s'\<lparr>cm_ids := (cm_ids s)(i \<mapsto> v\<lparr>id_qp := e_ptr E s (Cm (Create_qp i pd a))\<rparr>)\<rparr> else s'))"
  by (simp add: rdma_create_qp_def int_call_def upd_defs Let_def)

lemma cq_only_fields:
  assumes "cq_only s s'"
  shows "transports s' = transports s" "devices s' = devices s" "contexts s' = contexts s" "cm_ids s' = cm_ids s"
  using assms by (auto simp: cq_only_def)

lemma qp_create_yields:
  assumes "alloc_ok E" "channel_ok E" "registry_ok s" "bound s p t c"
  shows "yields (hmp_qp_create E p s) (\<lambda>(r, s'). registry_ok s' \<and>
    (if r = 0 then qp_made c p t s s' else qp_undone s s' \<or> qp_dangling c s s'))"
proof -
  from assms(4) obtain v i where b: "p \<noteq> NULL" "transports s p = Some t" "trans_device t \<noteq> NULL"
      "devices s (trans_device t) = Some v" "trans_ctx t \<noteq> NULL" "contexts s (trans_ctx t) = Some c"
      "trans_cm_id t \<noteq> NULL" "cm_ids s (trans_cm_id t) = Some i"
    by (auto simp: bound_def)
  have get: "yields (hmp_cq_get E (trans_device t) (trans_ctx t) s)
      (\<lambda>r. cq_made c (trans_ctx t) (trans_device t) s r \<or> cq_undone s r)"
    by (rule cq_get_yields [OF assms(1-3) b(3-6)])
  let ?Q = "\<lambda>(r, s'). registry_ok s' \<and> (if r = 0 then qp_made c p t s s' else qp_undone s s' \<or> qp_dangling c s s')"
  have "yields (hmp_cq_get E (trans_device t) (trans_ctx t) s \<bind> (\<lambda>(hcq, s).
      if hcq = NULL then Some (- 1, ERROR_LOG ''hmr cq get error.'' s)
      else do {
        h \<leftarrow> load (hcqs s) hcq;
        d \<leftarrow> load (devices s) (trans_device t);
        (retval, s) \<leftarrow> rdma_create_qp E (trans_cm_id t) (dev_pd d) (qp_attr p (hcq_cq h) d) s;
        if retval \<noteq> 0 then do { s \<leftarrow> free_hcq hcq (ERROR_LOG ''rdma create qp error.'' s); Some (retval, s) }
        else do {
          i \<leftarrow> load (cm_ids s) (trans_cm_id t);
          s \<leftarrow> upd_trans (\<lambda>t. t\<lparr>trans_qp := id_qp i\<rparr>) p s;
          s \<leftarrow> upd_trans (\<lambda>t. t\<lparr>trans_hcq := hcq\<rparr>) p s;
          Some (retval, s) } })) ?Q"
    unfolding yields_bind
  proof (rule yields_mono [OF get], clarify)
    fix q u assume "cq_made c (trans_ctx t) (trans_device t) s (q, u) \<or> cq_undone s (q, u)"
    then show "yields (if q = NULL then Some (- 1, ERROR_LOG ''hmr cq get error.'' u)
        else do {
          h \<leftarrow> load (hcqs u) q;
          d \<leftarrow> load (devices u) (trans_device t);
          (retval, s) \<leftarrow> rdma_create_qp E (trans_cm_id t) (dev_pd d) (qp_attr p (hcq_cq h) d) u;
          if retval \<noteq> 0 then do { s \<leftarrow> free_hcq q (ERROR_LOG ''rdma create qp error.'' s); Some (retval, s) }
          else do {
            i \<leftarrow> load (cm_ids s) (trans_cm_id t);
            s \<leftarrow> upd_trans (\<lambda>t. t\<lparr>trans_qp := id_qp i\<rparr>) p s;
            s \<leftarrow> upd_trans (\<lambda>t. t\<lparr>trans_hcq := q\<rparr>) p s;
            Some (retval, s) } }) ?Q"
    proof
      assume "cq_undone s (q, u)"
      then show ?thesis
        by (auto simp: vc cq_undone_def qp_undone_def registry_ok_def dest: cq_only_fields)
    next
      assume made: "cq_made c (trans_ctx t) (trans_device t) s (q, u)"
      then have only: "cq_only s u" and q: "q \<noteq> NULL" "hcqs s q = None" and ok: "registry_ok u"
        by (simp_all add: cq_made_def)
      note f = cq_only_fields [OF only]
      from made obtain h where h: "hcqs u = (hcqs s)(q \<mapsto> h)" by (auto simp: cq_made_def)
      have gone: "(hcqs s)(q := None) = hcqs s" using q(2) by auto
      let ?call = "Cm (Create_qp (trans_cm_id t) (dev_pd v) (qp_attr p (hcq_cq h) v))"
      show ?thesis
      proof (cases "e_int E u ?call = 0")
        case True
        with q h f b ok show ?thesis
          by (simp add: vc rdma_create_qp_run Let_def registry_ok_def)
            (rule qp_madeI [OF made b(8)]; simp)
      next
        case False
        have "qp_dangling c s (record_call (Mem (Free q)) ((ERROR_LOG ''rdma create qp error.'' (record_call ?call u))\<lparr>hcqs := hcqs s\<rparr>))"
          by (rule qp_danglingI [OF made]) (use f in simp_all)
        with False q h f b ok gone show ?thesis
          by (simp add: vc rdma_create_qp_run Let_def registry_ok_def)
      qed
    qed
  qed
  with b show ?thesis by (simp add: hmp_qp_create_def)
qed


section \<open>Release\<close>

text \<open>C11. The life of a queue pair. After a successful \<open>hmp_qp_create\<close>, \<open>hmp_qp_release\<close> destroys the
  library's queue pair and completion queue, takes the registration out and frees the completion
  queue: queues and registrations are those from before. Two things stay: the completion channel,
  and the transport's pointer to the queue pair that is gone, so that a second release faults.\<close>

theorem qp_lifecycle:
  assumes "alloc_ok E" "channel_ok E" "registry_ok s" "bound s p t c"
    and "hmp_qp_create E p s = Some (0, s1)" "transports s1 p = Some t1" "trans_qp t1 \<noteq> NULL"
  shows "\<exists>s2. hmp_qp_release E p s1 = Some s2 \<and> registry_ok s2 \<and>
    hcqs s1 \<noteq> hcqs s \<and> hcqs s2 = hcqs s \<and> interest s1 \<noteq> interest s \<and> interest s2 = interest s \<and>
    Verbs (Destroy_qp (trans_qp t1)) \<in> set (calls s2) \<and>
    (\<exists>h. hcqs s1 (trans_hcq t1) = Some h \<and> Verbs (Destroy_cq (hcq_cq h)) \<in> set (calls s2)) \<and>
    (\<exists>chan fd. chan_fds s chan = None \<and> chan_fds s2 = (chan_fds s)(chan \<mapsto> fd)) \<and>
    transports s2 = (transports s)(p \<mapsto> t\<lparr>trans_qp := trans_qp t1, trans_hcq := NULL\<rparr>) \<and>
    hmp_qp_release E p s2 = None"
proof -
  from qp_create_yields [OF assms(1-4)] assms(5) have ok: "registry_ok s1" and m: "qp_made c p t s s1"
    by (auto simp: yields_def)
  from m assms(6) obtain q u qp where q: "cq_made c (trans_ctx t) (trans_device t) s (q, u)" "hcqs s1 = hcqs u"
      "chan_fds s1 = chan_fds u" "interest s1 = interest u" "event_datas s1 = event_datas u" "contexts s1 = contexts s"
      "t1 = t\<lparr>trans_qp := qp, trans_hcq := q\<rparr>" "transports s1 = (transports s)(p \<mapsto> t1)"
    by (auto simp: qp_made_def)
  from q(1-5) obtain chan cq fd d where cq: "q \<noteq> NULL" "hcqs s q = None" "chan \<noteq> NULL" "chan_fds s chan = None"
      "hcqs s1 = (hcqs s)(q \<mapsto> \<lparr>hcq_cq = cq, hcq_comp_channel = chan, hcq_device = trans_device t, hcq_ctx = trans_ctx t\<rparr>)"
      "chan_fds s1 = (chan_fds s)(chan \<mapsto> fd)" "interest s (epfd c, fd) = None"
      "interest s1 = (interest s)((epfd c, fd) \<mapsto> d)"
    by (auto simp: cq_made_def)
  have c: "trans_ctx t \<noteq> NULL" "contexts s1 (trans_ctx t) = Some c" and p: "p \<noteq> NULL"
    using assms(4) q(6) by (auto simp: bound_def)
  let ?s = "record_call (Verbs (Destroy_cq cq)) (record_call (Verbs (Destroy_qp qp)) s1)"
  have ok': "registry_ok ?s" using ok by (simp add: registry_ok_def)
  have c': "contexts ?s (trans_ctx t) = Some c" using c by simp
  have del: "e_int E ?s (Os (Epoll_del (epfd c) fd)) = 0"
    using assms(2) cq(8) by (simp add: channel_ok_def Let_def)
  have undo: "(hcqs s)(q := None) = hcqs s" "(interest s)((epfd c, fd) := None) = interest s"
    using cq(2,7) by auto
  let ?t = "(record_call (Os (Epoll_del (epfd c) fd)) ?s)\<lparr>interest := interest s\<rparr>"
  let ?v = "t\<lparr>trans_qp := qp, trans_hcq := NULL\<rparr>"
  let ?s2 = "(record_call (Mem (Free q)) (?t\<lparr>hcqs := hcqs s\<rparr>))\<lparr>transports := (transports s)(p \<mapsto> ?v)\<rparr>"
  have "hmp_context_del_event_fd E (trans_ctx t) fd ?s = Some (0, ?t)"
    using c' c(1) del cq(8) undo(2)
    by (simp add: hmp_context_del_event_fd_def epoll_ctl_del_def int_call_def Let_def)
  moreover have t1: "trans_hcq t1 = q" "trans_ctx t1 = trans_ctx t" "trans_qp t1 = qp" using q(7) by simp_all
  ultimately have run: "hmp_qp_release E p s1 = Some ?s2"
    using p assms(7) q(7,8) cq(1,3,5,6) undo(1)
    by (simp add: hmp_qp_release_def free_defs upd_defs)
  moreover have "registry_ok ?s2"
    by (rule registry_ok_sub [OF ok]) (use cq(7,8) in \<open>auto simp: map_le_def\<close>)
  moreover have "hmp_qp_release E p ?s2 = None"
    using p assms(7) t1(3) by (simp add: hmp_qp_release_def)
  moreover have "hcqs s1 \<noteq> hcqs s" "interest s1 \<noteq> interest s"
    using cq(2,5,7,8) by (metis fun_upd_same option.distinct(1))+
  ultimately show ?thesis
    using cq t1 by (intro exI [of _ ?s2]) auto
qed

section \<open>At a concrete node\<close>

definition qp_sys :: sys where
  "qp_sys = sample_sys\<lparr>transports := [0x60 \<mapsto> zero_transport\<lparr>trans_device := 0x70, trans_ctx := 0x50, trans_cm_id := 0x400\<rparr>],
     cm_ids := [0x400 \<mapsto> \<lparr>id_verbs = 0x80, id_context = 0x60, id_qp = NULL,
       id_src_sin = zero_sockaddr, id_dst_sin = zero_sockaddr\<rparr>]\<rparr>"

definition sample_context :: hmp_context where
  "sample_context = \<lparr>epfd = 3, ctx_stop = 0, epoll_thread = 1\<rparr>"

lemma qp_sys_bound: "bound qp_sys 0x60 (the (transports qp_sys 0x60)) sample_context"
  by (simp add: bound_def qp_sys_def sample_sys_def sample_context_def)

lemma qp_sys_registry: "registry_ok qp_sys"
  by (simp add: registry_ok_def qp_sys_def sample_sys_def)


lemma channel_env_calls:
  "e_int channel_env s c = 0" "e_ptr channel_env s (Mem (Alloc k)) = sample_alloc s k"
  "e_ptr channel_env s (Verbs (Create_cq a b d e)) = sample_place s"
  "e_ptr channel_env s (Cm (Create_qp f g h)) = sample_place s"
  "e_ptr channel_env s (Verbs (Create_comp_channel v)) =
     (if chan_fds s (sample_place s) = None \<and> interest s = Map.empty then sample_place s else NULL)"
  by (simp_all add: channel_env_def sample_env_def)

lemma qp_sys_created:
  "\<exists>s1 t1. hmp_qp_create channel_env 0x60 qp_sys = Some (0, s1) \<and> transports s1 0x60 = Some t1 \<and> trans_qp t1 \<noteq> NULL"
  unfolding hmp_qp_create_def hmp_cq_get_def calloc_hcq_def
  by (simp add: qp_sys_def sample_sys_def ptr_call_def int_call_def record_call_def channel_env_calls
    sample_alloc_def sample_place_def unused_block_def unused_def span_def upd_defs
    ibv_create_comp_channel_def set_nonblock_def hmp_context_add_event_fd_def calloc_event_data_def
    upd_event_data_def epoll_ctl_add_def rdma_create_qp_def INFO_LOG_eq Let_def)

theorem qp_lifecycle_witness:
  "\<exists>s1 s2. hmp_qp_create channel_env 0x60 qp_sys = Some (0, s1) \<and> hmp_qp_release channel_env 0x60 s1 = Some s2 \<and>
     hcqs s2 = hcqs qp_sys \<and> hcqs s1 \<noteq> hcqs s2 \<and> hmp_qp_release channel_env 0x60 s2 = None"
proof -
  obtain s1 t1 where s1: "hmp_qp_create channel_env 0x60 qp_sys = Some (0, s1)" "transports s1 0x60 = Some t1"
      "trans_qp t1 \<noteq> NULL"
    using qp_sys_created by blast
  from qp_lifecycle [OF channel_env_alloc_ok channel_env_ok qp_sys_registry qp_sys_bound s1] s1(1)
  show ?thesis by auto
qed

end
