(* ===== verification/Node_Props.thy ===== *)
theory Node_Props
  imports Hmp_Node Loop_Props Device_Props Hash_Ring Hmp_Mem_Props Task_Props Hmp_Config_Props
begin

text \<open>
  The start of a node: what \<open>hmp_node_init\<close> of \<open>hmp_node.c\<close> has built when it returns, from the
  ring and the device list to the transports of the connections, and how it can end otherwise.
\<close>

section \<open>Total runs with a frame\<close>

lemma yields_keeps:
  "yields m Q \<Longrightarrow> keeps I m \<Longrightarrow> yields m (\<lambda>s. Q s \<and> I s)"
  "yields n R \<Longrightarrow> keeps2 I n \<Longrightarrow> yields n (\<lambda>(r, s). R (r, s) \<and> I s)"
  by (auto simp: yields_def keeps_def keeps2_def whenever_def)

section \<open>Contexts and transports\<close>

definition context_only :: "sys \<Rightarrow> sys \<Rightarrow> bool" where
  "context_only s s' \<longleftrightarrow> s' = s\<lparr>contexts := contexts s', calls := calls s', log := log s'\<rparr>"

lemma context_only_same:
  "context_only s s' \<Longrightarrow> links s' = links s \<and> hash_nodes s' = hash_nodes s \<and> curnode s' = curnode s \<and> devices s' = devices s \<and> links s' = links s \<and>
   registry_ok s' = registry_ok s"
  by (cases s, cases s', simp add: context_only_def registry_ok_def)

lemma context_create_yields:
  assumes "alloc_ok E"
  shows "yields (hmp_context_create E s) (\<lambda>(p, s'). context_only s s' \<and>
    (if p = NULL then contexts s' = contexts s
     else contexts s p = None \<and> map_option ctx_stop (contexts s' p) = Some 0 \<and>
       contexts s' = (contexts s)(p := contexts s' p)))"
  unfolding hmp_context_create_def Let_def
  apply (rule calloc_context_vc [OF assms])
  subgoal by (simp add: vc record_call_def ERROR_LOG_eq context_only_def)
  subgoal for p
    by (auto simp: vc int_call_def unused_def zero_context_def cleanctx_def cleanepfd_def record_call_def
      ERROR_LOG_eq INFO_LOG_eq context_only_def fun_upd_idem)
  done

text \<open>A transport as \<open>hmp_transport_create\<close> leaves it.\<close>

definition new_trans :: "ptr \<Rightarrow> ptr \<Rightarrow> ptr \<Rightarrow> hmp_transport" where
  "new_trans n ctx ec = zero_transport\<lparr>trans_state := HMP_TRANSPORT_STATE_INIT, trans_ctx := ctx,
     nodeptr := n, event_channel := ec\<rparr>"

lemma event_channel_yields:
  assumes "alloc_ok E" "registry_ok s" "p \<noteq> NULL" "transports s p = Some t" "trans_ctx t \<noteq> NULL"
    and "contexts s (trans_ctx t) = Some c"
  shows "yields (hmp_event_channel_create E p s) (\<lambda>(r, s'). \<exists>ec. transports s' = (transports s)(p \<mapsto> t\<lparr>event_channel := ec\<rparr>))"
proof -
  obtain ec s1 where ec: "rdma_create_event_channel E s = (ec, s1)"
    by (cases "rdma_create_event_channel E s")
  then have s1: "transports s1 = transports s" "contexts s1 = contexts s" "interest s1 = interest s"
      "event_datas s1 = event_datas s" "ec \<noteq> NULL \<Longrightarrow> chan_fds s1 ec \<noteq> None"
    by (auto simp: rdma_create_event_channel_def ptr_call_def Let_def split: if_splits)
  let ?s2 = "s1\<lparr>transports := (transports s1)(p \<mapsto> t\<lparr>event_channel := ec\<rparr>)\<rparr>"
  show ?thesis
  proof (cases "ec = NULL")
    case True
    with ec s1 assms show ?thesis
      by (auto simp: vc hmp_event_channel_create_def)
  next
    case False
    then obtain fd where fd: "chan_fds s1 ec = Some fd" using s1(5) by blast
    obtain flags cs where nb: "set_nonblock E fd ?s2 = (flags, ?s2\<lparr>calls := cs\<rparr>)"
      using set_nonblock_calls by blast
    let ?s3 = "?s2\<lparr>calls := cs\<rparr>"
    have "yields (hmp_context_add_event_fd E (trans_ctx t) EPOLLIN fd ec EVENT_CHANNEL_HANDLER ?s3)
        (\<lambda>(r, s'). transports s' = transports ?s3)"
    proof (rule yields_mono [OF add_event_yields [OF assms(1) _ assms(5), where c = c]])
      show "registry_ok ?s3" using assms(2) s1 registry_ok_cong [of ?s3 s] by simp
    qed (use s1 assms(6) in \<open>auto simp: added_def dest: registry_only_fields\<close>)
    moreover have "hmp_event_channel_create E p s = (if flags = - 1
        then cleanec p (- 1) (ERROR_LOG ''set event channel nonblock error.'' ?s3)
        else hmp_context_add_event_fd E (trans_ctx t) EPOLLIN fd ec EVENT_CHANNEL_HANDLER ?s3 \<bind> (\<lambda>(_, s). Some (0, s)))"
      using False ec s1(1) assms(3,4) fd nb by (simp add: hmp_event_channel_create_def upd_defs)
    moreover have "yields (cleanec p (- 1) (ERROR_LOG ''set event channel nonblock error.'' ?s3))
        (\<lambda>(r, s'). transports s' = transports ?s3)"
      using assms(3) by (simp add: vc cleanec_def rdma_destroy_event_channel_def)
    ultimately have "yields (hmp_event_channel_create E p s) (\<lambda>(r, s'). transports s' = transports ?s3)"
      by (auto simp: yields_def)
    then show ?thesis by (rule yields_mono) (use s1(1) in auto)
  qed
qed

lemma transport_create_yields:
  assumes "alloc_ok E" "registry_ok s" "ctx \<noteq> NULL" "contexts s ctx = Some c"
  shows "yields (hmp_transport_create E n ctx s) (\<lambda>(p, s'). if p = NULL then transports s' = transports s
    else transports s p = None \<and> (\<exists>ec. transports s' = (transports s)(p \<mapsto> new_trans n ctx ec)))"
  unfolding hmp_transport_create_def Let_def
proof (rule calloc_transport_vc [OF assms(1)], goal_cases)
  case 1
  then show ?case by (simp add: vc)
next
  case (2 p)
  let ?t = "zero_transport\<lparr>trans_state := HMP_TRANSPORT_STATE_INIT, trans_ctx := ctx, nodeptr := n\<rparr>"
  let ?s = "(record_call (Mem (Alloc A_transport)) s)\<lparr>transports := (transports s)(p \<mapsto> ?t)\<rparr>"
  have new: "transports s p = None" using 2 by (simp add: unused_def)
  then have undo: "(transports s)(p := None) = transports s" by auto
  have "registry_ok ?s" using assms(2) registry_ok_cong [of ?s s] by simp
  from event_channel_yields [OF assms(1) this 2(1), of ?t c] assms(3,4)
  have ec: "yields (hmp_event_channel_create E p ?s) (\<lambda>(r, s'). \<exists>ec. transports s' = (transports s)(p \<mapsto> ?t\<lparr>event_channel := ec\<rparr>))"
    by simp
  show ?case
    using 2(1) new
    apply (simp add: vc)
    apply (rule yields_mono [OF ec])
    apply (auto simp: vc undo new_trans_def)
    done
qed

text \<open>The documented behaviour of \<open>rdma_create_id\<close>: an identifier on success.\<close>

definition cm_ok :: "env \<Rightarrow> bool" where
  "cm_ok E \<longleftrightarrow> (\<forall>s ch p. e_int E s (Cm (Create_id ch p)) = 0 \<longrightarrow> e_ptr E s (Cm (Create_id ch p)) \<noteq> NULL)"

text \<open>What listening and connecting may change of a transport.\<close>

definition moved_to :: "hmp_transport_state \<Rightarrow> hmp_transport \<Rightarrow> hmp_transport \<Rightarrow> bool" where
  "moved_to st t t' \<longleftrightarrow> trans_state t' \<in> {trans_state t, st} \<and>
     t' = t\<lparr>trans_cm_id := trans_cm_id t', peer_addr := peer_addr t', trans_state := trans_state t'\<rparr>"

definition moves :: "hmp_transport_state \<Rightarrow> ptr \<Rightarrow> sys \<Rightarrow> sys \<Rightarrow> bool" where
  "moves st p s s' \<longleftrightarrow> transports s' = (transports s)(p := transports s' p) \<and>
     (\<exists>t t'. transports s p = Some t \<and> transports s' p = Some t' \<and> moved_to st t t')"

lemma moved_to_fields:
  "moved_to st t t' \<Longrightarrow> trans_node_id t' = trans_node_id t \<and> nodeptr t' = nodeptr t \<and> trans_ctx t' = trans_ctx t \<and>
   trans_device t' = trans_device t \<and> region t' = region t \<and> trans_state t' \<in> {trans_state t, st}"
  by (cases t, cases t') (simp add: moved_to_def)

lemma create_id_run:
  assumes "cm_ok E" "p \<noteq> NULL" "transports s p = Some t"
  shows "\<exists>r s'. rdma_create_id E ch p s = Some (r, s') \<and> (if r = 0 then \<exists>i. i \<noteq> NULL \<and> cm_ids s' i \<noteq> None \<and>
      transports s' = (transports s)(p \<mapsto> t\<lparr>trans_cm_id := i\<rparr>) else transports s' = transports s)"
  using assms
  by (cases "e_int E s (Cm (Create_id ch p)) = 0")
    (auto simp: rdma_create_id_def int_call_def upd_defs cm_ok_def Let_def)

lemma moves_same: "transports s' = transports s \<Longrightarrow> transports s p = Some t \<Longrightarrow> moves st p s s'"
  by (simp add: moves_def moved_to_def fun_upd_idem)

lemma listen_yields:
  assumes "cm_ok E" "p \<noteq> NULL" "transports s p = Some t"
  shows "yields (hmp_transport_listen E p port s) (\<lambda>(r, s'). moves HMP_TRANSPORT_STATE_LISTEN p s s')"
proof -
  obtain r s1 where c: "rdma_create_id E (event_channel t) p s = Some (r, s1)" and
    s1: "if r = 0 then \<exists>i. i \<noteq> NULL \<and> cm_ids s1 i \<noteq> None \<and> transports s1 = (transports s)(p \<mapsto> t\<lparr>trans_cm_id := i\<rparr>)
      else transports s1 = transports s"
    using create_id_run [OF assms] by blast
  show ?thesis
  proof (cases "r = 0")
    case False
    with c s1 assms show ?thesis
      by (simp add: vc hmp_transport_listen_def moves_same)
  next
    case True
    with s1 obtain i v where i: "i \<noteq> NULL" "cm_ids s1 i = Some v" "transports s1 = (transports s)(p \<mapsto> t\<lparr>trans_cm_id := i\<rparr>)"
      by auto
    with c True assms show ?thesis
      by (simp add: vc hmp_transport_listen_def int_call_def cleanid_def rdma_destroy_id_def Let_def
        moves_def moved_to_def)
  qed
qed

lemma port_uri_run:
  assumes "p \<noteq> NULL" "transports s p = Some t"
  shows "\<exists>r s' a. hmp_port_uri_init E p url port s = Some (r, s') \<and>
    transports s' = (transports s)(p \<mapsto> t\<lparr>peer_addr := a\<rparr>)"
proof (cases "e_int E s (Os (Inet_pton url)) \<le> 0")
  case True
  with assms show ?thesis
    by (auto simp: hmp_port_uri_init_def int_call_def fun_upd_idem intro!: exI [of _ "peer_addr t"])
next
  case False
  with assms show ?thesis
    by (auto simp: hmp_port_uri_init_def int_call_def upd_defs)
qed

lemma connect_yields:
  assumes "cm_ok E" "p \<noteq> NULL" "transports s p = Some t"
  shows "yields (hmp_transport_connect E p url port s) (\<lambda>(r, s'). moves HMP_TRANSPORT_STATE_CONNECTING p s s')"
proof -
  obtain r s1 a where u: "hmp_port_uri_init E p url port s = Some (r, s1)"
      "transports s1 = (transports s)(p \<mapsto> t\<lparr>peer_addr := a\<rparr>)"
    using port_uri_run [OF assms(2,3)] by blast
  let ?t = "t\<lparr>peer_addr := a\<rparr>"
  have t1: "transports s1 p = Some ?t" using u(2) by simp
  obtain r2 s2 where c: "rdma_create_id E (event_channel t) p s1 = Some (r2, s2)" and
    s2: "if r2 = 0 then \<exists>i. i \<noteq> NULL \<and> cm_ids s2 i \<noteq> None \<and> transports s2 = (transports s1)(p \<mapsto> ?t\<lparr>trans_cm_id := i\<rparr>)
      else transports s2 = transports s1"
    using create_id_run [OF assms(1,2) t1] by blast
  show ?thesis
  proof (cases "r2 = 0")
    case False
    with u c s2 assms show ?thesis
      by (simp add: vc hmp_transport_connect_def moves_def moved_to_def fun_upd_idem)
  next
    case True
    with s2 obtain i v where i: "i \<noteq> NULL" "cm_ids s2 i = Some v" "transports s2 = (transports s1)(p \<mapsto> ?t\<lparr>trans_cm_id := i\<rparr>)"
      by auto
    with u c True assms show ?thesis
      by (simp add: vc hmp_transport_connect_def int_call_def cleanid_def rdma_destroy_id_def Let_def
        moves_def moved_to_def fun_upd_idem)
  qed
qed

section \<open>What making transports leaves alone\<close>

definition rest_of :: "sys \<Rightarrow> hmp_node \<times> hmp_context heap \<times> hmp_device heap \<times> list_head heap \<times>
    hmp_mempool heap \<times> ibv_mr heap \<times> hmp_hash_node heap" where
  "rest_of s = (curnode s, contexts s, devices s, links s, mempools s, mrs s, hash_nodes s)"

interpretation rest: starting E "\<lambda>s. rest_of s = v" for E v
  by unfold_locales (auto simp: rest_of_def keeps_def keeps2_def whenever_def upd_trans_def upd_task_def upd_hcq_def
    upd_cm_id_def with_mem_def free_hcq_def free_event_data_def free_transport_def
    upd_event_data_def hmp_context_add_event_fd_def epoll_ctl_add_def int_call_def ptr_call_def put_block_def
    malloc_task_def calloc_hcq_def malloc_block_def calloc_event_data_def calloc_transport_def Let_def
    Option.bind_eq_Some_conv split: if_splits)

text \<open>The registry, as an invariant of the same operations.\<close>

lemma registry_kept: "alloc_ok E \<Longrightarrow> records_stay E Map.empty s = registry_ok s"
  by (simp add: records_stay_def)

lemma steady:
  assumes "yields m Q" "keeps2 (\<lambda>t. rest_of t = rest_of s) m" "keeps2 (records_stay E Map.empty) m" "alloc_ok E"
  shows "yields m (\<lambda>(r, s'). Q (r, s') \<and> rest_of s' = rest_of s \<and> registry_ok s')"
  using assms by (auto simp: yields_def keeps2_def whenever_def registry_kept)

lemma create_steady:
  assumes "alloc_ok E" "registry_ok s" "ctx \<noteq> NULL" "contexts s ctx = Some c"
  shows "yields (hmp_transport_create E n ctx s) (\<lambda>(p, s'). (if p = NULL then transports s' = transports s
    else transports s p = None \<and> (\<exists>ec. transports s' = (transports s)(p \<mapsto> new_trans n ctx ec))) \<and>
    rest_of s' = rest_of s \<and> registry_ok s')"
  using steady [OF transport_create_yields [OF assms] rest.transport_create records.transport_create] assms
  by (simp add: registry_kept)

lemma listen_steady:
  assumes "alloc_ok E" "registry_ok s" "cm_ok E" "p \<noteq> NULL" "transports s p = Some t"
  shows "yields (hmp_transport_listen E p port s) (\<lambda>(r, s'). moves HMP_TRANSPORT_STATE_LISTEN p s s' \<and>
    rest_of s' = rest_of s \<and> registry_ok s')"
  using steady [OF listen_yields [OF assms(3-5)] rest.listen records.listen] assms
  by (simp add: registry_kept)

lemma connect_steady:
  assumes "alloc_ok E" "registry_ok s" "cm_ok E" "p \<noteq> NULL" "transports s p = Some t"
  shows "yields (hmp_transport_connect E p url port s) (\<lambda>(r, s'). moves HMP_TRANSPORT_STATE_CONNECTING p s s' \<and>
    rest_of s' = rest_of s \<and> registry_ok s')"
  using steady [OF connect_yields [OF assms(3-5)] rest.connect records.connect] assms
  by (simp add: registry_kept)

section \<open>A node that has started\<close>

text \<open>The four slots of the transport to a node in the pool.\<close>

definition slots :: "hmp_mempool \<Rightarrow> nat \<Rightarrow> hmp_region" where
  "slots m j = (let a = base_addr m + word_of_int (int j * 4 * int HMP_TASK_SIZE) in
     \<lparr>send_addr = a, recv_addr = a + word_of_int (int HMP_TASK_SIZE), cur_recv = 0\<rparr>)"

text \<open>The transport to the node with index \<open>j\<close>, with its part of the pool.\<close>

definition opened :: "env \<Rightarrow> sys \<Rightarrow> hmp_mempool \<Rightarrow> nat \<Rightarrow> ptr \<Rightarrow> bool" where
  "opened E s m j p \<longleftrightarrow> p \<noteq> NULL \<and> (\<exists>t. transports s p = Some t \<and> trans_node_id t = int j \<and>
     nodeptr t = e_curnode E \<and> trans_ctx t = node_ctx (curnode s) \<and>
     trans_state t \<in> {HMP_TRANSPORT_STATE_INIT, HMP_TRANSPORT_STATE_CONNECTING} \<and>
     region t = slots m j)"

text \<open>The own pool enters the own entry of the configuration.\<close>

definition own_pool :: "hmp_mempool \<Rightarrow> ibv_mr \<Rightarrow> hmp_config \<Rightarrow> hmp_config option" where
  "own_pool m r c = upd_info (\<lambda>i. i\<lparr>dram_mr := (dram_mr i)\<lparr>mri_addr := base_addr m, mri_rkey := mr_rkey r\<rparr>\<rparr>)
     (curnode_id c) c"

text \<open>The table of the connections, filled up to index \<open>k\<close>.\<close>

definition connections :: "env \<Rightarrow> hmp_config \<Rightarrow> hmp_mempool \<Rightarrow> nat \<Rightarrow> sys \<Rightarrow> bool" where
  "connections E c m k s \<longleftrightarrow> (let tab = connect_trans (curnode s) in length tab = HMP_NODE_NUM \<and>
     (\<forall>j<HMP_NODE_NUM. if curnode_id c < int j \<and> j < k then opened E s m j (tab ! j) else tab ! j = NULL))"

text \<open>The circular lists: the links, and the devices and hash nodes in them.\<close>

type_synonym node_lists = "list_head heap \<times> hmp_device heap \<times> hmp_hash_node heap"

definition lists_of :: "sys \<Rightarrow> node_lists" where
  "lists_of s = (links s, devices s, hash_nodes s)"

lemma lists_of_updates [simp]:
  "lists_of (upd_curnode f s) = lists_of s" "lists_of (s\<lparr>transports := tr\<rparr>) = lists_of s"
  by (simp_all add: lists_of_def)

text \<open>A node of the configuration \<open>c\<close> with the devices \<open>ds\<close> that has begun to connect to the nodes
  behind it, up to index \<open>k\<close>; its lists are \<open>v\<close>.\<close>

definition started :: "env \<Rightarrow> hmp_config \<Rightarrow> ptr list \<Rightarrow> node_lists \<Rightarrow> nat \<Rightarrow> sys \<Rightarrow> bool" where
  "started E c ds v k s \<longleftrightarrow> (let n = curnode s in
     lists_of s = v \<and> registry_ok s \<and> device_list E s ds \<and>
     node_ctx n \<noteq> NULL \<and> map_option ctx_stop (contexts s (node_ctx n)) = Some 0 \<and>
     (\<exists>t. transports s (listen_trans n) = Some t \<and> trans_device t = hd ds \<and> trans_ctx t = node_ctx n \<and>
       trans_node_id t = 0 \<and> trans_state t \<in> {HMP_TRANSPORT_STATE_INIT, HMP_TRANSPORT_STATE_LISTEN}) \<and>
     (\<exists>m r. pool_ready s m r \<and> mr_addr r = base_addr m \<and> own_pool m r c = Some (config n) \<and>
       connections E c m k s))"

lemma opened_keeps:
  "opened E s m j q \<Longrightarrow> transports s p = None \<Longrightarrow> transports s' = (transports s)(p := t) \<Longrightarrow>
   node_ctx (curnode s') = node_ctx (curnode s) \<Longrightarrow> opened E s' m j q"
  by (auto simp: opened_def)

lemma own_pool_config:
  "own_pool m r c = Some c' \<Longrightarrow> curnode_id c' = curnode_id c \<and> node_cnt c' = node_cnt c"
  by (auto simp: own_pool_def upd_info_def split: if_splits)

text \<open>One more connection.\<close>

lemma started_step:
  assumes st: "started E c ds v k s" and k: "curnode_id c < int k" "k < HMP_NODE_NUM"
    and new: "transports s p = None" "transports s' = (transports s)(p := transports s' p)"
    and rest: "rest_of s' = rest_of (upd_curnode (\<lambda>n. n\<lparr>connect_trans := (connect_trans n)[k := p]\<rparr>) s)"
    and ok: "registry_ok s'" and op: "\<And>m r. pool_ready s m r \<Longrightarrow> opened E s' m k p"
  shows "started E c ds v (Suc k) s'"
proof -
  let ?n = "curnode s" and ?n' = "curnode s'"
  have n': "?n' = ?n\<lparr>connect_trans := (connect_trans ?n)[k := p]\<rparr>" "contexts s' = contexts s"
      "devices s' = devices s" "links s' = links s" "mempools s' = mempools s" "mrs s' = mrs s" "lists_of s' = lists_of s"
    using rest by (simp_all add: rest_of_def lists_of_def)
  have "connections E c m (Suc k) s'" if "connections E c m k s" "pool_ready s m r" for m r
    unfolding connections_def Let_def
  proof (intro conjI allI impI)
    fix j assume j: "j < HMP_NODE_NUM"
    show "if curnode_id c < int j \<and> j < Suc k then opened E s' m j (connect_trans ?n' ! j)
        else connect_trans ?n' ! j = NULL"
    proof (cases "j = k")
      case True
      with that op k n'(1) show ?thesis by (simp add: connections_def Let_def)
    next
      case False
      with that(1) j have "if curnode_id c < int j \<and> j < Suc k then opened E s m j (connect_trans ?n ! j)
          else connect_trans ?n ! j = NULL"
        by (auto simp: connections_def Let_def less_Suc_eq split: if_splits)
      with False n'(1) opened_keeps [OF _ new] show ?thesis by (auto split: if_splits)
    qed
  qed (use that n'(1) in \<open>simp add: connections_def Let_def\<close>)
  moreover have "pool_ready s' m r = pool_ready s m r" for m r using n' by (simp add: pool_ready_def)
  moreover have "listen_trans ?n \<noteq> p" using st new(1) by (auto simp: started_def Let_def)
  then have "transports s' (listen_trans ?n') = transports s (listen_trans ?n)"
    using n'(1) by (subst new(2)) simp
  moreover have "device_list E s' ds = device_list E s ds" using n' by (simp add: device_list_def)
  moreover have "node_ctx ?n' = node_ctx ?n" "config ?n' = config ?n" using n'(1) by simp_all
  ultimately show ?thesis
    using st ok n'(2,7) unfolding started_def Let_def by metis
qed

text \<open>The loop over the nodes behind the own one.\<close>

lemma set_region_eq:
  "p \<noteq> NULL \<Longrightarrow> transports s p = Some t \<Longrightarrow> pool_ready s m r \<Longrightarrow>
   set_region p (int j) s = Some (s\<lparr>transports := (transports s)(p \<mapsto> t\<lparr>region := slots m j\<rparr>)\<rparr>)"
  by (cases "region t") (simp add: set_region_def upd_defs pool_ready_def slots_def Let_def)

lemma moved_opened:
  assumes "moves HMP_TRANSPORT_STATE_CONNECTING p s s'" "p \<noteq> NULL" "rest_of s' = rest_of s"
    and "transports s p = Some ((new_trans (e_curnode E) (node_ctx (curnode s)) ec)\<lparr>trans_node_id := int j, region := slots m j\<rparr>)"
  shows "opened E s' m j p"
  using assms moved_to_fields
  by (fastforce simp: moves_def opened_def rest_of_def new_trans_def)

lemma connect_all_yields:
  assumes E: "alloc_ok E" "cm_ok E" and lo: "curnode_id c < int k" "k + n \<le> HMP_NODE_NUM"
  shows "started E c ds v k s \<Longrightarrow> yields (connect_all E k n s) (\<lambda>(r, s').
    r = Inl (Exited (- 1)) \<or> r = Inr () \<and> started E c ds v (k + n) s')"
  using lo
proof (induction n arbitrary: k s)
  case 0
  then show ?case by (simp add: vc)
next
  case (Suc n)
  let ?s = "INFO_LOG ''create the [%d]-th transport.'' s" and ?ctx = "node_ctx (curnode s)"
  let ?Q = "\<lambda>(r, s'). r = Inl (Exited (- 1)) \<or> r = Inr () \<and> started E c ds v (k + Suc n) s'"
  have in_k: "in_nodes (int k)" "k < HMP_NODE_NUM" using Suc.prems(3) by (simp_all add: in_nodes_def)
  from Suc.prems(1) obtain x where x: "?ctx \<noteq> NULL" "contexts s ?ctx = Some x" "registry_ok s"
    by (auto simp: started_def Let_def)
  from Suc.prems(1) obtain m r where pool: "pool_ready s m r" "\<And>m' r'. pool_ready s m' r' \<Longrightarrow> m' = m"
    by (auto simp: started_def Let_def pool_ready_def)
  from x have ok: "registry_ok ?s" "contexts ?s ?ctx = Some x" by (simp_all add: registry_ok_def)
  have rest: "yields (do {
      s \<leftarrow> set_connect_trans (int k) t s1;
      if t = NULL then die ''create rdma trans error.'' s
      else do {
        s \<leftarrow> upd_trans (\<lambda>t. t\<lparr>trans_node_id := int k\<rparr>) t s;
        s \<leftarrow> set_region t (int k) s;
        info \<leftarrow> get_info (int k) s;
        (_, s) \<leftarrow> hmp_transport_connect E t (ni_addr info) (ni_port info) s;
        connect_all E (Suc k) n s } }) ?Q"
    if tr: "if t = NULL then transports s1 = transports ?s else transports ?s t = None \<and>
        (\<exists>ec. transports s1 = (transports ?s)(t \<mapsto> new_trans (e_curnode E) ?ctx ec))"
      and s1: "rest_of s1 = rest_of ?s" "registry_ok s1" for t s1
  proof (cases "t = NULL")
    case True
    with in_k show ?thesis by (simp add: vc set_connect_trans_def die_def)
  next
    case False
    with tr obtain ec where ec: "transports s t = None"
        "transports s1 = (transports s)(t \<mapsto> new_trans (e_curnode E) ?ctx ec)" by auto
    let ?s2 = "upd_curnode (\<lambda>n. n\<lparr>connect_trans := (connect_trans n)[k := t]\<rparr>) s1"
    let ?t = "(new_trans (e_curnode E) ?ctx ec)\<lparr>trans_node_id := int k, region := slots m k\<rparr>"
    let ?s4 = "?s2\<lparr>transports := (transports s)(t \<mapsto> ?t)\<rparr>"
    have same: "curnode s1 = curnode s" "contexts s1 = contexts s" "devices s1 = devices s"
        "links s1 = links s" "mempools s1 = mempools s" "mrs s1 = mrs s" "hash_nodes s1 = hash_nodes s"
      using s1(1) by (simp_all add: rest_of_def)
    then have pool2: "pool_ready (?s2\<lparr>transports := h\<rparr>) m r" for h using pool(1) by (simp add: pool_ready_def)
    have ok4: "registry_ok ?s4" using s1(2) by (simp add: registry_ok_def)
    have run: "do {
        s \<leftarrow> set_connect_trans (int k) t s1;
        if t = NULL then die ''create rdma trans error.'' s
        else do {
          s \<leftarrow> upd_trans (\<lambda>t. t\<lparr>trans_node_id := int k\<rparr>) t s;
          s \<leftarrow> set_region t (int k) s;
          info \<leftarrow> get_info (int k) s;
          (_, s) \<leftarrow> hmp_transport_connect E t (ni_addr info) (ni_port info) s;
          connect_all E (Suc k) n s } } = do {
        (_, s) \<leftarrow> hmp_transport_connect E t (ni_addr (node_infos (config (curnode s)) ! k))
          (ni_port (node_infos (config (curnode s)) ! k)) ?s4;
        connect_all E (Suc k) n s }"
      using False in_k(1) ec(2) pool2
      by (simp add: set_connect_trans_def upd_defs set_region_eq [where m = m and r = r] get_info_def same)
    show ?thesis
      unfolding run yields_bind
    proof (rule yields_mono [OF connect_steady [OF E(1) ok4 E(2) False, of ?t]], simp, clarify)
      fix r' s5 assume mv: "moves HMP_TRANSPORT_STATE_CONNECTING t ?s4 s5"
        and s5: "rest_of s5 = rest_of ?s4" "registry_ok s5"
      have "started E c ds v (Suc k) s5"
      proof (rule started_step [OF Suc.prems(1,2) in_k(2) ec(1)])
        show "transports s5 = (transports s)(t := transports s5 t)"
          using mv by (simp add: moves_def)
        show "rest_of s5 = rest_of (upd_curnode (\<lambda>n. n\<lparr>connect_trans := (connect_trans n)[k := t]\<rparr>) s)"
          using s5(1) same by (simp add: rest_of_def)
        show "opened E s5 m' k t" if "pool_ready s m' r''" for m' r''
          using moved_opened [OF mv False s5(1), where E = E and ec = ec and j = k and m = m] pool(2) [OF that] same(1) by simp
      qed (rule s5(2))
      from Suc.IH [OF this] Suc.prems(2,3) show "yields (connect_all E (Suc k) n s5) ?Q" by simp
    qed
  qed
  show ?case
    by (simp add: vc, rule yields_mono [OF create_steady [OF E(1) ok(1) x(1) ok(2)]])
      (use rest in \<open>auto simp: vc\<close>)
qed

section \<open>The listening transport and the pool\<close>

lemma first_device_run:
  assumes list: "device_list E s ds" and t: "transports s p = Some t" "p \<noteq> NULL" "p = listen_trans (curnode s)"
  shows "first_device E s = Some (if ds = [] then s else s\<lparr>transports := (transports s)(p \<mapsto> t\<lparr>trans_device := hd ds\<rparr>)\<rparr>)"
proof -
  let ?body = "\<lambda>device s. map_option Inr (upd_trans (\<lambda>t. t\<lparr>trans_device := device\<rparr>) (listen_trans (curnode s)) s)"
  let ?P = "\<lambda>ys s'. ys = [] \<and> s' = s" and ?Q = "\<lambda>s'. ds \<noteq> [] \<and> s' = s\<lparr>transports := (transports s)(p \<mapsto> t\<lparr>trans_device := hd ds\<rparr>)\<rparr>"
  have "loop_result (?P ds) ?Q (list_for_each_entry links dev_list_entry_off (e_dev_list E) ?body s)"
  proof (rule list_for_each_entry_rule [where P = ?P])
    show "ring (links s') (e_dev_list E) ds" if "?P ys s'" for ys s'
      using list that by (simp add: device_list_def)
    fix ys d zs s' assume "ds = ys @ d # zs" "?P ys s'"
    then show "loop_result (?P (ys @ [d])) ?Q (?body (container_of d dev_list_entry_off) s')"
      using t by (simp add: upd_defs loop_result_def)
  qed simp
  then show ?thesis
    by (auto simp: first_device_def loop_result_def)
qed

text \<open>The steps of \<open>hmp_mempool_create\<close> touch the pool only.\<close>

definition pool_only :: "sys \<Rightarrow> sys \<Rightarrow> bool" where
  "pool_only s s' \<longleftrightarrow> s' = s\<lparr>mempools := mempools s', blocks := blocks s', mem := mem s', mrs := mrs s',
     calls := calls s', log := log s'\<rparr>"

lemma pool_only_refl [simp]: "pool_only s s"
  by (simp add: pool_only_def)

lemma pool_only_same:
  "pool_only s s' \<Longrightarrow> lists_of s' = lists_of s \<and> curnode s' = curnode s \<and> contexts s' = contexts s \<and> devices s' = devices s \<and> links s' = links s \<and>
   transports s' = transports s \<and> registry_ok s' = registry_ok s"
  by (cases s, cases s', simp add: pool_only_def registry_ok_def lists_of_def)

lemma pool_only_fields [simp]:
  "pool_only s (record_call c t) = pool_only s t"
  "pool_only s (put_block f p n t) = pool_only s t"
  "pool_only s (ERROR_LOG m t) = pool_only s t"
  "pool_only s (t\<lparr>mempools := mp\<rparr>) = pool_only s t"
  "pool_only s (t\<lparr>mrs := mr\<rparr>) = pool_only s t"
  by (cases s, cases t, simp add: pool_only_def record_call_def put_block_def ERROR_LOG_eq)+

lemma pool_only_keep [keep]:
  "pool_only s t \<Longrightarrow> keeps (pool_only s) (upd_mempool f p t)"
  "pool_only s t \<Longrightarrow> keeps (pool_only s) (free_mempool p t)"
  "pool_only s t \<Longrightarrow> keeps (pool_only s) (free_block p t)"
  by (cases s, cases t, auto simp: keeps_def whenever_def upd_mempool_def modify_def free_mempool_def free_block_def
    record_call_def pool_only_def Option.bind_eq_Some_conv split: if_splits)+

lemma pool_only_alloc:
  "pool_only s t \<Longrightarrow> calloc_mempool E t = (p, t') \<Longrightarrow> pool_only s t'"
  "pool_only s t \<Longrightarrow> calloc_block E k n t = (p, t') \<Longrightarrow> pool_only s t'"
  "pool_only s t \<Longrightarrow> ibv_reg_mr E pd a z fl t = (p, t') \<Longrightarrow> pool_only s t'"
  by (auto simp: calloc_mempool_def calloc_block_def ibv_reg_mr_def ptr_call_def Let_def split: if_splits prod.splits)

lemma keeps_listen_pd [keep]: "(\<And>x. keeps2 I (f x)) \<Longrightarrow> keeps2 I (Option.bind (listen_pd s) f)"
  by (rule keeps_pure)

lemma mempool_create_only: "keeps2 (pool_only s) (hmp_mempool_create E sz s)"
  unfolding hmp_mempool_create_def mempool_set_size_def clean_mempool_def clean_base_addr_def clean_page_array_def Let_def
  by (auto intro!: keep dest: pool_only_alloc [OF pool_only_refl] pool_only_alloc)

lemma mem_init_yields:
  assumes "alloc_ok E" "listen_pd s = Some pd" "in_nodes (curnode_id (config (curnode s)))"
  shows "yields (hmp_mem_init E s) (\<lambda>(r, s'). r = Inl (Exited (- 1)) \<or> r = Inr () \<and>
    (\<exists>m ra c base p. pool_ready s' m ra \<and> mr_addr ra = base_addr m \<and> own_pool m ra (config (curnode s)) = Some c \<and>
      pool_only (upd_curnode (\<lambda>n. n\<lparr>hybrid_mempool_base := base, dram_mempool := p, config := c\<rparr>) s) s'))"
    (is "yields _ (\<lambda>(r, s'). r = _ \<or> r = _ \<and> ?P s')")
proof -
  let ?s = "INFO_LOG ''curnode hybrid mem addr %p''
    (upd_curnode (\<lambda>n. n\<lparr>hybrid_mempool_base := hmp_get_hybrid_mempool_addr s\<rparr>) s)"
  have pd: "listen_pd ?s = Some pd" using assms(2) by (simp add: listen_pd_upd_curnode)
  have "0 < HMP_DRAM_MEM_SIZE" by (simp add: HMP_DRAM_MEM_SIZE_def)
  note made = yields_keeps(2) [OF mempool_create_yields [OF assms(1) this pd] mempool_create_only]
  have "yields (let s = upd_curnode (\<lambda>n. n\<lparr>dram_mempool := p\<rparr>) s1 in if p = NULL
       then Some (Inl (Exited (- 1)), ERROR_LOG ''allocate dram_mempool error.'' s)
       else do {
         m \<leftarrow> load (mempools s) (dram_mempool (curnode s));
         r \<leftarrow> load (mrs s) (pool_mr m);
         let s = INFO_LOG ''create dram_mempool success. %ld %p'' s;
         c \<leftarrow> upd_info (\<lambda>i. i\<lparr>dram_mr := (dram_mr i)\<lparr>mri_addr := base_addr m, mri_rkey := mr_rkey r\<rparr>\<rparr>)
           (curnode_id (config (curnode s))) (config (curnode s));
         Some (Inr (), upd_curnode (\<lambda>n. n\<lparr>config := c\<rparr>) s) })
     (\<lambda>(r, s'). r = Inl (Exited (- 1)) \<or> r = Inr () \<and> ?P s')"
    if p: "p \<noteq> NULL \<Longrightarrow> pool_made ?s HMP_DRAM_MEM_SIZE p s1" and only: "pool_only ?s s1" for p s1
  proof (cases "p = NULL")
    case True
    then show ?thesis by (simp add: vc)
  next
    case False
    with p obtain m ra where m: "mempools s1 p = Some m" "pool_mr m \<noteq> NULL" "mrs s1 (pool_mr m) = Some ra"
        "mr_addr ra = base_addr m" "curnode s1 = curnode ?s"
      by (auto simp: pool_made_def)
    obtain c where c: "own_pool m ra (config (curnode s)) = Some c"
      using assms(3) by (simp add: own_pool_def upd_info_def)
    let ?s' = "upd_curnode (\<lambda>n. n\<lparr>config := c\<rparr>) (INFO_LOG ''create dram_mempool success. %ld %p''
      (upd_curnode (\<lambda>n. n\<lparr>dram_mempool := p\<rparr>) s1))"
    have "pool_only (upd_curnode (\<lambda>n. n\<lparr>hybrid_mempool_base := hmp_get_hybrid_mempool_addr s,
        dram_mempool := p, config := c\<rparr>) s) ?s'"
      using only m(5) by (cases s; cases s1) (simp add: pool_only_def upd_curnode_def INFO_LOG_eq)
    moreover have "pool_ready ?s' m ra" using m False by (simp add: pool_ready_def)
    ultimately have P: "?P ?s'" using m(4) c by blast
    show ?thesis
      by (rule yieldsI [of _ "(Inr (), ?s')"], use False m c in \<open>simp add: own_pool_def Let_def\<close>)
        (use P in \<open>simp only: prod.case, blast\<close>)
  qed
  then show ?thesis
    unfolding hmp_mem_init_def Let_def yields_bind
    by (intro yields_mono [OF made]) auto
qed

section \<open>The start as a whole\<close>

text \<open>From the pool on: listening, and the connections.\<close>

lemma connections_none:
  "length (connect_trans (curnode s)) = HMP_NODE_NUM \<Longrightarrow> \<forall>j<HMP_NODE_NUM. connect_trans (curnode s) ! j = NULL \<Longrightarrow>
   int k \<le> curnode_id c + 1 \<Longrightarrow> connections E c m k s"
  by (auto simp: connections_def Let_def)

lemma from_pool_yields:
  assumes E: "alloc_ok E" "cm_ok E" and c: "0 \<le> curnode_id c" "curnode_id c < node_cnt c" "node_cnt c \<le> int HMP_NODE_NUM"
    and s: "registry_ok s" "device_list E s ds" "node_ctx (curnode s) \<noteq> NULL"
      "map_option ctx_stop (contexts s (node_ctx (curnode s))) = Some 0" "lists_of s = v"
    and t: "listen_trans (curnode s) \<noteq> NULL" "transports s (listen_trans (curnode s)) = Some t" "trans_device t = hd ds"
      "trans_ctx t = node_ctx (curnode s)" "trans_node_id t = 0" "trans_state t = HMP_TRANSPORT_STATE_INIT"
    and m: "pool_ready s m r" "mr_addr r = base_addr m" "own_pool m r c = Some (config (curnode s))"
  shows "yields (do {
      info \<leftarrow> get_info (curnode_id (config (curnode s))) s;
      (_, s) \<leftarrow> hmp_transport_listen E (listen_trans (curnode s)) (ni_port info) s;
      let s = upd_curnode (\<lambda>n. n\<lparr>connect_trans := replicate HMP_NODE_NUM NULL\<rparr>) s;
      let c = config (curnode s);
      connect_all E (nat (curnode_id c + 1)) (nat (node_cnt c - (curnode_id c + 1))) s })
    (\<lambda>(h, s'). h = Inl (Exited (- 1)) \<or> h = Inr () \<and> started E c ds v (nat (node_cnt c)) s')"
proof -
  let ?n = "curnode s" and ?k = "nat (curnode_id c + 1)"
  let ?port = "ni_port (node_infos (config ?n) ! nat (curnode_id c))"
  note cfg = own_pool_config [OF m(3)]
  have info: "get_info (curnode_id (config ?n)) s = Some (node_infos (config ?n) ! nat (curnode_id c))"
    using c cfg by (simp add: get_info_def in_nodes_def)
  have st: "started E c ds v ?k (upd_curnode (\<lambda>n. n\<lparr>connect_trans := replicate HMP_NODE_NUM NULL\<rparr>) s')"
    if mv: "moves HMP_TRANSPORT_STATE_LISTEN (listen_trans ?n) s s'" and rest: "rest_of s' = rest_of s" and ok: "registry_ok s'" for s'
  proof -
    let ?u = "upd_curnode (\<lambda>n. n\<lparr>connect_trans := replicate HMP_NODE_NUM NULL\<rparr>) s'"
    have same: "curnode s' = ?n" "contexts s' = contexts s" "devices s' = devices s" "links s' = links s"
        "mempools s' = mempools s" "mrs s' = mrs s" "lists_of s' = v"
      using rest s(5) by (simp_all add: rest_of_def lists_of_def)
    from mv t(2) obtain t' where t': "transports s' (listen_trans ?n) = Some t'" "moved_to HMP_TRANSPORT_STATE_LISTEN t t'"
      by (auto simp: moves_def)
    have "registry_ok ?u" using ok by (simp add: registry_ok_def)
    moreover have "device_list E ?u ds" using s(2) same by (simp add: device_list_def)
    moreover have "pool_ready ?u m r" using m(1) same by (simp add: pool_ready_def)
    moreover have "connections E c m ?k ?u" using c by (intro connections_none) simp_all
    moreover have "trans_device t' = hd ds \<and> trans_ctx t' = node_ctx ?n \<and> trans_node_id t' = 0 \<and>
        trans_state t' \<in> {HMP_TRANSPORT_STATE_INIT, HMP_TRANSPORT_STATE_LISTEN}"
      using moved_to_fields [OF t'(2)] t by auto
    ultimately show ?thesis
      unfolding started_def Let_def using s t'(1) m(2,3) same by auto
  qed
  let ?Q = "\<lambda>(h, s'). h = Inl (Exited (- 1)) \<or> h = Inr () \<and> started E c ds v (nat (node_cnt c)) s'"
  have all: "yields (let s = upd_curnode (\<lambda>n. n\<lparr>connect_trans := replicate HMP_NODE_NUM NULL\<rparr>) s'; c = config (curnode s)
      in connect_all E (nat (curnode_id c + 1)) (nat (node_cnt c - (curnode_id c + 1))) s) ?Q"
    if "moves HMP_TRANSPORT_STATE_LISTEN (listen_trans ?n) s s'" "rest_of s' = rest_of s" "registry_ok s'" for s'
  proof -
    have "config (curnode s') = config ?n" using that(2) by (simp add: rest_of_def)
    moreover have "?k + nat (node_cnt c - (curnode_id c + 1)) = nat (node_cnt c)" "curnode_id c < int ?k"
      using c by simp_all
    ultimately show ?thesis
      using connect_all_yields [OF E _ _ st [OF that], of "nat (node_cnt c - (curnode_id c + 1))"] c cfg
      by (simp add: Let_def)
  qed
  show ?thesis
    unfolding yields_bind info yields_Some
    by (rule yields_mono [OF listen_steady [OF E(1) s(1) E(2) t(1,2)]]) (clarify, use all in blast)
qed

text \<open>Without a device there is no protection domain, and no pool.\<close>

lemma listen_pd_only: "pool_only s s' \<Longrightarrow> listen_pd s' = listen_pd s"
  by (cases s, cases s', simp add: pool_only_def listen_pd_def)

lemma mempool_create_no_pd:
  assumes "listen_pd s = None" "hmp_mempool_create E sz s = Some (p, s')"
  shows "p = NULL"
proof -
  have pd: "listen_pd s' = None" if "curnode s' = curnode s" "transports s' = transports s" "devices s' = devices s" for s'
    using that assms(1) by (simp add: listen_pd_def)
  show ?thesis
    using assms(2)
    by (auto simp: hmp_mempool_create_def mempool_set_size_def upd_defs calloc_mempool_def calloc_block_def ptr_call_def
      clean_mempool_def clean_base_addr_def pd Let_def Option.bind_eq_Some_conv split: if_splits)
qed

lemma no_device_exits:
  assumes "listen_pd s = None" "hmp_mem_init E s = Some (r, s')"
  shows "r = Inl (Exited (- 1))"
  using assms mempool_create_no_pd [of "INFO_LOG ''curnode hybrid mem addr %p''
    (upd_curnode (\<lambda>n. n\<lparr>hybrid_mempool_base := hmp_get_hybrid_mempool_addr s\<rparr>) s)"]
  by (fastforce simp: hmp_mem_init_def Let_def listen_pd_upd_curnode Option.bind_eq_Some_conv split: if_splits)

text \<open>A run that faults only when there is no device, exits, or ends with a node that has started.\<close>

definition starts :: "env \<Rightarrow> hmp_config \<Rightarrow> ptr list \<Rightarrow> node_lists \<Rightarrow> ((halt + unit) \<times> sys) option \<Rightarrow> bool" where
  "starts E c ds v m \<longleftrightarrow> ds = [] \<and> m = None \<or> yields m (\<lambda>(r, s'). r = Inl (Exited (- 1)) \<or>
     ds \<noteq> [] \<and> r = Inr () \<and> started E c ds v (nat (node_cnt c)) s')"

lemma starts_die: "starts E c ds v (die m s)"
  by (simp add: starts_def die_def vc)

lemma starts_bind:
  "yields m P \<Longrightarrow> (\<And>x. P x \<Longrightarrow> starts E c ds v (f x)) \<Longrightarrow> starts E c ds v (Option.bind m f)"
  by (auto simp: yields_def)

text \<open>The last two parts of \<open>start_transports\<close>, under names of their own.\<close>

definition from_devices :: "env \<Rightarrow> sys \<Rightarrow> ((halt + unit) \<times> sys) option" where
  "from_devices E s = do {
       s \<leftarrow> first_device E s;
       (r, s) \<leftarrow> hmp_mem_init E s;
       case r of
         Inl h \<Rightarrow> Some (Inl h, s)
       | Inr _ \<Rightarrow> do {
           info \<leftarrow> get_info (curnode_id (config (curnode s))) s;
           (_, s) \<leftarrow> hmp_transport_listen E (listen_trans (curnode s)) (ni_port info) s;
           let s = upd_curnode (\<lambda>n. n\<lparr>connect_trans := replicate HMP_NODE_NUM NULL\<rparr>) s;
           let c = config (curnode s);
           connect_all E (nat (curnode_id c + 1)) (nat (node_cnt c - (curnode_id c + 1))) s } }"

definition from_context :: "env \<Rightarrow> ptr \<Rightarrow> sys \<Rightarrow> ((halt + unit) \<times> sys) option" where
  "from_context E ctx s = do {
     (t, s) \<leftarrow> hmp_transport_create E (e_curnode E) ctx s;
     let s = upd_curnode (\<lambda>n. n\<lparr>listen_trans := t\<rparr>) s;
     if t = NULL then die ''create listen trans error.'' s else from_devices E s }"

lemma start_transports_parts:
  "start_transports E s = do {
     s \<leftarrow> hmp_transport_init E s;
     (ctx, s) \<leftarrow> hmp_context_create E s;
     let s = upd_curnode (\<lambda>n. n\<lparr>node_ctx := ctx\<rparr>) s;
     if ctx = NULL then die ''create context error.'' s else from_context E ctx s }"
  unfolding start_transports_def from_context_def from_devices_def by (rule refl)

lemma after_devices:
  assumes E: "alloc_ok E" "cm_ok E" and c: "0 \<le> curnode_id c" "curnode_id c < node_cnt c" "node_cnt c \<le> int HMP_NODE_NUM"
    and s: "registry_ok s" "device_list E s ds" "node_ctx (curnode s) \<noteq> NULL"
      "map_option ctx_stop (contexts s (node_ctx (curnode s))) = Some 0" "config (curnode s) = c" "lists_of s = v"
    and t: "listen_trans (curnode s) \<noteq> NULL"
      "transports s (listen_trans (curnode s)) = Some (new_trans n (node_ctx (curnode s)) ec)"
  shows "starts E c ds v (from_devices E s)"
proof (cases "ds = []")
  case True
  have "first_device E s = Some s"
    using first_device_run [OF s(2) t(2,1) refl] True by simp
  moreover have "listen_pd s = None"
    using t by (simp add: listen_pd_def new_trans_def zero_transport_def)
  ultimately show ?thesis
    using no_device_exits [of s E] True
    by (cases "hmp_mem_init E s") (auto simp: starts_def from_devices_def vc)
next
  case False
  let ?lt = "listen_trans (curnode s)"
  let ?t = "(new_trans n (node_ctx (curnode s)) ec)\<lparr>trans_device := hd ds\<rparr>"
  let ?s = "s\<lparr>transports := (transports s)(?lt \<mapsto> ?t)\<rparr>"
  have first: "first_device E s = Some ?s"
    using first_device_run [OF s(2) t(2,1) refl] False by simp
  obtain dv where dv: "devices s (hd ds) = Some dv" "hd ds \<noteq> NULL"
    using s(2) False ring_NULL [of "links s" "e_dev_list E" ds] by (cases ds) (auto simp: device_list_def)
  then have pd: "listen_pd ?s = Some (dev_pd dv)" using t by (simp add: listen_pd_def)
  have "in_nodes (curnode_id (config (curnode ?s)))" using c s(5) by (simp add: in_nodes_def)
  note init = mem_init_yields [OF E(1) pd this]
  show ?thesis
    unfolding from_devices_def first bind.bind_lunit
  proof (rule starts_bind [OF init], clarify)
    fix r s2
    assume r: "r = Inl (Exited (- 1)) \<or> r = Inr () \<and>
      (\<exists>m ra c' base p. pool_ready s2 m ra \<and> mr_addr ra = base_addr m \<and> own_pool m ra (config (curnode ?s)) = Some c' \<and>
        pool_only (upd_curnode (\<lambda>n. n\<lparr>hybrid_mempool_base := base, dram_mempool := p, config := c'\<rparr>) ?s) s2)"
    show "starts E c ds v (case r of Inl h \<Rightarrow> Some (Inl h, s2) | Inr _ \<Rightarrow> do {
          info \<leftarrow> get_info (curnode_id (config (curnode s2))) s2;
          (_, s) \<leftarrow> hmp_transport_listen E (listen_trans (curnode s2)) (ni_port info) s2;
          let s = upd_curnode (\<lambda>n. n\<lparr>connect_trans := replicate HMP_NODE_NUM NULL\<rparr>) s;
          let c = config (curnode s);
          connect_all E (nat (curnode_id c + 1)) (nat (node_cnt c - (curnode_id c + 1))) s })"
    proof (cases r)
      case (Inl h)
      with r show ?thesis by (simp add: starts_def vc)
    next
      case (Inr u)
      with r obtain m ra c' base p where m: "pool_ready s2 m ra" "mr_addr ra = base_addr m" "own_pool m ra c = Some c'"
          and only: "pool_only (upd_curnode (\<lambda>n. n\<lparr>hybrid_mempool_base := base, dram_mempool := p, config := c'\<rparr>) ?s) s2"
        using s(5) by auto
      note same = pool_only_same [OF only]
      have "registry_ok s2" using s(1) same by (simp add: registry_ok_def)
      moreover have "device_list E s2 ds" using s(2) same by (simp add: device_list_def)
      moreover have "trans_node_id zero_transport = 0" by (simp add: zero_transport_def)
      ultimately show ?thesis
        using from_pool_yields [OF E c, of s2 ds v ?t m ra] s(3,4,6) t(1) m same Inr False
        by (simp add: starts_def new_trans_def)
    qed
  qed
qed

lemma after_context:
  assumes E: "alloc_ok E" "cm_ok E" and c: "0 \<le> curnode_id c" "curnode_id c < node_cnt c" "node_cnt c \<le> int HMP_NODE_NUM"
    and s: "registry_ok s" "device_list E s ds" "config (curnode s) = c" "lists_of s = v"
    and ctx: "node_ctx (curnode s) = ctx" "ctx \<noteq> NULL" "contexts s ctx = Some x" "ctx_stop x = 0"
  shows "starts E c ds v (from_context E ctx s)"
  unfolding from_context_def Let_def
proof (rule starts_bind [OF create_steady [OF E(1) s(1) ctx(2,3)]], clarify)
  fix p s3
  assume tr: "if p = NULL then transports s3 = transports s else transports s p = None \<and>
      (\<exists>ec. transports s3 = (transports s)(p \<mapsto> new_trans (e_curnode E) ctx ec))"
    and rest: "rest_of s3 = rest_of s" and ok: "registry_ok s3"
  let ?s3 = "upd_curnode (\<lambda>n. n\<lparr>listen_trans := p\<rparr>) s3"
  have same: "curnode s3 = curnode s" "contexts s3 = contexts s" "devices s3 = devices s" "links s3 = links s" "lists_of s3 = v"
    using rest s(4) by (simp_all add: rest_of_def lists_of_def)
  show "starts E c ds v (if p = NULL then die ''create listen trans error.'' ?s3 else from_devices E ?s3)"
  proof (cases "p = NULL")
    case False
    with tr obtain ec where ec: "transports s3 p = Some (new_trans (e_curnode E) ctx ec)" by auto
    have "registry_ok ?s3" "device_list E ?s3 ds"
      using ok s(2) same by (simp_all add: registry_ok_def device_list_def)
    with after_devices [OF E c, of ?s3 ds v "e_curnode E" ec] False ec ctx s(3) same
    show ?thesis by simp
  qed (simp add: starts_die)
qed

lemma devices_only_same:
  "devices_only s s' \<Longrightarrow> config (curnode s') = config (curnode s) \<and> registry_ok s' = registry_ok s"
  using registry_ok_cong [of s' s] by (auto simp: devices_only_def)

lemma start_transports_starts:
  assumes E: "alloc_ok E" "cm_ok E" "\<forall>s. e_devices E s = Some cs"
    and s: "\<not> init_once s" "alive (links s) (e_dev_list E)" "registry_ok s"
    and c: "config (curnode s) = c" "0 \<le> curnode_id c" "curnode_id c < node_cnt c" "node_cnt c \<le> int HMP_NODE_NUM"
  shows "\<exists>s1 ds. hmp_transport_init E s = Some s1 \<and> devices_added E (s\<lparr>init_once := True\<rparr>) cs s1 ds \<and>
    starts E c ds (lists_of s1) (start_transports E s)"
proof -
  from transport_init_yields [OF E(1) s(1,2) E(3)] obtain s1 ds where
    init: "hmp_transport_init E s = Some s1" and added: "devices_added E (s\<lparr>init_once := True\<rparr>) cs s1 ds"
    by (auto simp: yields_def)
  then have s1: "registry_ok s1" "config (curnode s1) = c" "device_list E s1 ds"
    using s(3) c(1) devices_only_same [of "s\<lparr>init_once := True\<rparr>" s1] registry_ok_cong [of "s\<lparr>init_once := True\<rparr>" s]
    by (auto simp: devices_added_def)
  have "starts E c ds (lists_of s1) (start_transports E s)"
    unfolding start_transports_parts init bind.bind_lunit Let_def
  proof (rule starts_bind [OF context_create_yields [OF E(1)]], clarify)
    fix ctx s2
    assume only: "context_only s1 s2" and new: "if ctx = NULL then contexts s2 = contexts s1
      else contexts s1 ctx = None \<and> map_option ctx_stop (contexts s2 ctx) = Some 0 \<and>
        contexts s2 = (contexts s1)(ctx := contexts s2 ctx)"
    let ?s2 = "upd_curnode (\<lambda>n. n\<lparr>node_ctx := ctx\<rparr>) s2"
    have s2: "registry_ok ?s2" "config (curnode ?s2) = c" "device_list E ?s2 ds" "lists_of ?s2 = lists_of s1"
      using context_only_same [OF only] s1 by (simp_all add: registry_ok_def device_list_def lists_of_def)
    show "starts E c ds (lists_of s1) (if ctx = NULL then die ''create context error.'' ?s2 else from_context E ctx ?s2)"
    proof (cases "ctx = NULL")
      case False
      with new obtain x where "contexts ?s2 ctx = Some x" "ctx_stop x = 0" by auto
      with after_context [OF E(1,2) c(2-4) s2(1,3,2,4) _ False] show ?thesis using False by simp
    qed (simp add: starts_die)
  qed
  with init added show ?thesis by blast
qed

section \<open>From the document to the node\<close>

text \<open>The configuration that a document with the nodes \<open>es\<close> gives at the node with index \<open>i\<close>.\<close>

definition reads :: "hmp_config \<Rightarrow> (string \<times> int) list \<Rightarrow> int \<Rightarrow> bool" where
  "reads c es i \<longleftrightarrow> node_cnt c = int (length es) \<and> curnode_id c = i \<and>
     (\<forall>j<length es. ni_addr (node_infos c ! j) = fst (es ! j) \<and> ni_port (node_infos c ! j) = snd (es ! j))"

definition node_up :: "env \<Rightarrow> (string \<times> int) list \<Rightarrow> int \<Rightarrow> ptr list \<Rightarrow> ptr list \<Rightarrow> sys \<Rightarrow> bool" where
  "node_up E es i cs ds s \<longleftrightarrow> subseq (map (verbs_of s) ds) (rev (filter (usable_context E) cs)) \<and>
     (\<exists>c. reads c es i \<and> started E c ds (lists_of s) (length es) s \<and>
       (\<exists>ps. hash_ring E s ps (sort_key hn_key (map (\<lambda>j. \<lparr>hn_key = the (hash_key (node_infos c ! j)), hn_node_id = int j\<rparr>)
         [0..<length es]))))"

lemma filter_first: "filter P xs = j # js \<Longrightarrow> j \<in> set xs"
  by (metis filter_is_subset list.set_intros(1) subsetD)

lemma own_node_range: "own_node E ifs as = Some i \<Longrightarrow> 0 \<le> i \<and> i < int (length as)"
  by (auto simp: own_node_def dest!: filter_first split: list.splits)

text \<open>The hash ring is still there when the devices have been listed.\<close>

lemma hash_ring_stays:
  assumes ring: "hash_ring E s ps ns" "ring_grown E s0 s ps" and dev: "links s0 (e_dev_list E) \<noteq> None" "e_dev_list E \<noteq> e_hash_list E"
    and s': "devices_added E (s\<lparr>init_once := b\<rparr>) cs s' ds"
  shows "hash_ring E s' ps ns"
proof -
  have "agree_on (set (e_hash_list E # map entry_of ps)) (links s) (links s')"
    unfolding agree_on_def
  proof
    fix a assume a: "a \<in> set (e_hash_list E # map entry_of ps)"
    then have "alive (links s) a" using ring(1) ring_alive by (auto simp: hash_ring_def)
    moreover have "a \<noteq> e_dev_list E" using a ring(2) dev by (auto simp: ring_grown_def)
    ultimately show "links s' a = links s a" using s' by (auto simp: devices_added_def agree_on_def alive_def)
  qed
  moreover have "hash_nodes s' = hash_nodes s" using s' by (auto simp: devices_added_def devices_only_def)
  ultimately show ?thesis using ring(1) ring_agree by (auto simp: hash_ring_def)
qed

text \<open>The part after the configuration.\<close>

lemma after_config:
  assumes E: "alloc_ok E" "cm_ok E" "\<forall>s. e_devices E s = Some cs" "e_dev_list E \<noteq> e_hash_list E"
    and s: "\<not> init_once s" "registry_ok s" "alive (links s) (e_dev_list E)" "alive (links s) (e_hash_list E)"
    and c: "reads (config (curnode s)) es i" "0 \<le> i" "i < int (length es)" "length es \<le> HMP_NODE_NUM"
      "\<forall>e\<in>set es. length (fst e) < HMP_ADDR_LEN"
  shows "yields (hmp_hash_init E s) (\<lambda>(h, s1). h = Inl (Exited (- 1)) \<or> h = Inr () \<and>
    (\<exists>s2 ds. hmp_transport_init E s1 = Some s2 \<and> device_list E s2 ds \<and>
      (ds = [] \<and> start_transports E s1 = None \<or> yields (start_transports E s1) (\<lambda>(r, s').
        r = Inl (Exited (- 1)) \<or> ds \<noteq> [] \<and> r = Inr () \<and> node_up E es i cs ds s'))))"
proof -
  let ?c = "config (curnode s)" and ?n = "length es"
  have cnt: "node_cnt ?c = int ?n" "node_cnt ?c \<le> int HMP_NODE_NUM" "curnode_id ?c = i"
    using c by (simp_all add: reads_def)
  have "length (ni_addr (node_infos ?c ! j)) < HMP_ADDR_LEN" if "j < ?n" for j
    using c(1,5) that nth_mem [OF that] by (simp add: reads_def)
  then have "\<forall>j. int j < node_cnt ?c \<longrightarrow> length (ni_addr (node_infos ?c ! j)) < HMP_ADDR_LEN" by (simp add: cnt(1))
  note hash = hash_init_yields [OF E(1) cnt(2) this s(4)]
  show ?thesis
  proof (rule yields_mono [OF hash], clarify)
    fix h s1
    assume only: "ring_only s s1" and res: "case h of Inl x \<Rightarrow> x = Exited (- 1)
      | Inr _ \<Rightarrow> holds_nodes E s s1 (nat (node_cnt ?c))" and ne: "\<not> (h = Inr () \<and>
      (\<exists>s2 ds. hmp_transport_init E s1 = Some s2 \<and> device_list E s2 ds \<and>
        (ds = [] \<and> start_transports E s1 = None \<or> yields (start_transports E s1) (\<lambda>(r, s').
          r = Inl (Exited (- 1)) \<or> ds \<noteq> [] \<and> r = Inr () \<and> node_up E es i cs ds s'))))"
    show "h = Inl (Exited (- 1))"
    proof (cases h)
      case (Inr u)
      let ?ns = "sort_key hn_key (map (hash_node_of s) [0..<?n])"
      from res Inr cnt(1) obtain ps where ps: "hash_ring E s1 ps ?ns" "ring_grown E s s1 ps"
        by (auto simp: holds_nodes_def)
      have dev: "links s (e_dev_list E) \<noteq> None" using s(3) by (simp add: alive_def)
      then have "links s1 (e_dev_list E) = links s (e_dev_list E)"
        using ps(2) E(4) by (simp add: ring_grown_def agree_on_def domIff)
      then have "alive (links s1) (e_dev_list E)" using s(3) by (simp add: alive_def)
      moreover have "\<not> init_once s1" "registry_ok s1" "curnode s1 = curnode s"
        using only s(1,2) registry_ok_cong [of s1 s] by (auto simp: ring_only_def)
      ultimately obtain s2 ds where s2: "hmp_transport_init E s1 = Some s2"
          "devices_added E (s1\<lparr>init_once := True\<rparr>) cs s2 ds" "starts E ?c ds (lists_of s2) (start_transports E s1)"
        using start_transports_starts [OF E(1-3), of s1 ?c] c(2,3) cnt by auto
      have ring: "hash_ring E s2 ps ?ns" by (rule hash_ring_stays [OF ps dev E(4) s2(2)])
      have "node_up E es i cs ds s'" if st: "started E ?c ds (lists_of s2) ?n s'" for s'
      proof -
        have l: "lists_of s' = lists_of s2" using st by (simp add: started_def Let_def)
        then have "subseq (map (verbs_of s') ds) (rev (filter (usable_context E) cs))"
          using s2(2) by (simp add: devices_added_def lists_of_def verbs_of_def [abs_def])
        moreover have "hash_ring E s' ps ?ns" using ring l by (simp add: hash_ring_def lists_of_def)
        ultimately show ?thesis
          using st l c(1) unfolding node_up_def hash_node_of_def by auto
      qed
      moreover have "device_list E s2 ds" using s2(2) by (simp add: devices_added_def)
      ultimately show ?thesis
        using ne s2(1,3) Inr cnt(1) by (auto simp: starts_def yields_def)
    qed (use res in simp)
  qed
qed

text \<open>Without a device, and with memory for the pool, the creation of the pool dereferences NULL.\<close>

lemma mempool_create_faults:
  assumes "listen_pd s = None" "0 < sz" "\<And>s k. e_ptr E s (Mem (Alloc k)) \<noteq> NULL"
  shows "hmp_mempool_create E sz s = None"
proof -
  have pd: "listen_pd s' = None" if "curnode s' = curnode s" "transports s' = transports s" "devices s' = devices s" for s'
    using that assms(1) by (simp add: listen_pd_def)
  show ?thesis
    using assms(2,3)
    by (simp add: hmp_mempool_create_def calloc_mempool_def calloc_block_def ptr_call_def mempool_set_size_eq pd
      upd_mempool_def Let_def)
qed


text \<open>The first of the two nodes of \<open>config.xml\<close>, on a machine with two usable devices.\<close>

definition start_env :: env where
  "start_env = sample_env\<lparr>e_ptr := (\<lambda>s c. case c of Mem (Alloc k) \<Rightarrow> sample_alloc s k | _ \<Rightarrow> 0x2000),
     e_devices := (\<lambda>_. Some [0x80, 0x90]), e_ntoa := (\<lambda>_. ''192.168.31.182'')\<rparr>"

definition start_sys :: sys where
  "start_sys = sample_sys\<lparr>devices := Map.empty, links := [0x20 \<mapsto> zero_link, 0x40 \<mapsto> zero_link]\<rparr>"

lemma start_env_ok: "alloc_ok start_env" "cm_ok start_env" "\<forall>s. e_devices start_env s = Some [0x80, 0x90]"
    "e_dev_list start_env \<noteq> e_hash_list start_env"
  by (simp_all add: alloc_ok_def cm_ok_def start_env_def sample_env_def sample_alloc_def)

lemma start_sys_ok: "\<not> init_once start_sys" "registry_ok start_sys"
    "alive (links start_sys) (e_dev_list start_env)" "alive (links start_sys) (e_hash_list start_env)"
    "length (node_infos (config (curnode start_sys))) = HMP_NODE_NUM"
  by (simp_all add: start_sys_def sample_sys_def sample_node_def start_env_def sample_env_def registry_ok_def
    alive_def HMP_NODE_NUM_def)


end
