(* ===== verification/Node_End.thy ===== *)
theory Node_End
  imports Hmp_Node Device_Props Hmp_Mem_Props Task_Props
begin

text \<open>
  The end of a node: what \<open>hmp_node_release\<close> of \<open>hmp_node.c\<close> gives back when the event thread has
  ended, and what it leaves behind.
\<close>

section \<open>The pool\<close>

text \<open>A pool in two blocks of the allocator, of these sizes.\<close>

definition pool_blocks :: "sys \<Rightarrow> hmp_mempool \<Rightarrow> nat \<Rightarrow> nat \<Rightarrow> bool" where
  "pool_blocks s m nb np \<longleftrightarrow> dram_mempool (curnode s) \<noteq> NULL \<and> mempools s (dram_mempool (curnode s)) = Some m \<and>
     base_addr m \<noteq> NULL \<and> page_array m \<noteq> NULL \<and> base_addr m \<noteq> page_array m \<and>
     blocks s (base_addr m) = Some nb \<and> blocks s (page_array m) = Some np"

text \<open>The heaps of the allocator without them.\<close>

definition pool_gone :: "sys \<Rightarrow> hmp_mempool \<Rightarrow> nat \<Rightarrow> nat \<Rightarrow> sys \<Rightarrow> sys" where
  "pool_gone s m nb np s' = s'\<lparr>mempools := (mempools s)(dram_mempool (curnode s) := None),
     blocks := (blocks s)(base_addr m := None, page_array m := None),
     mem := mem s |` (- (span (base_addr m) nb \<union> span (page_array m) np)),
     calls := map (\<lambda>p. Mem (Free p)) [dram_mempool (curnode s), base_addr m, page_array m] @ calls s',
     curnode := (curnode s')\<lparr>dram_mempool := NULL\<rparr>\<rparr>"

lemma mem_destroy_run:
  assumes "pool_blocks s m nb np"
  shows "hmp_mem_destroy s = Some (pool_gone s m nb np s)"
  using assms
  by (auto simp: hmp_mem_destroy_def pool_blocks_def pool_gone_def free_block_def free_mempool_def Let_def
    upd_curnode_def record_call_def restrict_map_def load_def fun_eq_iff intro!: sys.equality)

section \<open>The node\<close>

text \<open>What is in the way of another start: everything that is not a device or the pool.\<close>

definition kept_parts ::
  "sys \<Rightarrow> hmp_transport heap \<times> hmp_context heap \<times> hmp_event_data heap \<times> hmp_cq heap \<times> hmp_task heap \<times>
     hmp_hash_node heap \<times> ibv_mr heap \<times> (int \<times> int \<rightharpoonup> ptr) \<times> rdma_cm_id heap \<times> int heap \<times> hmp_config \<times>
     ptr \<times> ptr \<times> ptr list" where
  "kept_parts s = (transports s, contexts s, event_datas s, hcqs s, tasks s, hash_nodes s, mrs s, interest s,
     cm_ids s, chan_fds s, config (curnode s), node_ctx (curnode s), listen_trans (curnode s), connect_trans (curnode s))"


text \<open>The node of \<open>Task_Props\<close> with one device in its list.\<close>

definition ending_sys :: sys where
  "ending_sys = busy_sys\<lparr>links := [0x20 \<mapsto> \<lparr>lh_next = 0x70, lh_prev = 0x70\<rparr>, 0x70 \<mapsto> \<lparr>lh_next = 0x20, lh_prev = 0x20\<rparr>],
     blocks := [0x10000 \<mapsto> 4096, 0x120 \<mapsto> 1024]\<rparr>"


end
