(* ===== verification/Two_Nodes.thy ===== *)
theory Two_Nodes
  imports Access_Props Msg_Exchange Hmp_Mem_Props "HOL-Library.Sublist"
begin

text \<open>
  Hybrid memory between two nodes: what one node writes to the pool of another, the other one
  reads. The network between them is a parameter; of it only the documented effect of an RDMA
  write is assumed.
\<close>

section \<open>The network\<close>

text \<open>How a request of one node changes the node at the other end; \<open>None\<close> is a completion with an
  error.\<close>

type_synonym network = "ibv_send_wr \<Rightarrow> sys \<Rightarrow> sys \<Rightarrow> sys option"

definition in_region :: "ibv_mr \<Rightarrow> ptr \<Rightarrow> nat \<Rightarrow> bool" where
  "in_region r a n \<longleftrightarrow> span a n \<subseteq> span (mr_addr r) (unat (mr_length r))"

text \<open>A region that the node has registered for remote writes.\<close>

definition writable_region :: "sys \<Rightarrow> ibv_mr \<Rightarrow> bool" where
  "writable_region s r \<longleftrightarrow> r \<in> ran (mrs s) \<and> (\<exists>pd flags. flags AND IBV_ACCESS_REMOTE_WRITE \<noteq> 0 \<and>
     Verbs (Reg_mr pd (mr_addr r) (uint (mr_length r)) flags) \<in> set (calls s))"

text \<open>The documented effect of an RDMA write: it copies the requester's buffer, which must be in the
  region of the local key, to the address in the region of the remote key.\<close>

definition rdma_writes :: "network \<Rightarrow> bool" where
  "rdma_writes N \<longleftrightarrow> (\<forall>wr s u ra rb bs h. let sge = swr_sge wr; n = unat (ibv_length sge) in
     swr_opcode wr = IBV_WR_RDMA_WRITE \<longrightarrow> ra \<in> ran (mrs s) \<longrightarrow> mr_lkey ra = ibv_lkey sge \<longrightarrow>
     in_region ra (ibv_addr sge) n \<longrightarrow> read_bytes (mem s) (ibv_addr sge) n = Some bs \<longrightarrow>
     writable_region u rb \<longrightarrow> mr_rkey rb = swr_rkey wr \<longrightarrow> in_region rb (swr_remote_addr wr) n \<longrightarrow>
     write_bytes (mem u) (swr_remote_addr wr) bs = Some h \<longrightarrow> N wr s u = Some (u\<lparr>mem := h\<rparr>))"

text \<open>The requests that are carried out in the order in which they were posted.\<close>

fun carried :: "network \<Rightarrow> ibv_send_wr list \<Rightarrow> sys \<Rightarrow> sys \<Rightarrow> sys option" where
  "carried N [] s u = Some u"
| "carried N (wr # wrs) s u = do { u \<leftarrow> N wr s u; carried N wrs s u }"

text \<open>The requests among the calls of a run, oldest first.\<close>

fun request_of :: "call \<Rightarrow> ibv_send_wr list" where
  "request_of (Verbs (Post_send q wr)) = [wr]"
| "request_of _ = []"

definition requests :: "sys \<Rightarrow> ibv_send_wr list" where
  "requests s = concat (map request_of (rev (calls s)))"

section \<open>The writing node\<close>

fun write_all :: "env \<Rightarrow> (sys \<Rightarrow> sys option) \<Rightarrow> (ptr \<times> ptr \<times> int) list \<Rightarrow> sys \<Rightarrow> sys option" where
  "write_all E W [] s = Some s"
| "write_all E W ((src, hm, len) # ws) s = do { (_, s) \<leftarrow> hmp_write E W src hm len s; write_all E W ws s }"

text \<open>A node that is connected with node \<open>i\<close>.\<close>

definition joined :: "sys \<Rightarrow> int \<Rightarrow> ptr \<Rightarrow> hmp_transport \<Rightarrow> hmp_mempool \<Rightarrow> ibv_mr \<Rightarrow> bool" where
  "joined s i p t m r \<longleftrightarrow> get_connect_trans i s = Some p \<and> usable s p t \<and> trans_node_id t = i \<and>
     pool_ready s m r \<and> 0 \<le> i \<and> i < node_cnt (config (curnode s)) \<and> i \<noteq> curnode_id (config (curnode s)) \<and>
     node_cnt (config (curnode s)) \<le> int HMP_NODE_NUM"

text \<open>The request for the bytes \<open>bs\<close> from \<open>src\<close> to the address \<open>a\<close> at the peer.\<close>

definition write_wr :: "32 word \<Rightarrow> 32 word \<Rightarrow> ptr \<times> ptr \<times> 8 word list \<Rightarrow> ibv_send_wr \<Rightarrow> bool" where
  "write_wr lkey rkey w wr \<longleftrightarrow> (case w of (src, a, bs) \<Rightarrow> swr_opcode wr = IBV_WR_RDMA_WRITE \<and>
     swr_sge wr = \<lparr>ibv_addr = src, ibv_length = word_of_nat (length bs), ibv_lkey = lkey\<rparr> \<and>
     swr_remote_addr wr = a \<and> swr_rkey wr = rkey)"

definition to_node :: "int \<Rightarrow> (ptr \<times> ptr \<times> 8 word list) list \<Rightarrow> (ptr \<times> ptr \<times> int) list" where
  "to_node i = map (\<lambda>(src, a, bs). (src, hybrid_addr i a, int (length bs)))"

text \<open>One write: a request, or nothing when there is no memory for its task.\<close>

lemma write_step:
  assumes j: "joined s i p t m r" and a: "uint a < 2 ^ 48" "length bs < 2 ^ 31"
  shows "\<exists>s' x. hmp_write E W src (hybrid_addr i a) (int (length bs)) s = Some (Inr 0, s') \<and>
    joined s' i p t m r \<and> mem s' = mem s \<and> mrs s' = mrs s \<and> curnode s' = curnode s \<and>
    requests s' = requests s @ x \<and>
    (x = [] \<and> e_ptr E (hybrid_log s) (Mem (Alloc A_task)) = NULL \<or>
     (\<exists>wr. x = [wr] \<and> write_wr (mr_lkey r) (peer_rkey s i) (src, a, bs) wr))"
proof -
  have dec: "fst (hmp_get_hm_node_id (hybrid_addr i a) s) = Inr (i, a)"
    using hm_node_id_iff [of s "hybrid_addr i a" i a] j a by (simp add: joined_def)
  have u: "trans_state t = HMP_TRANSPORT_STATE_CONNECTED" "p \<noteq> NULL" "transports s p = Some t"
    using j by (simp_all add: joined_def usable_def)
  from remote_write_run [OF dec, of p t m r E W src "int (length bs)"] j u obtain s' where
    s': "hmp_write E W src (hybrid_addr i a) (int (length bs)) s = Some (Inr 0, s')" "mem s' = mem s"
      "transports s' = transports s" "curnode s' = curnode s" "mempools s' = mempools s" "mrs s' = mrs s" and
    q: "let q = e_ptr E (hybrid_log s) (Mem (Alloc A_task)); k = one_sided HMP_TASK_WRITE p src (int (length bs)) (mr_lkey r)
      in if q = NULL then calls s' = Mem (Alloc A_task) # calls s
      else calls s' = Verbs (Post_send (trans_qp t) (rdma_wr q k IBV_WR_RDMA_WRITE a (peer_rkey s i))) #
         Mem (Alloc A_task) # calls s"
    by (auto simp: joined_def Let_def split: if_splits)
  have "joined s' i p t m r"
    using j s' by (simp add: joined_def usable_def pool_ready_def get_connect_trans_def split: if_splits)
  moreover have "\<exists>x. requests s' = requests s @ x \<and>
    (x = [] \<and> e_ptr E (hybrid_log s) (Mem (Alloc A_task)) = NULL \<or>
     (\<exists>wr. x = [wr] \<and> write_wr (mr_lkey r) (peer_rkey s i) (src, a, bs) wr))"
    using q by (auto simp: Let_def requests_def write_wr_def rdma_wr_def task_ibv_sge_def one_sided_def split: if_splits)
  ultimately show ?thesis using s' by blast
qed

text \<open>All writes: those that got a task are requested, in their order.\<close>

lemma writes_run:
  assumes "joined s i p t m r" "\<forall>(src, a, bs) \<in> set ws. uint a < 2 ^ 48 \<and> length bs < 2 ^ 31"
  shows "\<exists>s' vs wrs. write_all E W (to_node i ws) s = Some s' \<and> mem s' = mem s \<and> mrs s' = mrs s \<and>
    requests s' = requests s @ wrs \<and> subseq vs ws \<and> list_all2 (write_wr (mr_lkey r) (peer_rkey s i)) vs wrs \<and>
    ((\<forall>s. e_ptr E s (Mem (Alloc A_task)) \<noteq> NULL) \<longrightarrow> vs = ws)"
  using assms
proof (induction ws arbitrary: s)
  case Nil
  show ?case
    by (intro exI [of _ s] exI [of _ "[]"]) (simp add: to_node_def)
next
  case (Cons w ws)
  obtain src a bs where w: "w = (src, a, bs)" by (cases w)
  from Cons.prems w write_step [of s i p t m r a bs E W src] obtain s1 x where
    s1: "hmp_write E W src (hybrid_addr i a) (int (length bs)) s = Some (Inr 0, s1)" "joined s1 i p t m r"
      "mem s1 = mem s" "mrs s1 = mrs s" "curnode s1 = curnode s" "requests s1 = requests s @ x" and
    x: "x = [] \<and> e_ptr E (hybrid_log s) (Mem (Alloc A_task)) = NULL \<or>
      (\<exists>wr. x = [wr] \<and> write_wr (mr_lkey r) (peer_rkey s i) (src, a, bs) wr)"
    by auto
  have "peer_rkey s1 i = peer_rkey s i" using s1(5) by (simp add: peer_rkey_def)
  with Cons.IH [OF s1(2)] Cons.prems(2) obtain s' vs wrs where
    s': "write_all E W (to_node i ws) s1 = Some s'" "mem s' = mem s1" "mrs s' = mrs s1" "requests s' = requests s1 @ wrs" and
    vs: "subseq vs ws" "list_all2 (write_wr (mr_lkey r) (peer_rkey s i)) vs wrs"
      "(\<forall>s. e_ptr E s (Mem (Alloc A_task)) \<noteq> NULL) \<longrightarrow> vs = ws"
    by auto
  have run: "write_all E W (to_node i (w # ws)) s = Some s'"
    using s1(1) s'(1) w by (simp add: to_node_def)
  from x show ?case
  proof
    assume "x = [] \<and> e_ptr E (hybrid_log s) (Mem (Alloc A_task)) = NULL"
    with run s1 s' vs show ?thesis by (intro exI [of _ s'] exI [of _ vs] exI [of _ wrs]) auto
  next
    assume "\<exists>wr. x = [wr] \<and> write_wr (mr_lkey r) (peer_rkey s i) (src, a, bs) wr"
    then obtain wr where "x = [wr]" "write_wr (mr_lkey r) (peer_rkey s i) w wr" using w by auto
    with run s1 s' vs show ?thesis by (intro exI [of _ s'] exI [of _ "w # vs"] exI [of _ "wr # wrs"]) auto
  qed
qed

section \<open>The node that is written to\<close>

text \<open>The reference: the bytes of every write put at its address, one after the other.\<close>

fun apply_writes :: "(ptr \<times> ptr \<times> 8 word list) list \<Rightarrow> bytes \<Rightarrow> bytes option" where
  "apply_writes [] h = Some h"
| "apply_writes ((src, a, bs) # ws) h = do { h \<leftarrow> write_bytes h a bs; apply_writes ws h }"

lemma apply_writes_append:
  "apply_writes (xs @ ys) h = do { h \<leftarrow> apply_writes xs h; apply_writes ys h }"
  by (induction xs arbitrary: h) (auto split: Option.bind_split)

lemma apply_writes_other:
  assumes "apply_writes ws h = Some h'" "\<forall>(src, b, cs) \<in> set ws. span a n \<inter> span b (length cs) = {}"
  shows "read_bytes h' a n = read_bytes h a n"
  using assms
proof (induction ws arbitrary: h)
  case (Cons w ws)
  obtain src b cs where w: "w = (src, b, cs)" by (cases w)
  with Cons.prems obtain h1 where "write_bytes h b cs = Some h1" "apply_writes ws h1 = Some h'"
    by (auto simp: Option.bind_eq_Some_conv)
  with Cons w read_write_other [of h b cs h1 a n] show ?case by (auto simp: Int_commute)
qed simp

text \<open>A write that no later one touches is what a read finds.\<close>

lemma apply_writes_last:
  assumes "apply_writes (xs @ (src, a, bs) # ys) h = Some h'" "length bs \<le> 2 ^ 64"
    and "\<forall>(src, b, cs) \<in> set ys. span a (length bs) \<inter> span b (length cs) = {}"
  shows "read_bytes h' a (length bs) = Some bs"
proof -
  from assms(1) obtain h1 h2 where "write_bytes h1 a bs = Some h2" "apply_writes ys h2 = Some h'"
    by (auto simp: apply_writes_append Option.bind_eq_Some_conv)
  with read_write_bytes [OF _ assms(2)] apply_writes_other [OF _ assms(3)] show ?thesis by metis
qed

text \<open>What a write needs: its buffer in the requester's region, its target in the other one.\<close>

definition write_fits :: "sys \<Rightarrow> ibv_mr \<Rightarrow> bytes \<Rightarrow> ibv_mr \<Rightarrow> ptr \<times> ptr \<times> 8 word list \<Rightarrow> bool" where
  "write_fits s ra h rb w \<longleftrightarrow> (case w of (src, a, bs) \<Rightarrow> length bs < 2 ^ 31 \<and>
     read_bytes (mem s) src (length bs) = Some bs \<and> in_region ra src (length bs) \<and>
     in_region rb a (length bs) \<and> allocated h a (length bs))"

lemma carried_writes:
  assumes "rdma_writes N" "ra \<in> ran (mrs s)" "writable_region u rb"
    and "list_all2 (write_wr (mr_lkey ra) (mr_rkey rb)) vs wrs" "\<forall>w \<in> set vs. write_fits s ra (mem u) rb w"
  shows "\<exists>h. carried N wrs s u = Some (u\<lparr>mem := h\<rparr>) \<and> apply_writes vs (mem u) = Some h \<and> dom h = dom (mem u)"
  using assms(3-5)
proof (induction vs arbitrary: wrs u)
  case (Cons w vs)
  obtain src a bs where w: "w = (src, a, bs)" by (cases w)
  from Cons.prems(2) obtain wr wrs' where wrs: "wrs = wr # wrs'" "write_wr (mr_lkey ra) (mr_rkey rb) w wr"
      "list_all2 (write_wr (mr_lkey ra) (mr_rkey rb)) vs wrs'" by (auto simp: list_all2_Cons1)
  have fits: "write_fits s ra (mem u) rb (src, a, bs)" using Cons.prems(3) w by simp
  then obtain h1 where h1: "write_bytes (mem u) a bs = Some h1"
    using write_bytes_total by (fastforce simp: write_fits_def)
  note d = write_bytes_dom [OF h1]
  have n: "unat (word_of_nat (length bs) :: 32 word) = length bs"
    using fits by (simp add: write_fits_def unat_of_nat take_bit_eq_mod)
  have "N wr s u = Some (u\<lparr>mem := h1\<rparr>)"
    using assms(1,2) fits wrs(2) w n h1 Cons.prems(1)
    unfolding rdma_writes_def Let_def by (auto simp: write_fits_def write_wr_def)
  moreover have "writable_region (u\<lparr>mem := h1\<rparr>) rb" using Cons.prems(1) by (simp add: writable_region_def)
  moreover have "\<forall>w \<in> set vs. write_fits s ra (mem (u\<lparr>mem := h1\<rparr>)) rb w"
    using Cons.prems(3) d by (auto simp: write_fits_def allocated_def)
  ultimately show ?case
    using Cons.IH [of "u\<lparr>mem := h1\<rparr>" wrs'] wrs(1,3) h1 d w by auto
qed simp

section \<open>From node to node\<close>

lemma knows_rkey:
  assumes "config (curnode s) = knows_pool i mb rb c" "0 \<le> i" "in_nodes i" "length (node_infos c) = HMP_NODE_NUM"
  shows "peer_rkey s i = mr_rkey rb"
proof -
  have "nat i < length (node_infos c)" using assms(3,4) by (simp add: in_nodes_def nat_less_iff)
  then show ?thesis using assms(1) by (simp add: peer_rkey_def knows_pool_def)
qed


section \<open>Two concrete nodes\<close>

text \<open>A network that does what is documented, node 1 of \<open>Access_Props\<close> with two bytes in its pool, and
  its peer.\<close>

definition copy_network :: network where
  "copy_network wr s u = do {
     bs \<leftarrow> read_bytes (mem s) (ibv_addr (swr_sge wr)) (unat (ibv_length (swr_sge wr)));
     h \<leftarrow> write_bytes (mem u) (swr_remote_addr wr) bs;
     Some (u\<lparr>mem := h\<rparr>) }"

lemma copy_network_writes: "rdma_writes copy_network"
  by (simp add: rdma_writes_def copy_network_def Let_def)

definition sender_sys :: sys where
  "sender_sys = linked_sys\<lparr>mem := busy_mem(0x10200 \<mapsto> 1, 0x10201 \<mapsto> 2),
     curnode := (curnode linked_sys)\<lparr>config := knows_pool 0 busy_pool busy_mr (config sample_node)\<rparr>\<rparr>"

definition receiver_sys :: sys where
  "receiver_sys = busy_sys\<lparr>curnode := (curnode busy_sys)\<lparr>config := (config sample_node)\<lparr>curnode_id := 0\<rparr>\<rparr>,
     calls := [Verbs (Reg_mr 0x90 0x10000 4096 pool_access)]\<rparr>"

text \<open>A machine on which there is always memory for a task.\<close>

definition roomy_env :: env where
  "roomy_env = sample_env\<lparr>e_ptr := \<lambda>s c. 0x200000\<rparr>"

lemma busy_mr_span: "a \<in> span 0x10000 4096 \<longleftrightarrow> 0x10000 \<le> a \<and> a < (0x11000 :: ptr)"
  by (simp add: span_unat word_le_nat_alt word_less_nat_alt)

lemma sender_joined: "joined sender_sys 0 0x200 linked_trans busy_pool busy_mr"
  using linked_fields linked_pool
  by (simp add: joined_def sender_sys_def usable_def pool_ready_def get_connect_trans_def knows_pool_def
    HMP_NODE_NUM_def)

lemma sender_config: "config (curnode sender_sys) = knows_pool 0 busy_pool busy_mr (config sample_node)"
  "length (node_infos (config sample_node)) = HMP_NODE_NUM"
  by (simp_all add: sender_sys_def sample_node_def HMP_NODE_NUM_def)

lemma receiver_fields:
  "curnode_id (config (curnode receiver_sys)) = 0" "0 < node_cnt (config (curnode receiver_sys))"
  "node_cnt (config (curnode receiver_sys)) \<le> int HMP_NODE_NUM" "mem receiver_sys = busy_mem"
  by (simp_all add: receiver_sys_def sample_node_def busy_sys_def HMP_NODE_NUM_def)

lemma receiver_pool: "pool_ready receiver_sys busy_pool busy_mr"
  using busy_pool_ready by (simp add: pool_ready_def receiver_sys_def)

lemma receiver_region: "writable_region receiver_sys busy_mr"
proof -
  have "busy_mr \<in> ran (mrs receiver_sys)" by (simp add: receiver_sys_def busy_sys_def)
  moreover have "pool_access AND IBV_ACCESS_REMOTE_WRITE \<noteq> 0"
    by (simp add: pool_access_def IBV_ACCESS_LOCAL_WRITE_def IBV_ACCESS_REMOTE_WRITE_def)
  moreover have "Verbs (Reg_mr 0x90 (mr_addr busy_mr) (uint (mr_length busy_mr)) pool_access) \<in> set (calls receiver_sys)"
    by (simp add: receiver_sys_def busy_mr_def)
  ultimately show ?thesis unfolding writable_region_def by blast
qed

lemma sender_fits: "write_fits sender_sys busy_mr (mem receiver_sys) busy_mr (0x10200, 0x10300, [1, 2])"
proof -
  have "read_bytes (mem sender_sys) 0x10200 (Suc (Suc 0)) = Some [1, 2]"
    by (simp add: sender_sys_def load_def)
  moreover have "in_region busy_mr 0x10200 (Suc (Suc 0))" "in_region busy_mr 0x10300 (Suc (Suc 0))"
    by (simp_all add: in_region_def busy_mr_def span_Suc busy_mr_span)
  moreover have "allocated busy_mem 0x10300 (Suc (Suc 0))" by (rule busy_alloc) simp_all
  ultimately show ?thesis by (simp add: write_fits_def receiver_fields)
qed


end
